(* ===== verification/Prelude.thy ===== *)
theory Prelude
  imports Main "HOL-Library.AList" "HOL-Library.Sublist"
begin

text \<open>
  Shared vocabulary of the SignalWatch development: the Python built-ins the
  modelled code relies on (string containment, \<open>str.upper\<close>, \<open>str.split\<close>,
  negative list indexing, truthiness of optional strings, \<open>dict.get\<close> with a
  default), the Python exceptions they raise, and the generic lemmas on lists and
  association lists that the component theories share.  A Python \<open>dict\<close> whose
  iteration order matters is an association list updated with \<open>AList.update\<close>
  (which keeps the position of an existing key and appends a new one, as a
  Python dict does); a Python \<open>set\<close> is a duplicate-free list grown with
  \<open>List.insert\<close>.
\<close>

named_theorems py_simps "evaluation rules of the modelled Python built-ins"

type_synonym company_number = string
type_synonym officer_key = string

datatype py_error = Index_error | Value_error

subsection \<open>Optional values and truthiness\<close>

text \<open>\<open>d.get(k, default)\<close>: the stored value, or the default when the key is absent.\<close>

definition get_default :: "'a option \<Rightarrow> 'a \<Rightarrow> 'a" where
  "get_default v d = (case v of None \<Rightarrow> d | Some x \<Rightarrow> x)"

text \<open>Truthiness of an optional string field: \<open>None\<close> and \<open>''\<close> are false.\<close>

definition py_truthy :: "string option \<Rightarrow> bool" where
  "py_truthy v = (case v of None \<Rightarrow> False | Some s \<Rightarrow> s \<noteq> [])"

lemma get_default_simps [simp, py_simps]:
  "get_default None d = d" "get_default (Some x) d = x"
  by (simp_all add: get_default_def)

lemma py_truthy_simps [simp, py_simps]:
  "py_truthy None = False" "py_truthy (Some s) = (s \<noteq> [])"
  by (simp_all add: py_truthy_def)

subsection \<open>Strings\<close>

text \<open>
  Python's \<open>pat in s\<close> on strings: \<open>pat\<close> occurs as a contiguous block of \<open>s\<close>.
\<close>

fun py_contains :: "string \<Rightarrow> string \<Rightarrow> bool" where
  "py_contains pat [] = (pat = [])"
| "py_contains pat (c # cs) = (take (length pat) (c # cs) = pat \<or> py_contains pat cs)"

lemma take_eq_prefix: "(take (length p) s = p) = prefix p s"
  by (metis append_eq_conv_conj prefix_def take_is_prefix)

lemma py_contains_sublist: "py_contains pat s = sublist pat s"
  by (induction s) (auto simp: take_eq_prefix sublist_Cons_right)

text \<open>
  \<open>str.upper\<close> on the ASCII letters.  Non-ASCII letters are not modelled: company
  registry names are upper-case ASCII.
\<close>

definition py_upper_char :: "char \<Rightarrow> char" where
  "py_upper_char c =
     (if 97 \<le> (of_char c :: nat) \<and> (of_char c :: nat) \<le> 122
      then char_of (of_char c - 32 :: nat) else c)"

definition py_upper :: "string \<Rightarrow> string" where
  "py_upper s = map py_upper_char s"

lemma length_py_upper [simp]: "length (py_upper s) = length s"
  by (simp add: py_upper_def)

text \<open>\<open>str.lower\<close> on the ASCII letters.\<close>

definition py_lower_char :: "char \<Rightarrow> char" where
  "py_lower_char c =
     (if 65 \<le> (of_char c :: nat) \<and> (of_char c :: nat) \<le> 90
      then char_of (of_char c + 32 :: nat) else c)"

definition py_lower :: "string \<Rightarrow> string" where
  "py_lower s = map py_lower_char s"

text \<open>\<open>s.split(sep)\<close> for a one-character separator: never empty.\<close>

fun py_split :: "char \<Rightarrow> string \<Rightarrow> string list" where
  "py_split sep [] = [[]]"
| "py_split sep (c # cs) =
     (if c = sep then [] # py_split sep cs
      else (case py_split sep cs of w # ws \<Rightarrow> (c # w) # ws | [] \<Rightarrow> [[c]]))"

lemma py_split_nonempty [simp]: "py_split sep s \<noteq> []"
  by (induction s) (auto split: list.split)

text \<open>\<open>xs[-2]\<close>: the last but one element, \<open>IndexError\<close> for fewer than two.\<close>

definition py_index_neg2 :: "'a list \<Rightarrow> py_error + 'a" where
  "py_index_neg2 xs =
     (if 2 \<le> length xs then Inr (xs ! (length xs - 2)) else Inl Index_error)"

text \<open>Decimal rendering of a natural number, as \<open>str(n)\<close>.\<close>

fun show_nat :: "nat \<Rightarrow> string" where
  "show_nat n =
     (if n < 10 then [char_of (48 + n)] else show_nat (n div 10) @ [char_of (48 + n mod 10)])"

declare show_nat.simps [simp del]

text \<open>\<open>sep.join(xs)\<close>, and the newline character.\<close>

fun py_join :: "string \<Rightarrow> string list \<Rightarrow> string" where
  "py_join sep [] = []"
| "py_join sep [x] = x"
| "py_join sep (x # xs) = x @ sep @ py_join sep xs"

definition nl :: char where
  "nl = CHR 0x0A"

subsection \<open>Lists used as sets, association lists used as dicts\<close>

lemma sorted_const: "\<forall>x\<in>set xs. x = k \<Longrightarrow> sorted xs"
  by (induction xs) auto

lemma length_filter_imp:
  "(\<And>x. P x \<Longrightarrow> Q x) \<Longrightarrow> length (filter P xs) \<le> length (filter Q xs)"
  by (induction xs) auto

lemma length_two_elems: "a \<in> set xs \<Longrightarrow> b \<in> set xs \<Longrightarrow> a \<noteq> b \<Longrightarrow> 1 < length xs"
proof -
  assume "a \<in> set xs" "b \<in> set xs" "a \<noteq> b"
  then have "card {a, b} \<le> card (set xs)" by (intro card_mono) auto
  with \<open>a \<noteq> b\<close> card_length [of xs] show ?thesis by simp
qed

lemma length_insert_notin [simp]: "x \<notin> set xs \<Longrightarrow> length (List.insert x xs) = Suc (length xs)"
  by simp

lemma map_fst_update_set [simp]: "set (map fst (AList.update k v al)) = insert k (set (map fst al))"
  by (induction al) auto

lemma length_update_le: "length (AList.update k v al) \<le> Suc (length al)"
  by (induction al) auto

lemma length_update_new:
  "k \<notin> set (map fst al) \<Longrightarrow> AList.update k v al = al @ [(k, v)]"
  by (induction al) auto

lemma set_update_subset: "set (AList.update k v al) \<subseteq> insert (k, v) (set al)"
  by (induction al) auto

lemma update_existing_map_fst:
  "k \<in> set (map fst al) \<Longrightarrow> map fst (AList.update k v al) = map fst al"
  by (induction al) auto

lemma py_join_cons: "py_join sep ((c # w) # ws) = c # py_join sep (w # ws)"
  by (cases ws) auto

lemma py_join_split: "py_join [sep] (py_split sep s) = s"
proof (induction s)
  case (Cons c cs)
  obtain w ws where sp: "py_split sep cs = w # ws" by (cases "py_split sep cs") auto
  show ?case
  proof (cases "c = sep")
    case True
    with Cons sp show ?thesis by simp
  next
    case False
    with Cons sp show ?thesis by (simp add: py_join_cons)
  qed
qed simp

lemma length_concat_map_le:
  "(\<And>x. x \<in> set xs \<Longrightarrow> length (f x) \<le> k) \<Longrightarrow> length (concat (map f xs)) \<le> k * length xs"
proof (induction xs)
  case (Cons x xs)
  then have "length (f x) \<le> k" "length (concat (map f xs)) \<le> k * length xs" by auto
  then show ?case by simp
qed simp

text \<open>A separator at the end of the string adds an empty last piece.\<close>

lemma py_split_snoc: "py_split sep (s @ [sep]) = py_split sep s @ [[]]"
  by (induction s) (auto split: list.split)

end
