(* ===== verification/Rate_Limiter.thy ===== *)
theory Rate_Limiter
  imports Prelude Complex_Main
begin

text \<open>
  The shared admission gate of \<open>src/core/rate_limiter.py\<close> (class \<open>RateLimiter\<close>):
  a deque of the times of granted requests, pruned lazily of entries older than
  the period.  Python floats for times are modelled as reals.  The clock is an
  input: \<open>acquire\<close> receives the reading of \<open>time.time()\<close> taken when the lock is
  entered, and the extra time \<open>delta \<ge> 0\<close> that \<open>time.sleep(t)\<close> lasted beyond
  \<open>t\<close>, so that the reading after the sleep is \<open>now + t + delta\<close>.  The lock
  serialises callers; a run of callers is therefore a sequence of calls, each
  entering the lock a gap after the previous one returned (\<open>acquire_seq\<close>).

  Main results: under a clock that advances between calls, the granted times never
  put more than \<open>max_requests\<close> grants into any half-open window of length
  \<open>period\<close> (\<open>acquire_seq_window\<close>); when two calls read the same clock value at the
  boundary the gate grants one more than its limit (\<open>acquire_seq_boundary_burst\<close>).
\<close>

record rate_limiter =
  max_requests :: int
  period :: real
  requests :: "real list"

text \<open>\<open>Config.RATE_LIMIT_REQUESTS\<close> and \<open>Config.RATE_LIMIT_PERIOD\<close> at their defaults.\<close>

definition config_rate_limit_requests :: int where
  "config_rate_limit_requests = 600"

definition config_rate_limit_period :: real where
  "config_rate_limit_period = 300"

text \<open>\<open>max_requests or Config...\<close>: \<open>None\<close> and \<open>0\<close> fall back to the configuration.\<close>

definition new_rate_limiter :: "int option \<Rightarrow> real option \<Rightarrow> rate_limiter" where
  "new_rate_limiter m p =
     \<lparr>max_requests = (case m of Some x \<Rightarrow> if x \<noteq> 0 then x else config_rate_limit_requests
                                | None \<Rightarrow> config_rate_limit_requests),
      period = (case p of Some x \<Rightarrow> if x \<noteq> 0 then x else config_rate_limit_period
                          | None \<Rightarrow> config_rate_limit_period),
      requests = []\<rparr>"

text \<open>\<open>while self.requests and self.requests[0] < now - self.period: popleft()\<close>\<close>

fun prune_expired :: "real \<Rightarrow> real \<Rightarrow> real list \<Rightarrow> real list" where
  "prune_expired p now [] = []"
| "prune_expired p now (r # rs) = (if r < now - p then prune_expired p now rs else r # rs)"

text \<open>
  \<open>acquire\<close>: prune; at the limit, sleep until the oldest entry expires, read the
  clock again and prune again; record the (possibly new) reading.  Returns the
  granted time.  \<open>self.requests[0]\<close> on an empty deque (possible only when
  \<open>max_requests \<le> 0\<close>) raises \<open>IndexError\<close>.
\<close>

definition acquire :: "rate_limiter \<Rightarrow> real \<Rightarrow> real \<Rightarrow> py_error + (real \<times> rate_limiter)" where
  "acquire rl now delta =
     (let q = prune_expired (period rl) now (requests rl) in
      if max_requests rl \<le> int (length q) then
        (case q of
          [] \<Rightarrow> Inl Index_error
        | r0 # _ \<Rightarrow>
            let sleep_time = r0 + period rl - now in
            if 0 < sleep_time then
              let now' = now + sleep_time + delta;
                  q' = prune_expired (period rl) now' q
              in Inr (now', rl\<lparr>requests := q' @ [now']\<rparr>)
            else Inr (now, rl\<lparr>requests := q @ [now]\<rparr>))
      else Inr (now, rl\<lparr>requests := q @ [now]\<rparr>))"

definition get_remaining_requests :: "rate_limiter \<Rightarrow> real \<Rightarrow> int \<times> rate_limiter" where
  "get_remaining_requests rl now =
     (let q = prune_expired (period rl) now (requests rl)
      in (max_requests rl - int (length q), rl\<lparr>requests := q\<rparr>))"

definition get_reset_time :: "rate_limiter \<Rightarrow> real \<Rightarrow> real" where
  "get_reset_time rl now =
     (case requests rl of [] \<Rightarrow> 0 | r0 # _ \<Rightarrow> max 0 (r0 + period rl - now))"

definition reset :: "rate_limiter \<Rightarrow> rate_limiter" where
  "reset rl = rl\<lparr>requests := []\<rparr>"

text \<open>
  A serialised run of callers: each call \<open>(gap, delta)\<close> enters the lock \<open>gap\<close>
  seconds after the previous call returned at time \<open>t\<close>.  The result lists the
  granted times; an exception stops the run.
\<close>

fun acquire_seq ::
  "rate_limiter \<Rightarrow> real \<Rightarrow> (real \<times> real) list \<Rightarrow> py_error + (real list \<times> rate_limiter)" where
  "acquire_seq rl t [] = Inr ([], rl)"
| "acquire_seq rl t ((gap, delta) # cs) =
     (case acquire rl (t + gap) delta of
        Inl e \<Rightarrow> Inl e
      | Inr (g, rl') \<Rightarrow>
          (case acquire_seq rl' g cs of
             Inl e \<Rightarrow> Inl e
           | Inr (gs, rl'') \<Rightarrow> Inr (g # gs, rl'')))"

text \<open>The number of grants in the half-open window \<open>(t - p, t]\<close>.\<close>

definition window_count :: "real \<Rightarrow> real list \<Rightarrow> real \<Rightarrow> nat" where
  "window_count p gs t = length (filter (\<lambda>x. t - p < x \<and> x \<le> t) gs)"

definition window_ok :: "int \<Rightarrow> real \<Rightarrow> real list \<Rightarrow> bool" where
  "window_ok m p gs \<longleftrightarrow> (\<forall>t. int (window_count p gs t) \<le> m)"

text \<open>
  The invariant linking the deque to the history \<open>H\<close> of grants, with \<open>T\<close> the
  time the last call returned: the history is sorted and not later than \<open>T\<close>; the
  deque is a suffix of it and what was pruned is older than \<open>T - period\<close>; the
  history satisfies the window bound.
\<close>

definition rl_inv :: "rate_limiter \<Rightarrow> real \<Rightarrow> real list \<Rightarrow> bool" where
  "rl_inv rl T H \<longleftrightarrow>
     sorted H \<and> (\<forall>x\<in>set H. x \<le> T) \<and>
     (\<exists>pre. H = pre @ requests rl \<and> (\<forall>x\<in>set pre. x < T - period rl)) \<and>
     window_ok (max_requests rl) (period rl) H"

subsection \<open>Pruning\<close>

lemma prune_expired_split:
  "\<exists>ds. q = ds @ prune_expired p now q \<and> (\<forall>x\<in>set ds. x < now - p)"
proof (induction q)
  case Nil
  then show ?case by simp
next
  case (Cons r rs)
  then obtain ds where ds: "rs = ds @ prune_expired p now rs" "\<forall>x\<in>set ds. x < now - p"
    by blast
  show ?case
  proof (cases "r < now - p")
    case True
    with ds have "r # rs = (r # ds) @ prune_expired p now (r # rs) \<and>
        (\<forall>x\<in>set (r # ds). x < now - p)"
      by simp
    then show ?thesis by blast
  next
    case False
    then show ?thesis by (intro exI [of _ "[]"]) simp
  qed
qed

lemma prune_expired_ge:
  "sorted q \<Longrightarrow> x \<in> set (prune_expired p now q) \<Longrightarrow> now - p \<le> x"
  by (induction q) (auto split: if_splits)

lemma prune_expired_sorted: "sorted q \<Longrightarrow> sorted (prune_expired p now q)"
  by (induction q) auto

lemma prune_expired_subset: "set (prune_expired p now q) \<subseteq> set q"
  by (induction q) auto

subsection \<open>The window bound\<close>

lemma filter_above_prefix:
  assumes "\<forall>x\<in>set pre. x \<le> (c::real)"
  shows "filter (\<lambda>x. c < x) (pre @ q) = filter (\<lambda>x. c < x) q"
proof -
  from assms have "filter (\<lambda>x. c < x) pre = []"
    by (auto simp: filter_empty_conv not_less)
  then show ?thesis by simp
qed

text \<open>A grant at \<open>g\<close> keeps the bound when fewer than \<open>m\<close> earlier grants lie after \<open>g - p\<close>.\<close>

lemma window_ok_snoc:
  assumes ok: "window_ok m p H"
    and few: "int (length (filter (\<lambda>x. g - p < x) H)) < m"
  shows "window_ok m p (H @ [g])"
  unfolding window_ok_def
proof
  fix t
  show "int (window_count p (H @ [g]) t) \<le> m"
  proof (cases "t - p < g \<and> g \<le> t")
    case True
    then have "window_count p H t \<le> length (filter (\<lambda>x. g - p < x) H)"
      unfolding window_count_def by (intro length_filter_imp) auto
    with True few show ?thesis by (simp add: window_count_def)
  next
    case False
    with ok show ?thesis by (auto simp: window_ok_def window_count_def)
  qed
qed

lemma length_suffix_window:
  assumes "H = pre @ q" and "\<forall>x\<in>set q. T - p < x \<and> x \<le> T"
  shows "length q \<le> window_count p H T"
proof -
  have "filter (\<lambda>x. T - p < x \<and> x \<le> T) q = q"
    using assms(2) by (simp add: filter_id_conv)
  then show ?thesis
    using assms(1) by (simp add: window_count_def)
qed

lemma rl_inv_grant:
  assumes "sorted H" and "\<forall>x\<in>set H. x \<le> g"
    and "H = pre @ q" and "\<forall>x\<in>set pre. x < g - period rl"
    and "window_ok (max_requests rl) (period rl) H"
    and "int (length (filter (\<lambda>x. g - period rl < x) H)) < max_requests rl"
  shows "rl_inv (rl\<lparr>requests := q @ [g]\<rparr>) g (H @ [g])"
  unfolding rl_inv_def
  using assms window_ok_snoc [of "max_requests rl" "period rl" H g]
  by (auto simp: sorted_append intro!: exI [of _ pre])

subsection \<open>One acquisition keeps the invariant\<close>

text \<open>
  The deque after the first pruning holds the grants of \<open>[now - period, T]\<close>, all
  inside the window ending at \<open>T\<close>, so there are at most \<open>max_requests\<close> of them.
  In each branch fewer than \<open>max_requests\<close> earlier grants lie after the granted
  time minus the period: below the limit directly; at the limit because the oldest
  entry is at most the granted time minus the period.
\<close>

lemma acquire_step:
  assumes inv: "rl_inv rl T H" and pos: "0 < max_requests rl" and later: "T < now"
    and d: "0 \<le> delta"
  shows "\<exists>g rl'. acquire rl now delta = Inr (g, rl') \<and> now \<le> g \<and> rl_inv rl' g (H @ [g]) \<and>
           max_requests rl' = max_requests rl \<and> period rl' = period rl"
proof -
  let ?p = "period rl" and ?m = "max_requests rl"
  obtain q where q_eq: "prune_expired ?p now (requests rl) = q" by simp
  from inv obtain pre where sH: "sorted H" and leT: "\<forall>x\<in>set H. x \<le> T"
    and Hpre: "H = pre @ requests rl" and pre: "\<forall>x\<in>set pre. x < T - ?p"
    and ok: "window_ok ?m ?p H"
    unfolding rl_inv_def by blast
  obtain ds where ds: "requests rl = ds @ q" "\<forall>x\<in>set ds. x < now - ?p"
    using prune_expired_split [of "requests rl" ?p now] q_eq by auto
  have sreq: "sorted (requests rl)" using sH Hpre by (simp add: sorted_append)
  have leN: "\<forall>x\<in>set H. x \<le> now" using leT later by force
  have qge: "\<forall>x\<in>set q. now - ?p \<le> x"
    using prune_expired_ge [OF sreq] q_eq by blast
  define pre1 where "pre1 = pre @ ds"
  have H1: "H = pre1 @ q" using Hpre ds by (simp add: pre1_def)
  have pre1: "\<forall>x\<in>set pre1. x < now - ?p" using pre ds later by (auto simp: pre1_def)
  have qwin: "\<forall>x\<in>set q. T - ?p < x \<and> x \<le> T" using qge later leT H1 by fastforce
  have lenq: "int (length q) \<le> ?m"
  proof -
    have "int (window_count ?p H T) \<le> ?m" using ok by (simp add: window_ok_def)
    with length_suffix_window [OF H1 qwin] show ?thesis by linarith
  qed
  show ?thesis
  proof (cases "?m \<le> int (length q)")
    case False
    have "filter (\<lambda>x. now - ?p < x) H = filter (\<lambda>x. now - ?p < x) q"
      using H1 pre1 filter_above_prefix [of pre1 "now - ?p" q] by fastforce
    then have few: "int (length (filter (\<lambda>x. now - ?p < x) H)) < ?m"
      using False by (metis length_filter_le of_nat_mono order.strict_trans1 not_le)
    have "rl_inv (rl\<lparr>requests := q @ [now]\<rparr>) now (H @ [now])"
      using sH leN H1 pre1 ok few by (intro rl_inv_grant) auto
    moreover have "acquire rl now delta = Inr (now, rl\<lparr>requests := q @ [now]\<rparr>)"
      using False q_eq by (simp add: acquire_def)
    ultimately show ?thesis by auto
  next
    case True
    with lenq have eq: "int (length q) = ?m" by simp
    with pos obtain r0 rest where q: "q = r0 # rest" by (cases q) auto
    have r0: "now - ?p \<le> r0" using qge q by simp
    have rest_len: "int (length rest) < ?m" using eq q by simp
    show ?thesis
    proof (cases "0 < r0 + ?p - now")
      case sleep: True
      define g where "g = now + (r0 + ?p - now) + delta"
      obtain q' where q'_eq: "prune_expired ?p g q = q'" by simp
      obtain ds' where ds': "q = ds' @ q'" "\<forall>x\<in>set ds'. x < g - ?p"
        using prune_expired_split [of q ?p g] q'_eq by auto
      have g: "r0 \<le> g - ?p" "now \<le> g" using d sleep by (simp_all add: g_def)
      have "filter (\<lambda>x. g - ?p < x) H = filter (\<lambda>x. g - ?p < x) rest"
        using H1 pre1 q g filter_above_prefix [of "pre1 @ [r0]" "g - ?p" rest] by fastforce
      then have few: "int (length (filter (\<lambda>x. g - ?p < x) H)) < ?m"
        using rest_len by (metis length_filter_le of_nat_mono order.strict_trans1)
      have leG: "\<forall>x\<in>set H. x \<le> g" using leN g by force
      have "rl_inv (rl\<lparr>requests := q' @ [g]\<rparr>) g (H @ [g])"
        using sH leG H1 pre1 ok few ds' g
        by (intro rl_inv_grant [where pre = "pre1 @ ds'"]) auto
      moreover have "acquire rl now delta = Inr (g, rl\<lparr>requests := q' @ [g]\<rparr>)"
        using True q_eq q'_eq sleep q by (simp add: acquire_def g_def Let_def)
      ultimately show ?thesis using g by auto
    next
      case no_sleep: False
      have "filter (\<lambda>x. now - ?p < x) H = filter (\<lambda>x. now - ?p < x) rest"
        using H1 pre1 q no_sleep filter_above_prefix [of "pre1 @ [r0]" "now - ?p" rest]
        by fastforce
      then have few: "int (length (filter (\<lambda>x. now - ?p < x) H)) < ?m"
        using rest_len by (metis length_filter_le of_nat_mono order.strict_trans1)
      have "rl_inv (rl\<lparr>requests := q @ [now]\<rparr>) now (H @ [now])"
        using sH leN H1 pre1 ok few by (intro rl_inv_grant) auto
      moreover have "acquire rl now delta = Inr (now, rl\<lparr>requests := q @ [now]\<rparr>)"
        using True q_eq no_sleep q by (simp add: acquire_def Let_def)
      ultimately show ?thesis by auto
    qed
  qed
qed

subsection \<open>Runs of acquisitions\<close>

lemma acquire_seq_length:
  "acquire_seq rl t cs = Inr (gs, rl') \<Longrightarrow> length gs = length cs"
  by (induction rl t cs arbitrary: gs rl' rule: acquire_seq.induct)
     (auto split: sum.splits prod.splits)

lemma acquire_seq_inv:
  assumes "rl_inv rl t H" and "0 < max_requests rl"
    and "\<forall>(gap, delta)\<in>set cs. 0 < gap \<and> 0 \<le> delta"
  shows "\<exists>gs rl'. acquire_seq rl t cs = Inr (gs, rl') \<and> rl_inv rl' (last (t # gs)) (H @ gs) \<and>
           max_requests rl' = max_requests rl \<and> period rl' = period rl"
  using assms
proof (induction cs arbitrary: rl t H)
  case Nil
  then show ?case by simp
next
  case (Cons c cs)
  obtain gap delta where c: "c = (gap, delta)" by (cases c)
  with Cons.prems(3) have gap: "t < t + gap" and d: "0 \<le> delta" by auto
  from acquire_step [OF Cons.prems(1,2) gap d] obtain g rl1 where
    a: "acquire rl (t + gap) delta = Inr (g, rl1)" and inv1: "rl_inv rl1 g (H @ [g])"
    and m: "max_requests rl1 = max_requests rl" and p: "period rl1 = period rl"
    by blast
  from Cons.prems(2,3) m have "0 < max_requests rl1"
    and "\<forall>(gap, delta)\<in>set cs. 0 < gap \<and> 0 \<le> delta" by auto
  from Cons.IH [OF inv1 this] obtain gs rl' where
    r: "acquire_seq rl1 g cs = Inr (gs, rl')" "rl_inv rl' (last (g # gs)) ((H @ [g]) @ gs)"
    and m': "max_requests rl' = max_requests rl1" "period rl' = period rl1"
    by blast
  then show ?case using a c m p by auto
qed

text \<open>
  Claim C1.  The gate's contract: started empty, with a positive limit, and with the clock
  advancing between the calls that the lock serialises, every call is granted (the
  gate delays, never denies) and no half-open window of length \<open>period\<close> holds more
  than \<open>max_requests\<close> granted times.
\<close>

theorem acquire_seq_window:
  assumes "requests rl = []" and "0 < max_requests rl"
    and "\<forall>(gap, delta)\<in>set cs. 0 < gap \<and> 0 \<le> delta"
  shows "\<exists>gs rl'. acquire_seq rl t cs = Inr (gs, rl') \<and> length gs = length cs \<and>
           window_ok (max_requests rl) (period rl) gs"
proof -
  have "rl_inv rl t []"
    using assms(1,2) by (simp add: rl_inv_def window_ok_def window_count_def)
  from acquire_seq_inv [OF this assms(2,3)] obtain gs rl' where
    "acquire_seq rl t cs = Inr (gs, rl')" "rl_inv rl' (last (t # gs)) gs"
    "max_requests rl' = max_requests rl" "period rl' = period rl"
    by auto
  then show ?thesis by (auto simp: rl_inv_def dest: acquire_seq_length)
qed

text \<open>
  At the window's boundary the pruning test \<open>requests[0] < now - period\<close> keeps an
  entry exactly \<open>period\<close> old, and the sleep is skipped because \<open>sleep_time = 0\<close>;
  the deque then holds one entry more than the limit.  A second call that reads the
  same clock value (a coarse clock, or two threads within one tick) is granted at
  once: with a limit of one request per 10 seconds, grants at 0, 10 and 10 put two
  grants into the window \<open>(0, 10]\<close>.
\<close>

theorem acquire_seq_boundary_burst:
  "\<exists>rl'. acquire_seq (new_rate_limiter (Some 1) (Some 10)) 0 [(0, 0), (10, 0), (0, 0)]
          = Inr ([0, 10, 10], rl') \<and> \<not> window_ok 1 10 [0, 10, 10]"
proof -
  have "window_count 10 [0, 10, 10] 10 = 2" by (simp add: window_count_def)
  then have "\<not> window_ok 1 10 [0, 10, 10]"
    unfolding window_ok_def by (intro notI) (drule spec [of _ 10], simp)
  moreover have "acquire_seq (new_rate_limiter (Some 1) (Some 10)) 0 [(0, 0), (10, 0), (0, 0)]
      = Inr ([0, 10, 10], \<lparr>max_requests = 1, period = 10, requests = [0, 10, 10]\<rparr>)"
    by (simp add: new_rate_limiter_def acquire_def)
  ultimately show ?thesis by blast
qed

subsection \<open>Status queries\<close>

text \<open>
  \<open>get_remaining_requests\<close> lies between \<open>0\<close> and the limit whenever the
  clock has advanced past the last grant.
\<close>

lemma get_remaining_requests_bounds:
  assumes "rl_inv rl T H" and "T < now"
  shows "0 \<le> fst (get_remaining_requests rl now) \<and>
         fst (get_remaining_requests rl now) \<le> max_requests rl"
proof -
  let ?p = "period rl" and ?m = "max_requests rl"
  obtain q where q_eq: "prune_expired ?p now (requests rl) = q" by simp
  from assms(1) obtain pre where sH: "sorted H" and leT: "\<forall>x\<in>set H. x \<le> T"
    and Hpre: "H = pre @ requests rl" and ok: "window_ok ?m ?p H"
    unfolding rl_inv_def by blast
  obtain ds where ds: "requests rl = ds @ q"
    using prune_expired_split [of "requests rl" ?p now] q_eq by auto
  have sreq: "sorted (requests rl)" using sH Hpre by (simp add: sorted_append)
  have qge: "\<forall>x\<in>set q. now - ?p \<le> x"
    using prune_expired_ge [OF sreq] q_eq by blast
  have "\<forall>x\<in>set q. T - ?p < x \<and> x \<le> T"
    using qge assms(2) leT Hpre ds by fastforce
  moreover have "H = (pre @ ds) @ q" using Hpre ds by simp
  ultimately have "length q \<le> window_count ?p H T"
    using length_suffix_window by blast
  moreover have "int (window_count ?p H T) \<le> ?m" using ok by (simp add: window_ok_def)
  ultimately show ?thesis using q_eq by (simp add: get_remaining_requests_def)
qed

text \<open>
  \<open>get_reset_time\<close> lies between \<open>0\<close> and the period when no recorded
  grant is later than the clock.
\<close>

lemma get_reset_time_bounds:
  assumes "\<forall>x\<in>set (requests rl). x \<le> now" and "0 \<le> period rl"
  shows "0 \<le> get_reset_time rl now \<and> get_reset_time rl now \<le> period rl"
  using assms by (auto simp: get_reset_time_def split: list.split)

subsection \<open>Witnesses\<close>

theorem acquire_seq_window_witness:
  "\<exists>gs rl'. acquire_seq (new_rate_limiter (Some 2) (Some 10)) 0 [(1, 0), (1, 0), (1, 0)]
       = Inr (gs, rl') \<and> length gs = 3 \<and> window_ok 2 10 gs"
  using acquire_seq_window [of "new_rate_limiter (Some 2) (Some 10)" "[(1, 0), (1, 0), (1, 0)]" 0]
  by (simp add: new_rate_limiter_def eval_nat_numeral)

theorem get_remaining_requests_bounds_witness:
  "0 \<le> fst (get_remaining_requests \<lparr>max_requests = 2, period = 10, requests = [0]\<rparr> 1) \<and>
   fst (get_remaining_requests \<lparr>max_requests = 2, period = 10, requests = [0]\<rparr> 1) \<le> 2"
proof -
  have inv: "rl_inv \<lparr>max_requests = 2, period = 10, requests = [0]\<rparr> 0 [0]"
    by (auto simp: rl_inv_def window_ok_def window_count_def)
  show ?thesis
    using get_remaining_requests_bounds [OF inv, of 1] by simp
qed

theorem get_reset_time_bounds_witness:
  "0 \<le> get_reset_time \<lparr>max_requests = 2, period = 10, requests = [0]\<rparr> 1 \<and>
   get_reset_time \<lparr>max_requests = 2, period = 10, requests = [0]\<rparr> 1 \<le> 10"
  using get_reset_time_bounds [of "\<lparr>max_requests = 2, period = 10, requests = [0]\<rparr>" 1]
  by simp

end
