(* ===== verification/Registry.thy ===== *)
theory Registry
  imports Prelude
begin

text \<open>
  The interface between the crawler (\<open>src/network_scanner.py\<close>) and the registry
  client (\<open>src/api_client.py\<close>, class \<open>CompaniesHouseClient\<close>): the JSON objects
  the crawler reads, as records with one optional field per key it reads (\<open>None\<close>
  is an absent key, so \<open>d.get(k, default)\<close> is \<open>get_default\<close>); the exceptions a
  client call can raise, with the text \<open>str(e)\<close> the crawler inspects; and the
  four client operations the crawler calls, as a record of functions
  (\<open>registry\<close>).  The crawler's lemmas are stated over any \<open>registry\<close>; the
  client's own model discharges the facts they need about its operations.  The
  client caches profiles on disk, so repeated calls for one company return the same
  profile: a function is a faithful view of it.
\<close>

text \<open>\<open>get_company_profile(company_number)\<close>: the keys the crawler reads.\<close>

record profile =
  profile_name :: "string option"
  profile_status :: "string option"
  profile_type :: "string option"
  profile_date_of_creation :: "string option"

text \<open>A partial date of birth, \<open>{'month': m, 'year': y}\<close>.\<close>

record dob =
  dob_month :: "int option"
  dob_year :: "int option"

text \<open>An item of \<open>get_officers(company_number)\<close>.\<close>

record officer =
  officer_name :: "string option"
  officer_role :: "string option"
  appointed_on :: "string option"
  resigned_on :: "string option"
  date_of_birth :: "dob option"

text \<open>An item of \<open>search_officers(name)\<close>: \<open>title\<close> and \<open>links.self\<close>.\<close>

record search_hit =
  hit_title :: "string option"
  hit_links_self :: "string option"

text \<open>
  An item of \<open>get_officer_appointments(officer_id)\<close>: \<open>appointed_to.company_number\<close>,
  \<open>appointed_to.company_status\<close> and \<open>resigned_on\<close>.
\<close>

record appointment_item =
  ap_company_number :: "string option"
  ap_company_status :: "string option"
  ap_resigned_on :: "string option"

text \<open>
  The exceptions a client call raises: \<open>requests.HTTPError\<close> from
  \<open>raise_for_status\<close> (status, reason, url); another \<open>RequestException\<close>
  (connection error, timeout); the \<open>Exception\<close> raised when every attempt met an
  HTTP 429; \<open>ValueError\<close> from \<open>int(Retry-After)\<close> or a negative sleep;
  \<open>IndexError\<close> from the rate limiter's deque.
\<close>

datatype api_error =
    Http_error nat string string
  | Request_failed string
  | Retries_exhausted string
  | Value_error_exc string
  | Index_error_exc

text \<open>\<open>str(e)\<close>, as \<open>requests\<close> and the client format it.\<close>

fun error_str :: "api_error \<Rightarrow> string" where
  "error_str (Http_error code reason url) =
     show_nat code @ (if code < 500 then '' Client Error: '' else '' Server Error: '') @
     reason @ '' for url: '' @ url"
| "error_str (Request_failed msg) = msg"
| "error_str (Retries_exhausted url) = ''Failed to request '' @ url @ '' after 3 attempts''"
| "error_str (Value_error_exc msg) = msg"
| "error_str Index_error_exc = ''deque index out of range''"

text \<open>The crawler's test \<open>'404' in str(e)\<close>.\<close>

definition is_404_text :: "api_error \<Rightarrow> bool" where
  "is_404_text e = py_contains ''404'' (error_str e)"

text \<open>The client operations the crawler calls.\<close>

record registry =
  get_company_profile :: "string \<Rightarrow> api_error + profile"
  get_officers :: "string \<Rightarrow> api_error + officer list"
  search_officers :: "string \<Rightarrow> api_error + search_hit list"
  get_officer_appointments :: "string \<Rightarrow> api_error + appointment_item list"

text \<open>The effect trace: one entry per client call the crawler makes.\<close>

datatype api_call =
    Call_profile string
  | Call_officers string
  | Call_search string
  | Call_appointments string

end
