(* ===== verification/Scanner_Step.thy ===== *)
theory Scanner_Step
  imports Registry
begin

text \<open>
  One iteration of the crawl loop of \<open>NetworkScanner.scan_network\<close>
  (\<open>src/network_scanner.py\<close>, lines 61--216), split into one definition per phase
  of the loop body as the code nests them: the dequeue guard (\<open>loop_body\<close>), the
  expansion of one company (\<open>scan_company\<close>: profile, active filter, officers,
  recording the company), the recording of one officer (\<open>record_officer\<close>,
  \<open>add_director_appointment\<close>), the officer fan-out (\<open>expand_officer\<close>: the
  corporate-officer heuristic, the search, the best match, the appointment lookup)
  and the appointment filter that feeds the frontier (\<open>enqueue_appointments\<close>).
  The snapshot dictionary \<open>network\<close> is a record whose \<open>companies\<close> and
  \<open>directors\<close> dicts are association lists (insertion order is observable in the
  analyses); the instance sets \<open>scanned_companies\<close>, \<open>scanned_officers\<close> and the
  local \<open>companies_to_scan\<close> are fields of \<open>scan_state\<close>, with the trace of client
  calls and the error log the loop prints.  The lemmas give the frame of each phase
  (what it leaves unchanged, what it appends to the frontier), the facts the loop's
  termination proof needs, and the preservation of the snapshot's invariants.
\<close>

subsection \<open>The snapshot and the crawler state\<close>

record company_node =
  node_number :: string
  node_name :: "string option"
  node_status :: "string option"
  node_type :: "string option"
  node_incorporation_date :: "string option"
  node_depth :: nat
  node_officer_count :: nat

record appointment_rec =
  apt_company_number :: string
  apt_company_name :: "string option"
  apt_role :: string
  apt_appointed_on :: "string option"
  apt_resigned_on :: "string option"
  apt_date_of_birth :: "dob option"

record director =
  dir_name :: string
  dir_appointments :: "appointment_rec list"
  dir_company_count :: nat

record connection =
  conn_company_number :: string
  conn_company_name :: "string option"
  conn_director_id :: officer_key
  conn_director_name :: string
  conn_role :: string
  conn_depth :: nat

record statistics =
  total_companies :: nat
  total_directors :: nat
  total_connections :: nat
  depth_reached :: nat

record network =
  seed_companies :: "company_number list"
  net_max_depth :: int
  companies :: "(company_number \<times> company_node) list"
  directors :: "(officer_key \<times> director) list"
  connections :: "connection list"
  statistics :: statistics

text \<open>The parameters of \<open>scan_network\<close>.\<close>

record scan_config =
  max_depth :: int
  max_companies :: int
  active_only :: bool

text \<open>What the loop prints on a failure (the crawl goes on).\<close>

datatype log_entry =
    Company_error company_number string
  | Officer_search_error string string
  | Appointments_error string string

record scan_state =
  net :: network
  scanned_companies :: "company_number list"
  scanned_officers :: "officer_key list"
  to_scan :: "(company_number \<times> nat) list"
  calls :: "api_call list"
  log :: "log_entry list"

subsection \<open>Recording an officer (lines 106--145)\<close>

text \<open>\<open>officer_id = f"{officer_name}_{officer.get('appointed_on', '')}"\<close>\<close>

definition officer_key :: "officer \<Rightarrow> officer_key" where
  "officer_key ofc = get_default (officer_name ofc) [] @ ''_'' @ get_default (appointed_on ofc) []"

text \<open>
  Create the director entry if the key is new, append the appointment, and set
  \<open>company_count\<close> to the number of appointments.
\<close>

definition add_director_appointment ::
  "officer_key \<Rightarrow> string \<Rightarrow> appointment_rec \<Rightarrow> (officer_key \<times> director) list \<Rightarrow>
   (officer_key \<times> director) list" where
  "add_director_appointment oid name appt dirs =
     (let dr = (case map_of dirs oid of
                  None \<Rightarrow> \<lparr>dir_name = name, dir_appointments = [], dir_company_count = 0\<rparr>
                | Some dr \<Rightarrow> dr);
          apps = dir_appointments dr @ [appt]
      in AList.update oid (dr\<lparr>dir_appointments := apps, dir_company_count := length apps\<rparr>) dirs)"

definition record_officer ::
  "company_number \<Rightarrow> string option \<Rightarrow> nat \<Rightarrow> officer \<Rightarrow> network \<Rightarrow> network" where
  "record_officer c pname d ofc n =
     (let name = get_default (officer_name ofc) [];
          role = get_default (officer_role ofc) [];
          oid = officer_key ofc;
          appt = \<lparr>apt_company_number = c, apt_company_name = pname, apt_role = role,
                  apt_appointed_on = appointed_on ofc, apt_resigned_on = resigned_on ofc,
                  apt_date_of_birth = date_of_birth ofc\<rparr>
      in n\<lparr>directors := add_director_appointment oid name appt (directors n),
           connections := connections n @
             [\<lparr>conn_company_number = c, conn_company_name = pname, conn_director_id = oid,
               conn_director_name = name, conn_role = role, conn_depth = d\<rparr>]\<rparr>)"

subsection \<open>The officer fan-out (lines 148--213)\<close>

text \<open>The corporate-officer heuristic of line 151.\<close>

definition corporate_keywords :: "string list" where
  "corporate_keywords = [''LIMITED'', ''LTD'', ''PLC'', ''LLP'', ''COMPANY'', ''CORPORATE'']"

definition is_corporate_officer :: "string \<Rightarrow> bool" where
  "is_corporate_officer name = list_ex (\<lambda>kw. py_contains kw (py_upper name)) corporate_keywords"

text \<open>
  Lines 158--173: among the first five results the first whose title equals the
  name up to case, else the first result; its \<open>links.self\<close>, or \<open>''\<close>.  No results
  give \<open>''\<close> as well, which the code treats like an empty link.
\<close>

definition best_match_link :: "string \<Rightarrow> search_hit list \<Rightarrow> string" where
  "best_match_link name results =
     (case results of
        [] \<Rightarrow> []
      | r0 # _ \<Rightarrow>
          let best = (case find (\<lambda>m. py_upper (get_default (hit_title m) []) = py_upper name)
                                (take 5 results) of
                        Some m \<Rightarrow> m
                      | None \<Rightarrow> r0)
          in get_default (hit_links_self best) [])"

text \<open>
  Lines 185--202: enqueue \<open>(company, depth + 1)\<close> for each appointment whose company
  is set, not yet scanned, and (under \<open>active_only\<close>) neither resigned nor at an
  inactive company.
\<close>

fun enqueue_appointments ::
  "scan_config \<Rightarrow> nat \<Rightarrow> appointment_item list \<Rightarrow> scan_state \<Rightarrow> scan_state" where
  "enqueue_appointments cfg d [] st = st"
| "enqueue_appointments cfg d (a # as) st =
     enqueue_appointments cfg d as
       (case ap_company_number a of
          None \<Rightarrow> st
        | Some c \<Rightarrow>
            if c = [] \<or> c \<in> set (scanned_companies st) then st
            else if active_only cfg \<and> py_truthy (ap_resigned_on a) then st
            else if active_only cfg \<and> ap_company_status a \<noteq> Some ''active'' then st
            else st\<lparr>to_scan := to_scan st @ [(c, Suc d)]\<rparr>)"

definition mark_officer :: "officer_key \<Rightarrow> scan_state \<Rightarrow> scan_state" where
  "mark_officer oid st = st\<lparr>scanned_officers := List.insert oid (scanned_officers st)\<rparr>"

text \<open>\<open>if '404' not in str(e): print(...)\<close>\<close>

definition log_unless_404 :: "api_error \<Rightarrow> log_entry \<Rightarrow> scan_state \<Rightarrow> scan_state" where
  "log_unless_404 e entry st = (if is_404_text e then st else st\<lparr>log := log st @ [entry]\<rparr>)"

text \<open>
  Lines 149--213.  A failed search, or an \<open>IndexError\<close> from \<open>split('/')[-2]\<close>, is
  caught by the outer handler of line 210 before line 208 runs: the officer is
  then not marked as scanned.  A failed appointment lookup is caught by the inner
  handler of line 203, and the officer is marked.
\<close>

definition expand_officer ::
  "scan_config \<Rightarrow> registry \<Rightarrow> nat \<Rightarrow> string \<Rightarrow> officer_key \<Rightarrow> scan_state \<Rightarrow> scan_state" where
  "expand_officer cfg reg d name oid st =
     (if is_corporate_officer name then mark_officer oid st
      else
        let st1 = st\<lparr>calls := calls st @ [Call_search name]\<rparr> in
        case search_officers reg name of
          Inl e \<Rightarrow> log_unless_404 e (Officer_search_error name (error_str e)) st1
        | Inr results \<Rightarrow>
            let link = best_match_link name results in
            if link = [] then mark_officer oid st1
            else
              case py_index_neg2 (py_split (CHR ''/'') link) of
                Inl _ \<Rightarrow> st1\<lparr>log := log st1 @ [Officer_search_error name ''list index out of range'']\<rparr>
              | Inr api_id \<Rightarrow>
                  let st2 = st1\<lparr>calls := calls st1 @ [Call_appointments api_id]\<rparr> in
                  mark_officer oid
                    (case get_officer_appointments reg api_id of
                       Inl e \<Rightarrow> log_unless_404 e (Appointments_error name (error_str e)) st2
                     | Inr appts \<Rightarrow> enqueue_appointments cfg d appts st2))"

text \<open>Lines 105--213 for one officer, and the \<open>for\<close> loop over the officers.\<close>

definition process_officer ::
  "scan_config \<Rightarrow> registry \<Rightarrow> company_number \<Rightarrow> string option \<Rightarrow> nat \<Rightarrow> officer \<Rightarrow>
   scan_state \<Rightarrow> scan_state" where
  "process_officer cfg reg c pname d ofc st =
     (let st1 = st\<lparr>net := record_officer c pname d ofc (net st)\<rparr>;
          oid = officer_key ofc
      in if int d < max_depth cfg \<and> oid \<notin> set (scanned_officers st1)
         then expand_officer cfg reg d (get_default (officer_name ofc) []) oid st1
         else st1)"

primrec process_officers ::
  "scan_config \<Rightarrow> registry \<Rightarrow> company_number \<Rightarrow> string option \<Rightarrow> nat \<Rightarrow> officer list \<Rightarrow>
   scan_state \<Rightarrow> scan_state" where
  "process_officers cfg reg c pname d [] st = st"
| "process_officers cfg reg c pname d (ofc # os) st =
     process_officers cfg reg c pname d os (process_officer cfg reg c pname d ofc st)"

subsection \<open>Expanding one company (lines 70--216)\<close>

definition company_record :: "company_number \<Rightarrow> profile \<Rightarrow> nat \<Rightarrow> nat \<Rightarrow> company_node" where
  "company_record c prof d n =
     \<lparr>node_number = c, node_name = profile_name prof, node_status = profile_status prof,
      node_type = profile_type prof, node_incorporation_date = profile_date_of_creation prof,
      node_depth = d, node_officer_count = n\<rparr>"

definition active_officers :: "scan_config \<Rightarrow> officer list \<Rightarrow> officer list" where
  "active_officers cfg os = (if active_only cfg then filter (\<lambda>ofc. \<not> py_truthy (resigned_on ofc)) os else os)"

definition record_company :: "company_number \<Rightarrow> company_node \<Rightarrow> nat \<Rightarrow> network \<Rightarrow> network" where
  "record_company c node d n =
     n\<lparr>companies := AList.update c node (companies n),
       statistics := (statistics n)\<lparr>depth_reached := max (depth_reached (statistics n)) d\<rparr>\<rparr>"

definition scan_company ::
  "scan_config \<Rightarrow> registry \<Rightarrow> company_number \<Rightarrow> nat \<Rightarrow> scan_state \<Rightarrow> scan_state" where
  "scan_company cfg reg c d st =
     (let st1 = st\<lparr>calls := calls st @ [Call_profile c]\<rparr> in
      case get_company_profile reg c of
        Inl e \<Rightarrow> st1\<lparr>log := log st1 @ [Company_error c (error_str e)]\<rparr>
      | Inr prof \<Rightarrow>
          if active_only cfg \<and> profile_status prof \<noteq> Some ''active'' then st1
          else
            let st2 = st1\<lparr>calls := calls st1 @ [Call_officers c]\<rparr> in
            case get_officers reg c of
              Inl e \<Rightarrow> st2\<lparr>log := log st2 @ [Company_error c (error_str e)]\<rparr>
            | Inr os \<Rightarrow>
                let officers = active_officers cfg os;
                    st3 = st2\<lparr>net := record_company c (company_record c prof d (length officers)) d
                                          (net st2),
                              scanned_companies := List.insert c (scanned_companies st2)\<rparr>
                in process_officers cfg reg c (profile_name prof) d officers st3)"

subsection \<open>The loop test and body (lines 61--66)\<close>

definition loop_cond :: "scan_config \<Rightarrow> scan_state \<Rightarrow> bool" where
  "loop_cond cfg st \<longleftrightarrow> to_scan st \<noteq> [] \<and> int (length (scanned_companies st)) < max_companies cfg"

definition loop_body :: "scan_config \<Rightarrow> registry \<Rightarrow> scan_state \<Rightarrow> scan_state" where
  "loop_body cfg reg st =
     (case to_scan st of
        [] \<Rightarrow> st
      | (c, d) # rest \<Rightarrow>
          let st' = st\<lparr>to_scan := rest\<rparr> in
          if c \<in> set (scanned_companies st) \<or> max_depth cfg < int d then st'
          else scan_company cfg reg c d st')"

text \<open>
  For the proofs: a phase extends the frontier \<open>st \<leadsto> st'\<close> by appending items
  that all satisfy \<open>P\<close>, never removing or reordering.
\<close>

definition appends_frontier ::
  "(company_number \<times> nat \<Rightarrow> bool) \<Rightarrow> scan_state \<Rightarrow> scan_state \<Rightarrow> bool" where
  "appends_frontier P st st' \<longleftrightarrow> (\<exists>xs. to_scan st' = to_scan st @ xs \<and> (\<forall>x\<in>set xs. P x))"

text \<open>
  What the appointment filter appends: items one level deeper, naming a company
  that is set and not yet scanned and, under \<open>active_only\<close>, an appointment of the
  list at an active company that the officer has not resigned from.
\<close>

definition enqueued_from ::
  "scan_config \<Rightarrow> nat \<Rightarrow> appointment_item list \<Rightarrow> company_number list \<Rightarrow>
   company_number \<times> nat \<Rightarrow> bool" where
  "enqueued_from cfg d as scanned x \<longleftrightarrow>
     snd x = Suc d \<and> fst x \<noteq> [] \<and> fst x \<notin> set scanned \<and>
     (active_only cfg \<longrightarrow>
        (\<exists>a\<in>set as. ap_company_number a = Some (fst x) \<and>
                    ap_company_status a = Some ''active'' \<and> \<not> py_truthy (ap_resigned_on a)))"

text \<open>
  A frontier item one level down was named, under \<open>active_only\<close>, by an appointment
  the registry returned, at an active company and not resigned from.
\<close>

definition from_registry :: "scan_config \<Rightarrow> registry \<Rightarrow> company_number \<times> nat \<Rightarrow> bool" where
  "from_registry cfg reg x \<longleftrightarrow>
     (active_only cfg \<longrightarrow>
        (\<exists>i as a. get_officer_appointments reg i = Inr as \<and> a \<in> set as \<and>
                  ap_company_number a = Some (fst x) \<and> ap_company_status a = Some ''active'' \<and>
                  \<not> py_truthy (ap_resigned_on a)))"

text \<open>
  The client calls an officer's fan-out may make: a search for a name that is not
  a corporate name, and appointment lookups.  A phase extends the call trace by
  calls satisfying \<open>P\<close>.
\<close>

definition officer_call :: "api_call \<Rightarrow> bool" where
  "officer_call x =
     (case x of Call_search n \<Rightarrow> \<not> is_corporate_officer n | Call_appointments i \<Rightarrow> True
              | Call_profile c \<Rightarrow> False | Call_officers c \<Rightarrow> False)"

definition appends_calls :: "(api_call \<Rightarrow> bool) \<Rightarrow> scan_state \<Rightarrow> scan_state \<Rightarrow> bool" where
  "appends_calls P st st' \<longleftrightarrow> (\<exists>new. calls st' = calls st @ new \<and> (\<forall>x\<in>set new. P x))"

subsection \<open>Frames of the phases\<close>

lemma appends_frontier_refl: "to_scan st' = to_scan st \<Longrightarrow> appends_frontier P st st'"
  unfolding appends_frontier_def by (intro exI [of _ "[]"]) simp

lemma appends_frontier_trans:
  "appends_frontier P s1 s2 \<Longrightarrow> appends_frontier P s2 s3 \<Longrightarrow> appends_frontier P s1 s3"
  unfolding appends_frontier_def by (metis Un_iff append.assoc set_append)

lemma appends_frontier_mono:
  "appends_frontier P s1 s2 \<Longrightarrow> (\<And>x. P x \<Longrightarrow> Q x) \<Longrightarrow> appends_frontier Q s1 s2"
  unfolding appends_frontier_def by blast

lemma appends_frontier_cong:
  "to_scan s1' = to_scan s1 \<Longrightarrow> to_scan s2' = to_scan s2 \<Longrightarrow>
   appends_frontier P s1 s2 \<Longrightarrow> appends_frontier P s1' s2'"
  unfolding appends_frontier_def by simp

lemma enqueue_appointments_frame:
  "net (enqueue_appointments cfg d as st) = net st \<and>
   scanned_companies (enqueue_appointments cfg d as st) = scanned_companies st \<and>
   scanned_officers (enqueue_appointments cfg d as st) = scanned_officers st \<and>
   calls (enqueue_appointments cfg d as st) = calls st \<and>
   log (enqueue_appointments cfg d as st) = log st"
  by (induction as arbitrary: st) (auto split: option.split)

lemma enqueued_from_mono:
  "enqueued_from cfg d as sc x \<Longrightarrow> set as \<subseteq> set bs \<Longrightarrow> enqueued_from cfg d bs sc x"
  unfolding enqueued_from_def by blast

lemma enqueue_appointments_appends:
  "appends_frontier (enqueued_from cfg d as (scanned_companies st)) st
     (enqueue_appointments cfg d as st)"
proof (induction as arbitrary: st)
  case Nil
  then show ?case by (simp add: appends_frontier_refl)
next
  case (Cons a as)
  define st1 where "st1 =
    (case ap_company_number a of
       None \<Rightarrow> st
     | Some c \<Rightarrow>
         if c = [] \<or> c \<in> set (scanned_companies st) then st
         else if active_only cfg \<and> py_truthy (ap_resigned_on a) then st
         else if active_only cfg \<and> ap_company_status a \<noteq> Some ''active'' then st
         else st\<lparr>to_scan := to_scan st @ [(c, Suc d)]\<rparr>)"
  have sc1: "scanned_companies st1 = scanned_companies st"
    by (simp add: st1_def split: option.split)
  have first: "appends_frontier (enqueued_from cfg d (a # as) (scanned_companies st)) st st1"
    unfolding st1_def appends_frontier_def enqueued_from_def
    by (auto split: option.split)
  have "appends_frontier (enqueued_from cfg d as (scanned_companies st1)) st1
          (enqueue_appointments cfg d as st1)"
    by (rule Cons.IH)
  then have "appends_frontier (enqueued_from cfg d as (scanned_companies st)) st1
               (enqueue_appointments cfg d as st1)"
    using sc1 by simp
  then have "appends_frontier (enqueued_from cfg d (a # as) (scanned_companies st)) st1
               (enqueue_appointments cfg d as st1)"
    by (rule appends_frontier_mono) (rule enqueued_from_mono, auto)
  with first show ?case
    by (simp add: st1_def appends_frontier_trans)
qed

lemma mark_officer_simps [simp]:
  "net (mark_officer oid st) = net st" "scanned_companies (mark_officer oid st) = scanned_companies st"
  "to_scan (mark_officer oid st) = to_scan st" "calls (mark_officer oid st) = calls st"
  "log (mark_officer oid st) = log st"
  "scanned_officers (mark_officer oid st) = List.insert oid (scanned_officers st)"
  by (simp_all add: mark_officer_def)

lemma appends_frontier_mark_officer [simp]:
  "appends_frontier P st (mark_officer oid st') = appends_frontier P st st'"
  by (simp add: appends_frontier_def)

lemma log_unless_404_simps [simp]:
  "net (log_unless_404 e l st) = net st" "scanned_companies (log_unless_404 e l st) = scanned_companies st"
  "to_scan (log_unless_404 e l st) = to_scan st" "calls (log_unless_404 e l st) = calls st"
  "scanned_officers (log_unless_404 e l st) = scanned_officers st"
  by (simp_all add: log_unless_404_def)

lemma expand_officer_frame:
  "net (expand_officer cfg reg d name oid st) = net st \<and>
   scanned_companies (expand_officer cfg reg d name oid st) = scanned_companies st"
  by (auto simp: expand_officer_def Let_def enqueue_appointments_frame split: sum.split)

lemma expand_officer_appends:
  "appends_frontier
     (\<lambda>x. snd x = Suc d \<and> fst x \<notin> set (scanned_companies st) \<and> from_registry cfg reg x) st
     (expand_officer cfg reg d name oid st)"
proof -
  let ?P = "\<lambda>x. snd x = Suc d \<and> fst x \<notin> set (scanned_companies st) \<and> from_registry cfg reg x"
  have enq: "appends_frontier ?P st (enqueue_appointments cfg d as st')"
    if "scanned_companies st' = scanned_companies st" "to_scan st' = to_scan st"
      and got: "get_officer_appointments reg i = Inr as" for st' as i
  proof -
    have "appends_frontier ?P st' (enqueue_appointments cfg d as st')"
      using enqueue_appointments_appends [of cfg d as st']
    proof (rule appends_frontier_mono)
      fix x
      assume "enqueued_from cfg d as (scanned_companies st') x"
      then show "?P x"
        using that(1) got by (auto simp: enqueued_from_def from_registry_def)
    qed
    then show ?thesis
      by (rule appends_frontier_cong [rotated 2]) (simp_all add: that(2))
  qed
  show ?thesis
    unfolding expand_officer_def Let_def
    by (auto split: sum.split intro: appends_frontier_refl enq)
qed

lemma record_officer_frame:
  "companies (record_officer c pn d ofc n) = companies n \<and>
   statistics (record_officer c pn d ofc n) = statistics n \<and>
   length (connections (record_officer c pn d ofc n)) = Suc (length (connections n))"
  by (simp add: record_officer_def Let_def)

lemma process_officer_frame:
  "scanned_companies (process_officer cfg reg c pn d ofc st) = scanned_companies st \<and>
   companies (net (process_officer cfg reg c pn d ofc st)) = companies (net st) \<and>
   statistics (net (process_officer cfg reg c pn d ofc st)) = statistics (net st) \<and>
   length (connections (net (process_officer cfg reg c pn d ofc st))) =
     Suc (length (connections (net st)))"
  by (simp add: process_officer_def Let_def expand_officer_frame record_officer_frame)

text \<open>The frontier grows only below the depth cap: an officer is expanded only when \<open>depth < max_depth\<close>.\<close>

lemma process_officer_appends:
  "appends_frontier
     (\<lambda>x. snd x = Suc d \<and> int d < max_depth cfg \<and> fst x \<notin> set (scanned_companies st) \<and>
        from_registry cfg reg x) st
     (process_officer cfg reg c pn d ofc st)"
proof (cases "int d < max_depth cfg \<and> officer_key ofc \<notin> set (scanned_officers st)")
  case True
  let ?st1 = "st\<lparr>net := record_officer c pn d ofc (net st)\<rparr>"
  have "appends_frontier (\<lambda>x. snd x = Suc d \<and> fst x \<notin> set (scanned_companies ?st1) \<and>
                                 from_registry cfg reg x) ?st1
          (expand_officer cfg reg d (get_default (officer_name ofc) []) (officer_key ofc) ?st1)"
    by (rule expand_officer_appends)
  then have "appends_frontier
      (\<lambda>x. snd x = Suc d \<and> int d < max_depth cfg \<and> fst x \<notin> set (scanned_companies st) \<and>
        from_registry cfg reg x) ?st1
      (expand_officer cfg reg d (get_default (officer_name ofc) []) (officer_key ofc) ?st1)"
    using True by (auto elim: appends_frontier_mono)
  then show ?thesis
    using True by (simp add: process_officer_def appends_frontier_def)
next
  case False
  then show ?thesis by (auto simp: process_officer_def intro: appends_frontier_refl)
qed

lemma process_officers_frame:
  "scanned_companies (process_officers cfg reg c pn d os st) = scanned_companies st \<and>
   companies (net (process_officers cfg reg c pn d os st)) = companies (net st) \<and>
   statistics (net (process_officers cfg reg c pn d os st)) = statistics (net st) \<and>
   length (connections (net (process_officers cfg reg c pn d os st))) =
     length (connections (net st)) + length os"
  by (induction os arbitrary: st) (auto simp: process_officer_frame)

lemma process_officers_appends:
  "appends_frontier
     (\<lambda>x. snd x = Suc d \<and> int d < max_depth cfg \<and> fst x \<notin> set (scanned_companies st) \<and>
        from_registry cfg reg x) st
     (process_officers cfg reg c pn d os st)"
proof (induction os arbitrary: st)
  case Nil
  then show ?case by (simp add: appends_frontier_refl)
next
  case (Cons ofc os)
  let ?st1 = "process_officer cfg reg c pn d ofc st"
  have "scanned_companies ?st1 = scanned_companies st"
    by (simp add: process_officer_frame)
  with Cons.IH [of ?st1] process_officer_appends [of d cfg st reg c pn ofc] show ?case
    by (auto intro: appends_frontier_trans)
qed

text \<open>
  The two outcomes of expanding a company: nothing is recorded and the frontier is
  unchanged (a failed call, or an inactive company under \<open>active_only\<close>); or the
  company is recorded at the depth it was dequeued with, marked as scanned, one
  connection per retained officer is added, and the frontier grows by unscanned
  companies one level deeper, only below the depth cap.
\<close>

lemma scan_company_shape:
  assumes "st' = scan_company cfg reg c d st"
  shows "(net st' = net st \<and> scanned_companies st' = scanned_companies st \<and> to_scan st' = to_scan st) \<or>
         (\<exists>node. node_number node = c \<and> node_depth node = d \<and>
            (active_only cfg \<longrightarrow> node_status node = Some ''active'') \<and>
            companies (net st') = AList.update c node (companies (net st)) \<and>
            depth_reached (statistics (net st')) = max (depth_reached (statistics (net st))) d \<and>
            length (connections (net st')) = length (connections (net st)) + node_officer_count node \<and>
            scanned_companies st' = List.insert c (scanned_companies st) \<and>
            appends_frontier (\<lambda>x. snd x = Suc d \<and> int d < max_depth cfg \<and>
                                   fst x \<notin> set (List.insert c (scanned_companies st)) \<and> from_registry cfg reg x) st st')"
proof (cases "get_company_profile reg c")
  case (Inl e)
  with assms show ?thesis by (simp add: scan_company_def)
next
  case (Inr prof)
  show ?thesis
  proof (cases "active_only cfg \<and> profile_status prof \<noteq> Some ''active''")
    case True
    with Inr assms show ?thesis by (simp add: scan_company_def)
  next
    case act: False
    show ?thesis
    proof (cases "get_officers reg c")
      case (Inl e)
      with Inr act assms show ?thesis by (simp add: scan_company_def Let_def)
    next
      case os: (Inr os)
      let ?offs = "active_officers cfg os"
      let ?node = "company_record c prof d (length ?offs)"
      let ?st3 = "st\<lparr>calls := calls st @ [Call_profile c] @ [Call_officers c],
                     net := record_company c ?node d (net st),
                     scanned_companies := List.insert c (scanned_companies st)\<rparr>"
      have st': "st' = process_officers cfg reg c (profile_name prof) d ?offs ?st3"
        using assms Inr act os by (simp add: scan_company_def Let_def)
      have "appends_frontier (\<lambda>x. snd x = Suc d \<and> int d < max_depth cfg \<and>
              fst x \<notin> set (List.insert c (scanned_companies st)) \<and> from_registry cfg reg x) ?st3 st'"
        using process_officers_appends [of d cfg ?st3 reg c "profile_name prof" ?offs] st'
        by simp
      then have "appends_frontier (\<lambda>x. snd x = Suc d \<and> int d < max_depth cfg \<and>
              fst x \<notin> set (List.insert c (scanned_companies st)) \<and> from_registry cfg reg x) st st'"
        by (rule appends_frontier_cong [rotated 2]) simp_all
      then show ?thesis
        using st' act by (intro disjI2 exI [of _ ?node])
          (simp add: process_officers_frame company_record_def record_company_def)
    qed
  qed
qed

subsection \<open>The client calls of the phases\<close>

lemma appends_calls_refl: "calls st' = calls st \<Longrightarrow> appends_calls P st st'"
  unfolding appends_calls_def by (intro exI [of _ "[]"]) simp

lemma appends_calls_intro:
  "calls st' = calls st @ new \<Longrightarrow> \<forall>x\<in>set new. P x \<Longrightarrow> appends_calls P st st'"
  unfolding appends_calls_def by blast

lemma appends_calls_trans:
  "appends_calls P s1 s2 \<Longrightarrow> appends_calls P s2 s3 \<Longrightarrow> appends_calls P s1 s3"
  unfolding appends_calls_def by (metis Un_iff append.assoc set_append)

lemma appends_calls_cong:
  "calls s1' = calls s1 \<Longrightarrow> calls s2' = calls s2 \<Longrightarrow>
   appends_calls P s1 s2 \<Longrightarrow> appends_calls P s1' s2'"
  unfolding appends_calls_def by simp

text \<open>The fan-out searches only non-corporate names and otherwise only looks up appointments.\<close>

lemma expand_officer_calls: "appends_calls officer_call st (expand_officer cfg reg d name oid st)"
  unfolding expand_officer_def Let_def appends_calls_def
  by (auto split: sum.split simp: log_unless_404_def enqueue_appointments_frame officer_call_def)

lemma process_officer_calls: "appends_calls officer_call st (process_officer cfg reg c pn d ofc st)"
proof -
  let ?st1 = "st\<lparr>net := record_officer c pn d ofc (net st)\<rparr>"
  have "appends_calls officer_call ?st1
          (expand_officer cfg reg d (get_default (officer_name ofc) []) (officer_key ofc) ?st1)"
    by (rule expand_officer_calls)
  then show ?thesis
    by (auto simp: process_officer_def Let_def appends_calls_def)
qed

lemma process_officers_calls: "appends_calls officer_call st (process_officers cfg reg c pn d os st)"
  by (induction os arbitrary: st)
     (auto intro: appends_calls_refl appends_calls_trans process_officer_calls)

text \<open>
  The calls of expanding a company: the profile; then, unless the company is
  skipped as inactive, its officers; when that call succeeds the company is marked
  as scanned and only officer searches and appointment lookups follow.
\<close>

lemma scan_company_calls:
  assumes "st' = scan_company cfg reg c d st"
  shows "(calls st' = calls st @ [Call_profile c] \<and> scanned_companies st' = scanned_companies st) \<or>
         (\<exists>e. get_officers reg c = Inl e \<and> calls st' = calls st @ [Call_profile c, Call_officers c] \<and>
              scanned_companies st' = scanned_companies st) \<or>
         (scanned_companies st' = List.insert c (scanned_companies st) \<and>
          appends_calls officer_call (st\<lparr>calls := calls st @ [Call_profile c, Call_officers c]\<rparr>) st')"
proof (cases "get_company_profile reg c")
  case (Inl e)
  with assms show ?thesis by (simp add: scan_company_def)
next
  case (Inr prof)
  show ?thesis
  proof (cases "active_only cfg \<and> profile_status prof \<noteq> Some ''active''")
    case True
    with Inr assms show ?thesis by (simp add: scan_company_def)
  next
    case act: False
    show ?thesis
    proof (cases "get_officers reg c")
      case (Inl e)
      with Inr act assms show ?thesis by (simp add: scan_company_def Let_def)
    next
      case os: (Inr os)
      let ?offs = "active_officers cfg os"
      let ?node = "company_record c prof d (length ?offs)"
      let ?st3 = "st\<lparr>calls := calls st @ [Call_profile c] @ [Call_officers c],
                     net := record_company c ?node d (net st),
                     scanned_companies := List.insert c (scanned_companies st)\<rparr>"
      have st': "st' = process_officers cfg reg c (profile_name prof) d ?offs ?st3"
        using assms Inr act os by (simp add: scan_company_def Let_def)
      have "appends_calls officer_call ?st3 st'"
        using st' by (simp add: process_officers_calls)
      then have "appends_calls officer_call (st\<lparr>calls := calls st @ [Call_profile c, Call_officers c]\<rparr>) st'"
        by (rule appends_calls_cong [rotated 2]) simp_all
      then show ?thesis
        using st' by (simp add: process_officers_frame)
    qed
  qed
qed

subsection \<open>The loop body\<close>

lemma loop_body_skip:
  "to_scan st = (c, d) # rest \<Longrightarrow> c \<in> set (scanned_companies st) \<or> max_depth cfg < int d \<Longrightarrow>
   loop_body cfg reg st = st\<lparr>to_scan := rest\<rparr>"
  by (auto simp: loop_body_def)

lemma loop_body_scan:
  "to_scan st = (c, d) # rest \<Longrightarrow> c \<notin> set (scanned_companies st) \<Longrightarrow> int d \<le> max_depth cfg \<Longrightarrow>
   loop_body cfg reg st = scan_company cfg reg c d (st\<lparr>to_scan := rest\<rparr>)"
  by (auto simp: loop_body_def)

text \<open>
  Termination of the loop: an iteration either shortens the frontier without
  scanning, or scans a new company, which brings the scanned count closer to
  \<open>max_companies\<close> (the test of the \<open>while\<close>).
\<close>

lemma loop_body_decreases:
  assumes "loop_cond cfg st"
  shows "(loop_body cfg reg st, st) \<in>
           measures [\<lambda>s. nat (max_companies cfg - int (length (scanned_companies s))),
                     \<lambda>s. length (to_scan s)]"
proof -
  from assms obtain c d rest where q: "to_scan st = (c, d) # rest"
    and lt: "int (length (scanned_companies st)) < max_companies cfg"
    by (auto simp: loop_cond_def neq_Nil_conv)
  show ?thesis
  proof (cases "c \<in> set (scanned_companies st) \<or> max_depth cfg < int d")
    case True
    then show ?thesis using q by (simp add: loop_body_skip)
  next
    case False
    let ?st' = "st\<lparr>to_scan := rest\<rparr>"
    have body: "loop_body cfg reg st = scan_company cfg reg c d ?st'"
      using False q by (simp add: loop_body_scan)
    from scan_company_shape [OF refl, of cfg reg c d ?st']
    consider "scanned_companies (scan_company cfg reg c d ?st') = scanned_companies st"
        "to_scan (scan_company cfg reg c d ?st') = rest"
      | "scanned_companies (scan_company cfg reg c d ?st') = List.insert c (scanned_companies st)"
      by auto
    then show ?thesis
    proof cases
      case 1
      then show ?thesis using body q by simp
    next
      case 2
      then show ?thesis using body False lt by simp
    qed
  qed
qed

text \<open>
  Under \<open>active_only\<close>, a company whose profile is not active is skipped (lines
  69--78) before \<open>scanned_companies.add\<close>: the step only records the profile request.
\<close>

lemma loop_body_inactive:
  assumes "active_only cfg" "get_company_profile reg c = Inr prof" "profile_status prof \<noteq> Some ''active''"
    "c \<notin> set (scanned_companies st)" "int d \<le> max_depth cfg" "to_scan st = (c, d) # rest"
  shows "loop_body cfg reg st = st\<lparr>to_scan := rest, calls := calls st @ [Call_profile c]\<rparr>"
  using assms by (simp add: loop_body_def scan_company_def)

text \<open>
  Claim C10.  Since an inactive company is not marked as visited, every entry of it
  in the frontier fetches its profile again: \<open>n\<close> queued entries of an inactive
  company cost \<open>n\<close> profile requests and leave the visited set unchanged.
\<close>

theorem crawl_inactive_refetched:
  assumes "active_only cfg" "get_company_profile reg c = Inr prof" "profile_status prof \<noteq> Some ''active''"
    "c \<notin> set (scanned_companies st)" "\<forall>d\<in>set ds. int d \<le> max_depth cfg"
    "to_scan st = map (\<lambda>d. (c, d)) ds @ rest"
  shows "(loop_body cfg reg ^^ length ds) st =
           st\<lparr>to_scan := rest, calls := calls st @ replicate (length ds) (Call_profile c)\<rparr>"
  using assms(4-6)
proof (induction ds arbitrary: st)
  case Nil
  then show ?case by simp
next
  case (Cons d ds)
  let ?st1 = "st\<lparr>to_scan := map (\<lambda>d. (c, d)) ds @ rest, calls := calls st @ [Call_profile c]\<rparr>"
  have "loop_body cfg reg st = ?st1"
    using Cons.prems by (intro loop_body_inactive [OF assms(1-3)]) simp_all
  moreover have "(loop_body cfg reg ^^ length ds) ?st1 =
      ?st1\<lparr>to_scan := rest, calls := calls ?st1 @ replicate (length ds) (Call_profile c)\<rparr>"
    using Cons.prems by (intro Cons.IH) simp_all
  moreover have "(loop_body cfg reg ^^ length (d # ds)) st = (loop_body cfg reg ^^ length ds) (loop_body cfg reg st)"
    by (simp only: length_Cons funpow_Suc_right comp_apply)
  ultimately show ?case by simp
qed

end
