(* ===== verification/Network_Scanner.thy ===== *)
theory Network_Scanner
  imports Scanner_Step
begin

text \<open>
  \<open>NetworkScanner.scan_network\<close> (\<open>src/network_scanner.py\<close>, lines 23--223): the
  initial snapshot and frontier (lines 40--59), the \<open>while\<close> loop (lines 61--216) as
  a terminating \<open>function\<close> over the loop body of \<open>Scanner_Step\<close>, and the final
  statistics (lines 218--223).  The loop terminates for every registry: each
  iteration either shortens the frontier or scans a new company, and the scanned
  count is capped by \<open>max_companies\<close> (\<open>loop_body_decreases\<close>).  The states the
  loop passes through are the inductive set \<open>scan_reachable\<close>; the invariants
  \<open>crawl_inv\<close> (visited set and snapshot agree, size and depth caps, the running
  statistics) and \<open>bfs_inv\<close> (breadth-first shape of the frontier) hold in all of
  them by rule induction, and the theorems about the returned snapshot follow.
  \<open>seeds_inv\<close> (every seed is still queued at depth 0 or has been requested) gives
  the liveness of the crawl: with the loop's exit condition, every seed has its
  profile requested unless the company budget ran out.
\<close>

definition init_network :: "company_number list \<Rightarrow> int \<Rightarrow> network" where
  "init_network seeds md =
     \<lparr>seed_companies = seeds, net_max_depth = md, companies = [], directors = [],
      connections = [],
      statistics = \<lparr>total_companies = 0, total_directors = 0, total_connections = 0,
                    depth_reached = 0\<rparr>\<rparr>"

definition init_state :: "scan_config \<Rightarrow> company_number list \<Rightarrow> scan_state" where
  "init_state cfg seeds =
     \<lparr>net = init_network seeds (max_depth cfg), scanned_companies = [], scanned_officers = [],
      to_scan = map (\<lambda>c. (c, 0)) seeds, calls = [], log = []\<rparr>"

function scan_loop :: "scan_config \<Rightarrow> registry \<Rightarrow> scan_state \<Rightarrow> scan_state" where
  "scan_loop cfg reg st = (if loop_cond cfg st then scan_loop cfg reg (loop_body cfg reg st) else st)"
  by pat_completeness auto
termination
  by (relation "measures [\<lambda>(cfg, reg, st). nat (max_companies cfg - int (length (scanned_companies st))),
                          \<lambda>(cfg, reg, st). length (to_scan st)]")
     (use loop_body_decreases in auto)

declare scan_loop.simps [simp del]

definition finalize_statistics :: "network \<Rightarrow> network" where
  "finalize_statistics n =
     n\<lparr>statistics := (statistics n)\<lparr>total_companies := length (companies n),
                                     total_directors := length (directors n),
                                     total_connections := length (connections n)\<rparr>\<rparr>"

text \<open>The scanner instance after the call (its visited sets), and the returned snapshot.\<close>

definition scan_run :: "scan_config \<Rightarrow> registry \<Rightarrow> company_number list \<Rightarrow> scan_state" where
  "scan_run cfg reg seeds = scan_loop cfg reg (init_state cfg seeds)"

definition scan_network :: "scan_config \<Rightarrow> registry \<Rightarrow> company_number list \<Rightarrow> network" where
  "scan_network cfg reg seeds = finalize_statistics (net (scan_run cfg reg seeds))"

inductive scan_reachable :: "scan_config \<Rightarrow> registry \<Rightarrow> company_number list \<Rightarrow> scan_state \<Rightarrow> bool"
  for cfg reg seeds where
  start: "scan_reachable cfg reg seeds (init_state cfg seeds)"
| step: "scan_reachable cfg reg seeds st \<Longrightarrow> loop_cond cfg st \<Longrightarrow>
         scan_reachable cfg reg seeds (loop_body cfg reg st)"

text \<open>
  The crawl invariant: the visited set has no duplicates and names exactly the
  recorded companies, each recorded once under its own number; the scanned count
  stays within \<open>max_companies\<close>; no company is recorded deeper than \<open>max_depth\<close>; one
  connection per recorded officer; \<open>depth_reached\<close> is the largest recorded depth.
\<close>

definition depths :: "(company_number \<times> company_node) list \<Rightarrow> nat list" where
  "depths cs = map (\<lambda>x. node_depth (snd x)) cs"

definition crawl_inv :: "scan_config \<Rightarrow> scan_state \<Rightarrow> bool" where
  "crawl_inv cfg st \<longleftrightarrow>
     distinct (scanned_companies st) \<and>
     distinct (map fst (companies (net st))) \<and>
     set (map fst (companies (net st))) = set (scanned_companies st) \<and>
     int (length (scanned_companies st)) \<le> max 0 (max_companies cfg) \<and>
     (\<forall>x\<in>set (companies (net st)). node_number (snd x) = fst x \<and>
                                      int (node_depth (snd x)) \<le> max_depth cfg) \<and>
     length (connections (net st)) = sum_list (map (\<lambda>x. node_officer_count (snd x)) (companies (net st))) \<and>
     depth_reached (statistics (net st)) = fold max (depths (companies (net st))) 0"

text \<open>
  The breadth-first invariant: there is a current level \<open>L\<close> such that the frontier
  is sorted by depth with all depths in \<open>{L, L + 1}\<close>, every recorded company lies
  at a depth at most \<open>L\<close>, and companies were recorded in order of depth.
\<close>

definition bfs_inv :: "scan_state \<Rightarrow> bool" where
  "bfs_inv st \<longleftrightarrow>
     (\<exists>L. sorted (map snd (to_scan st)) \<and>
          (\<forall>x\<in>set (to_scan st). L \<le> snd x \<and> snd x \<le> Suc L) \<and>
          (\<forall>x\<in>set (depths (companies (net st))). x \<le> L) \<and>
          sorted (depths (companies (net st))))"

text \<open>
  The call invariant: no search is ever made for a corporate name, and a company
  whose officer list the registry returns has had that list fetched exactly once
  if it is in the visited set, and never otherwise.
\<close>

definition search_ok :: "api_call \<Rightarrow> bool" where
  "search_ok x = (case x of Call_search n \<Rightarrow> \<not> is_corporate_officer n | _ \<Rightarrow> True)"

definition calls_inv :: "registry \<Rightarrow> scan_state \<Rightarrow> bool" where
  "calls_inv reg st \<longleftrightarrow>
     (\<forall>x\<in>set (calls st). search_ok x) \<and>
     (\<forall>c os. get_officers reg c = Inr os \<longrightarrow>
        count_list (calls st) (Call_officers c) = (if c \<in> set (scanned_companies st) then 1 else 0))"

text \<open>
  Provenance: a depth-0 item is a seed; a deeper item was named by an appointment
  the registry returned (under \<open>active_only\<close>, an active, unresigned one).  Every
  frontier item and every recorded company has such an origin, and under
  \<open>active_only\<close> every recorded company had an active profile.
\<close>

definition origin_ok ::
  "scan_config \<Rightarrow> registry \<Rightarrow> company_number list \<Rightarrow> company_number \<times> nat \<Rightarrow> bool" where
  "origin_ok cfg reg seeds x \<longleftrightarrow> (if snd x = 0 then fst x \<in> set seeds else from_registry cfg reg x)"

definition origin_inv :: "scan_config \<Rightarrow> registry \<Rightarrow> company_number list \<Rightarrow> scan_state \<Rightarrow> bool" where
  "origin_inv cfg reg seeds st \<longleftrightarrow>
     (\<forall>x\<in>set (to_scan st). origin_ok cfg reg seeds x) \<and>
     (\<forall>x\<in>set (companies (net st)).
        origin_ok cfg reg seeds (fst x, node_depth (snd x)) \<and>
        (active_only cfg \<longrightarrow> node_status (snd x) = Some ''active''))"

text \<open>
  Progress towards the seeds: every visited company had its profile requested, and
  every seed is still waiting at depth 0 in the frontier or has had its profile
  requested.
\<close>

definition seeds_inv :: "company_number list \<Rightarrow> scan_state \<Rightarrow> bool" where
  "seeds_inv seeds st \<longleftrightarrow>
     (\<forall>c\<in>set (scanned_companies st). Call_profile c \<in> set (calls st)) \<and>
     (\<forall>s\<in>set seeds. (s, 0) \<in> set (to_scan st) \<or> Call_profile s \<in> set (calls st))"

subsection \<open>The loop\<close>

lemma scan_loop_reachable:
  "scan_reachable cfg reg seeds st \<Longrightarrow> scan_reachable cfg reg seeds (scan_loop cfg reg st)"
proof (induction cfg reg st rule: scan_loop.induct)
  case (1 cfg reg st)
  then show ?case
    by (cases "loop_cond cfg st") (auto simp: scan_loop.simps [of cfg reg st] intro: scan_reachable.step)
qed

lemma scan_loop_stops: "\<not> loop_cond cfg (scan_loop cfg reg st)"
  by (induction cfg reg st rule: scan_loop.induct) (simp add: scan_loop.simps)

lemma scan_run_reachable: "scan_reachable cfg reg seeds (scan_run cfg reg seeds)"
  unfolding scan_run_def by (rule scan_loop_reachable) (rule scan_reachable.start)

subsection \<open>The crawl invariant\<close>

lemma crawl_inv_init: "crawl_inv cfg (init_state cfg seeds)"
  by (simp add: crawl_inv_def init_state_def init_network_def depths_def)

lemma crawl_inv_scan:
  assumes inv: "crawl_inv cfg st" and c: "c \<notin> set (scanned_companies st)"
    and d: "int d \<le> max_depth cfg"
    and lt: "int (length (scanned_companies st)) < max_companies cfg"
  shows "crawl_inv cfg (scan_company cfg reg c d st)"
  using scan_company_shape [OF refl, of cfg reg c d st]
proof (elim disjE exE conjE)
  assume "net (scan_company cfg reg c d st) = net st"
    "scanned_companies (scan_company cfg reg c d st) = scanned_companies st"
  with inv show ?thesis by (simp add: crawl_inv_def)
next
  fix node
  let ?st' = "scan_company cfg reg c d st"
  assume node: "node_number node = c" "node_depth node = d"
    and comps: "companies (net ?st') = AList.update c node (companies (net st))"
    and dr: "depth_reached (statistics (net ?st')) = max (depth_reached (statistics (net st))) d"
    and conns: "length (connections (net ?st')) =
                  length (connections (net st)) + node_officer_count node"
    and sc: "scanned_companies ?st' = List.insert c (scanned_companies st)"
  have notin: "c \<notin> set (map fst (companies (net st)))"
    using inv c by (simp add: crawl_inv_def)
  then have app: "companies (net ?st') = companies (net st) @ [(c, node)]"
    using comps by (simp add: length_update_new)
  show ?thesis
    using inv c d lt node notin
    unfolding crawl_inv_def app sc dr conns
    by (auto simp: depths_def max.commute)
qed

lemma crawl_inv_step:
  assumes inv: "crawl_inv cfg st" and cond: "loop_cond cfg st"
  shows "crawl_inv cfg (loop_body cfg reg st)"
proof -
  from cond obtain c d rest where q: "to_scan st = (c, d) # rest"
    and lt: "int (length (scanned_companies st)) < max_companies cfg"
    by (auto simp: loop_cond_def neq_Nil_conv)
  show ?thesis
  proof (cases "c \<in> set (scanned_companies st) \<or> max_depth cfg < int d")
    case True
    with inv q show ?thesis by (simp add: loop_body_skip crawl_inv_def)
  next
    case False
    have "crawl_inv cfg (st\<lparr>to_scan := rest\<rparr>)" using inv by (simp add: crawl_inv_def)
    then have "crawl_inv cfg (scan_company cfg reg c d (st\<lparr>to_scan := rest\<rparr>))"
      using False lt by (intro crawl_inv_scan) auto
    with False q show ?thesis by (simp add: loop_body_scan)
  qed
qed

lemma reachable_crawl_inv: "scan_reachable cfg reg seeds st \<Longrightarrow> crawl_inv cfg st"
  by (induction rule: scan_reachable.induct) (auto intro: crawl_inv_init crawl_inv_step)

subsection \<open>Breadth-first order\<close>

lemma bfs_inv_init: "bfs_inv (init_state cfg seeds)"
  unfolding bfs_inv_def init_state_def init_network_def depths_def
  by (intro exI [of _ 0]) (simp add: sorted_iff_nth_mono)

lemma bfs_inv_step:
  assumes inv: "crawl_inv cfg st" and bfs: "bfs_inv st" and cond: "loop_cond cfg st"
  shows "bfs_inv (loop_body cfg reg st)"
proof -
  from cond obtain c d rest where q: "to_scan st = (c, d) # rest"
    by (auto simp: loop_cond_def neq_Nil_conv)
  from bfs obtain L where srt: "sorted (map snd (to_scan st))"
    and bnd: "\<forall>x\<in>set (to_scan st). L \<le> snd x \<and> snd x \<le> Suc L"
    and dep: "\<forall>x\<in>set (depths (companies (net st))). x \<le> L"
    and sdep: "sorted (depths (companies (net st)))"
    unfolding bfs_inv_def by blast
  have rest_ge: "\<forall>x\<in>set rest. d \<le> snd x" and rest_srt: "sorted (map snd rest)"
    using srt q by auto
  have dL: "L \<le> d" "d \<le> Suc L" and rest_bnd: "\<forall>x\<in>set rest. L \<le> snd x \<and> snd x \<le> Suc L"
    using bnd q by auto
  let ?st' = "st\<lparr>to_scan := rest\<rparr>"
  have keep: "bfs_inv ?st'"
    using rest_srt rest_bnd dep sdep unfolding bfs_inv_def by auto
  show ?thesis
  proof (cases "c \<in> set (scanned_companies st) \<or> max_depth cfg < int d")
    case True
    with q keep show ?thesis by (simp add: loop_body_skip)
  next
    case False
    let ?r = "scan_company cfg reg c d ?st'"
    have body: "loop_body cfg reg st = ?r" using False q by (simp add: loop_body_scan)
    from scan_company_shape [OF refl, of cfg reg c d ?st'] show ?thesis
    proof (elim disjE exE conjE)
      assume "net ?r = net ?st'" "to_scan ?r = to_scan ?st'"
      with keep body show ?thesis by (simp add: bfs_inv_def)
    next
      fix node
      assume nd: "node_depth node = d"
        and comps: "companies (net ?r) = AList.update c node (companies (net ?st'))"
        and fr: "appends_frontier (\<lambda>x. snd x = Suc d \<and> int d < max_depth cfg \<and>
                   fst x \<notin> set (List.insert c (scanned_companies ?st')) \<and>
                   from_registry cfg reg x) ?st' ?r"
      have "c \<notin> set (map fst (companies (net st)))"
        using inv False by (simp add: crawl_inv_def)
      then have app: "depths (companies (net ?r)) = depths (companies (net st)) @ [d]"
        using comps nd by (simp add: length_update_new depths_def)
      from fr obtain xs where tq: "to_scan ?r = rest @ xs" and xs: "\<forall>x\<in>set xs. snd x = Suc d"
        unfolding appends_frontier_def by auto
      have "\<forall>y\<in>set (map snd xs). y = Suc d" using xs by auto
      then have sxs: "sorted (map snd xs)" by (rule sorted_const)
      have "\<forall>a\<in>set (map snd rest). \<forall>b\<in>set (map snd xs). a \<le> b"
        using rest_bnd xs dL by auto
      with rest_srt sxs have "sorted (map snd (rest @ xs))"
        by (simp add: sorted_append)
      moreover have "\<forall>x\<in>set (rest @ xs). d \<le> snd x \<and> snd x \<le> Suc d"
        using rest_ge rest_bnd xs dL by auto
      moreover have "\<forall>x\<in>set (depths (companies (net ?r))). x \<le> d"
        using app dep dL by auto
      moreover have "sorted (depths (companies (net ?r)))"
      proof -
        have "\<forall>x\<in>set (depths (companies (net st))). x \<le> d" using dep dL by auto
        with app sdep show ?thesis by (simp add: sorted_append)
      qed
      ultimately show ?thesis
        unfolding body bfs_inv_def tq by blast
    qed
  qed
qed

lemma reachable_bfs_inv: "scan_reachable cfg reg seeds st \<Longrightarrow> bfs_inv st"
proof (induction rule: scan_reachable.induct)
  case start
  then show ?case by (rule bfs_inv_init)
next
  case (step st)
  then show ?case by (blast intro: bfs_inv_step reachable_crawl_inv)
qed

subsection \<open>The client calls\<close>

lemma officer_call_search_ok: "officer_call x \<Longrightarrow> search_ok x"
  by (cases x) (auto simp: officer_call_def search_ok_def)

lemma count_officer_calls: "\<forall>x\<in>set new. officer_call x \<Longrightarrow> count_list new (Call_officers c) = 0"
  by (induction new) (auto simp: officer_call_def)

lemma calls_inv_init: "calls_inv reg (init_state cfg seeds)"
  by (simp add: calls_inv_def init_state_def)

lemma calls_inv_scan:
  assumes inv: "calls_inv reg st" and c: "c \<notin> set (scanned_companies st)"
  shows "calls_inv reg (scan_company cfg reg c d st)"
  using scan_company_calls [OF refl, of cfg reg c d st]
proof (elim disjE exE conjE)
  let ?r = "scan_company cfg reg c d st"
  assume "calls ?r = calls st @ [Call_profile c]" "scanned_companies ?r = scanned_companies st"
  with inv show ?thesis by (simp add: calls_inv_def search_ok_def)
next
  fix e
  let ?r = "scan_company cfg reg c d st"
  assume "get_officers reg c = Inl e" "calls ?r = calls st @ [Call_profile c, Call_officers c]"
    "scanned_companies ?r = scanned_companies st"
  with inv show ?thesis by (auto simp: calls_inv_def search_ok_def)
next
  let ?r = "scan_company cfg reg c d st"
  assume sc: "scanned_companies ?r = List.insert c (scanned_companies st)"
    and ac: "appends_calls officer_call (st\<lparr>calls := calls st @ [Call_profile c, Call_officers c]\<rparr>) ?r"
  from ac obtain new where cr: "calls ?r = calls st @ [Call_profile c, Call_officers c] @ new"
    and new: "\<forall>x\<in>set new. officer_call x"
    unfolding appends_calls_def by auto
  have cnt: "\<And>c'. count_list new (Call_officers c') = 0"
    using new by (rule count_officer_calls)
  have ok: "\<forall>x\<in>set new. search_ok x"
    using new by (blast intro: officer_call_search_ok)
  show ?thesis
    using inv c ok unfolding calls_inv_def cr sc by (auto simp: cnt search_ok_def)
qed

lemma calls_inv_step:
  assumes inv: "calls_inv reg st" and cond: "loop_cond cfg st"
  shows "calls_inv reg (loop_body cfg reg st)"
proof -
  from cond obtain c d rest where q: "to_scan st = (c, d) # rest"
    by (auto simp: loop_cond_def neq_Nil_conv)
  show ?thesis
  proof (cases "c \<in> set (scanned_companies st) \<or> max_depth cfg < int d")
    case True
    with inv q show ?thesis by (simp add: loop_body_skip calls_inv_def)
  next
    case False
    have "calls_inv reg (st\<lparr>to_scan := rest\<rparr>)" using inv by (simp add: calls_inv_def)
    then have "calls_inv reg (scan_company cfg reg c d (st\<lparr>to_scan := rest\<rparr>))"
      using False by (intro calls_inv_scan) auto
    with False q show ?thesis by (simp add: loop_body_scan)
  qed
qed

lemma reachable_calls_inv: "scan_reachable cfg reg seeds st \<Longrightarrow> calls_inv reg st"
  by (induction rule: scan_reachable.induct) (auto intro: calls_inv_init calls_inv_step)

subsection \<open>Provenance of the frontier and the snapshot\<close>

lemma origin_inv_init: "origin_inv cfg reg seeds (init_state cfg seeds)"
  by (auto simp: origin_inv_def origin_ok_def init_state_def init_network_def)

lemma origin_inv_step:
  assumes inv: "origin_inv cfg reg seeds st" and cond: "loop_cond cfg st"
  shows "origin_inv cfg reg seeds (loop_body cfg reg st)"
proof -
  from cond obtain c d rest where q: "to_scan st = (c, d) # rest"
    by (auto simp: loop_cond_def neq_Nil_conv)
  have cd: "origin_ok cfg reg seeds (c, d)" and rest: "\<forall>x\<in>set rest. origin_ok cfg reg seeds x"
    using inv q by (auto simp: origin_inv_def)
  let ?st' = "st\<lparr>to_scan := rest\<rparr>"
  have keep: "origin_inv cfg reg seeds ?st'"
    using inv rest by (simp add: origin_inv_def)
  show ?thesis
  proof (cases "c \<in> set (scanned_companies st) \<or> max_depth cfg < int d")
    case True
    with q keep show ?thesis by (simp add: loop_body_skip)
  next
    case False
    let ?r = "scan_company cfg reg c d ?st'"
    have body: "loop_body cfg reg st = ?r" using False q by (simp add: loop_body_scan)
    from scan_company_shape [OF refl, of cfg reg c d ?st'] show ?thesis
    proof (elim disjE exE conjE)
      assume "net ?r = net ?st'" "to_scan ?r = to_scan ?st'"
      with keep body show ?thesis by (simp add: origin_inv_def)
    next
      fix node
      assume nd: "node_depth node = d"
        and st: "active_only cfg \<longrightarrow> node_status node = Some ''active''"
        and comps: "companies (net ?r) = AList.update c node (companies (net ?st'))"
        and fr: "appends_frontier (\<lambda>x. snd x = Suc d \<and> int d < max_depth cfg \<and>
                   fst x \<notin> set (List.insert c (scanned_companies ?st')) \<and>
                   from_registry cfg reg x) ?st' ?r"
      from fr obtain xs where tq: "to_scan ?r = rest @ xs"
        and xs: "\<forall>x\<in>set xs. snd x = Suc d \<and> from_registry cfg reg x"
        unfolding appends_frontier_def by auto
      have "\<forall>x\<in>set (to_scan ?r). origin_ok cfg reg seeds x"
        using rest xs unfolding tq by (auto simp: origin_ok_def)
      moreover have "set (companies (net ?r)) \<subseteq> insert (c, node) (set (companies (net st)))"
        unfolding comps by (simp add: set_update_subset)
      ultimately show ?thesis
        using inv cd nd st unfolding body origin_inv_def by auto
    qed
  qed
qed

lemma reachable_origin_inv: "scan_reachable cfg reg seeds st \<Longrightarrow> origin_inv cfg reg seeds st"
  by (induction rule: scan_reachable.induct) (auto intro: origin_inv_init origin_inv_step)

subsection \<open>The returned snapshot\<close>

lemma scan_network_fields [simp]:
  "companies (scan_network cfg reg seeds) = companies (net (scan_run cfg reg seeds))"
  "directors (scan_network cfg reg seeds) = directors (net (scan_run cfg reg seeds))"
  "connections (scan_network cfg reg seeds) = connections (net (scan_run cfg reg seeds))"
  by (simp_all add: scan_network_def finalize_statistics_def)

lemma scan_run_crawl_inv: "crawl_inv cfg (scan_run cfg reg seeds)"
  by (rule reachable_crawl_inv [OF scan_run_reachable])

text \<open>
  Claim C2.  The size cap is a hard bound: the snapshot never holds more than
  \<open>max_companies\<close> companies (none when the cap is not positive).
\<close>

theorem scan_network_company_bound:
  "int (length (companies (scan_network cfg reg seeds))) \<le> max 0 (max_companies cfg)"
proof -
  have inv: "crawl_inv cfg (scan_run cfg reg seeds)" by (rule scan_run_crawl_inv)
  let ?cs = "companies (net (scan_run cfg reg seeds))"
  let ?sc = "scanned_companies (scan_run cfg reg seeds)"
  from inv have "length (map fst ?cs) = length ?sc"
    unfolding crawl_inv_def by (metis distinct_card)
  with inv show ?thesis unfolding crawl_inv_def by simp
qed

text \<open>
  Claim C3.  The depth cap: no company in the snapshot was expanded at a depth
  greater than \<open>max_depth\<close>.
\<close>

theorem scan_network_depth_bound:
  "\<forall>x\<in>set (companies (scan_network cfg reg seeds)). int (node_depth (snd x)) \<le> max_depth cfg"
  using scan_run_crawl_inv [of cfg reg seeds] by (simp add: crawl_inv_def)

text \<open>
  Claim C4.  Visited-set idempotence: each company appears once in the snapshot, the
  snapshot's companies are exactly the scanner's \<open>scanned_companies\<close>, and each is
  recorded under its own number.
\<close>

theorem scan_network_recorded_once:
  "distinct (map fst (companies (scan_network cfg reg seeds))) \<and>
   set (map fst (companies (scan_network cfg reg seeds))) =
     set (scanned_companies (scan_run cfg reg seeds)) \<and>
   map (\<lambda>x. node_number (snd x)) (companies (scan_network cfg reg seeds)) =
     map fst (companies (scan_network cfg reg seeds))"
  using scan_run_crawl_inv [of cfg reg seeds] by (simp add: crawl_inv_def)

text \<open>
  Claim C5.  Breadth-first order: companies enter the snapshot in order of
  non-decreasing depth.
\<close>

theorem scan_network_bfs_order: "sorted (depths (companies (scan_network cfg reg seeds)))"
  using reachable_bfs_inv [OF scan_run_reachable, of cfg reg seeds]
  by (auto simp: bfs_inv_def)

text \<open>
  First-seen depth is final: in every state of the crawl, a recorded
  company's depth is at most the depth of every item still in the frontier, so a
  later occurrence of the company can only be dropped by the visited-set guard, never
  give it a smaller depth.
\<close>

theorem reachable_depth_le_frontier:
  assumes "scan_reachable cfg reg seeds st"
    and "x \<in> set (companies (net st))" and "y \<in> set (to_scan st)"
  shows "node_depth (snd x) \<le> snd y"
proof -
  from reachable_bfs_inv [OF assms(1)] obtain L where
    "\<forall>y\<in>set (to_scan st). L \<le> snd y" and "\<forall>d\<in>set (depths (companies (net st))). d \<le> L"
    unfolding bfs_inv_def by blast
  with assms(2,3) show ?thesis by (force simp: depths_def)
qed

text \<open>Claim C39. 
  The statistics: \<open>total_companies\<close> counts the companies,
  \<open>total_directors\<close> the director identities, \<open>total_connections\<close> equals the total
  of the recorded officer counts (connections are not deduplicated), and
  \<open>depth_reached\<close> is the largest recorded depth.
\<close>

theorem scan_network_statistics:
  "total_companies (statistics (scan_network cfg reg seeds)) =
     length (companies (scan_network cfg reg seeds)) \<and>
   total_directors (statistics (scan_network cfg reg seeds)) =
     length (directors (scan_network cfg reg seeds)) \<and>
   total_connections (statistics (scan_network cfg reg seeds)) =
     sum_list (map (\<lambda>x. node_officer_count (snd x)) (companies (scan_network cfg reg seeds))) \<and>
   depth_reached (statistics (scan_network cfg reg seeds)) =
     fold max (depths (companies (scan_network cfg reg seeds))) 0"
  using scan_run_crawl_inv [of cfg reg seeds]
  by (simp add: crawl_inv_def scan_network_def finalize_statistics_def)

text \<open>
  Termination condition: the loop ends only when the frontier is empty
  or the scanned count has reached \<open>max_companies\<close>.
\<close>

theorem scan_run_stops:
  "to_scan (scan_run cfg reg seeds) = [] \<or>
   max_companies cfg \<le> int (length (scanned_companies (scan_run cfg reg seeds)))"
  using scan_loop_stops [of cfg reg "init_state cfg seeds"]
  by (auto simp: scan_run_def loop_cond_def)

text \<open>
  Claim C6.  The corporate-officer heuristic: no officer search is ever issued for
  a name containing a corporate marker.
\<close>

theorem scan_run_no_corporate_search:
  assumes "is_corporate_officer n"
  shows "Call_search n \<notin> set (calls (scan_run cfg reg seeds))"
proof
  assume "Call_search n \<in> set (calls (scan_run cfg reg seeds))"
  with reachable_calls_inv [OF scan_run_reachable [of cfg reg seeds]] have "search_ok (Call_search n)"
    by (auto simp: calls_inv_def)
  with assms show False by (simp add: search_ok_def)
qed

text \<open>
  Claim C7.  A company whose officer list the registry returns has that list
  fetched exactly once when it is in the snapshot, and never otherwise.
\<close>

theorem scan_run_officers_fetched_once:
  assumes "get_officers reg c = Inr os"
  shows "count_list (calls (scan_run cfg reg seeds)) (Call_officers c) =
           (if c \<in> set (map fst (companies (scan_network cfg reg seeds))) then 1 else 0)"
proof -
  have "calls_inv reg (scan_run cfg reg seeds)"
    by (rule reachable_calls_inv [OF scan_run_reachable])
  moreover have "set (map fst (companies (scan_network cfg reg seeds))) =
                   set (scanned_companies (scan_run cfg reg seeds))"
    using scan_run_crawl_inv [of cfg reg seeds] by (simp add: crawl_inv_def)
  ultimately show ?thesis
    using assms by (simp add: calls_inv_def)
qed

text \<open>
  The companies recorded at depth 0 are seeds.
\<close>

theorem scan_network_depth0_seed:
  assumes "x \<in> set (companies (scan_network cfg reg seeds))" and "node_depth (snd x) = 0"
  shows "fst x \<in> set seeds"
  using reachable_origin_inv [OF scan_run_reachable [of cfg reg seeds]] assms
  by (auto simp: origin_inv_def origin_ok_def)

text \<open>
  Claim C8.  Under \<open>active_only\<close>, a company recorded below the seeds was named by
  an appointment the registry returned for some officer, at a company whose status
  is \<open>active\<close> and without a resignation date: an appointment at a dissolved
  company never puts its company into the snapshot.
\<close>

theorem scan_network_active_origin:
  assumes "active_only cfg" and "x \<in> set (companies (scan_network cfg reg seeds))"
    and "0 < node_depth (snd x)"
  shows "\<exists>i as a. get_officer_appointments reg i = Inr as \<and> a \<in> set as \<and>
            ap_company_number a = Some (fst x) \<and> ap_company_status a = Some ''active'' \<and>
            \<not> py_truthy (ap_resigned_on a)"
  using reachable_origin_inv [OF scan_run_reachable [of cfg reg seeds]] assms
  by (auto simp: origin_inv_def origin_ok_def from_registry_def)

text \<open>
  Under \<open>active_only\<close>, every company in the snapshot has status
  \<open>active\<close>.
\<close>

theorem scan_network_active_status:
  assumes "active_only cfg" and "x \<in> set (companies (scan_network cfg reg seeds))"
  shows "node_status (snd x) = Some ''active''"
  using reachable_origin_inv [OF scan_run_reachable [of cfg reg seeds]] assms
  by (auto simp: origin_inv_def)

subsection \<open>Every seed is reached\<close>

text \<open>
  Expanding a company requests its profile, keeps every earlier call and frontier
  item, and visits no company but this one.
\<close>

lemma scan_company_progress:
  "Call_profile c \<in> set (calls (scan_company cfg reg c d st)) \<and>
   set (calls st) \<subseteq> set (calls (scan_company cfg reg c d st)) \<and>
   set (to_scan st) \<subseteq> set (to_scan (scan_company cfg reg c d st)) \<and>
   set (scanned_companies (scan_company cfg reg c d st)) \<subseteq> insert c (set (scanned_companies st))"
proof -
  let ?r = "scan_company cfg reg c d st"
  have calls: "Call_profile c \<in> set (calls ?r) \<and> set (calls st) \<subseteq> set (calls ?r)"
    using scan_company_calls [OF refl, of cfg reg c d st] by (auto simp: appends_calls_def)
  have "set (to_scan st) \<subseteq> set (to_scan ?r) \<and> set (scanned_companies ?r) \<subseteq> insert c (set (scanned_companies st))"
    using scan_company_shape [OF refl, of cfg reg c d st] by (auto simp: appends_frontier_def)
  with calls show ?thesis by blast
qed

lemma seeds_inv_init: "seeds_inv seeds (init_state cfg seeds)"
  by (simp add: seeds_inv_def init_state_def)

lemma seeds_inv_step:
  assumes inv: "seeds_inv seeds st" and cond: "loop_cond cfg st" and dep: "0 \<le> max_depth cfg"
  shows "seeds_inv seeds (loop_body cfg reg st)"
proof -
  from cond obtain c d rest where q: "to_scan st = (c, d) # rest"
    by (auto simp: loop_cond_def neq_Nil_conv)
  show ?thesis
  proof (cases "c \<in> set (scanned_companies st) \<or> max_depth cfg < int d")
    case True
    with inv q dep show ?thesis by (auto simp: loop_body_skip seeds_inv_def)
  next
    case False
    have "seeds_inv seeds (scan_company cfg reg c d (st\<lparr>to_scan := rest\<rparr>))"
      using inv q scan_company_progress [of c cfg reg d "st\<lparr>to_scan := rest\<rparr>"]
      unfolding seeds_inv_def by auto
    with False q show ?thesis by (simp add: loop_body_scan)
  qed
qed

lemma reachable_seeds_inv:
  "scan_reachable cfg reg seeds st \<Longrightarrow> 0 \<le> max_depth cfg \<Longrightarrow> seeds_inv seeds st"
  by (induction rule: scan_reachable.induct) (auto intro: seeds_inv_init seeds_inv_step)

text \<open>
  Claim C9.  Liveness of the crawl: when the depth cap admits the seeds, every seed
  has its profile requested before \<open>scan_network\<close> returns, unless the
  \<open>max_companies\<close> budget ran out first.
\<close>

theorem scan_run_profiles_seeds:
  assumes "0 \<le> max_depth cfg" and "s \<in> set seeds"
  shows "Call_profile s \<in> set (calls (scan_run cfg reg seeds)) \<or>
         max_companies cfg \<le> int (length (scanned_companies (scan_run cfg reg seeds)))"
  using reachable_seeds_inv [OF scan_run_reachable [of cfg reg seeds] assms(1)]
    scan_loop_stops [of cfg reg "init_state cfg seeds"] assms(2)
  by (auto simp: seeds_inv_def scan_run_def loop_cond_def)

end
