(* ===== verification/Network_Analysis.thy ===== *)
theory Network_Analysis
  imports Network_Scanner "HOL-Library.Multiset"
begin

text \<open>
  The two analyses of a finished snapshot (\<open>src/network_scanner.py\<close>):
  \<open>find_shared_directors\<close> (lines 225--256), the directors with more than one
  recorded appointment ranked by their count, and \<open>find_company_clusters\<close> (lines
  258--307), the connected components of the shared-director graph with at least two
  companies, largest first.  Python's \<open>list.sort(key, reverse=True)\<close> is stable,
  so it is \<open>sort_key\<close> (an insertion sort, stable) on the negated key.  The
  adjacency \<open>defaultdict(set)\<close> is an association list from a company to its
  neighbour list; iteration over a Python \<open>set\<close> of strings follows the string
  hashes, so the model fixes one order (insertion order) and the theorems about the
  clusters do not depend on it: they speak of the members of a cluster, not of the
  order in which the traversal lists them.  The recursive \<open>dfs\<close> is written with its
  call stack explicit: a stack of the neighbour lists still to be visited, one per
  active call, which visits nodes in the same preorder.
\<close>

subsection \<open>Shared directors (lines 225--256)\<close>

record shared_company =
  sc_company_number :: string
  sc_company_name :: "string option"
  sc_role :: string

record shared_director =
  sd_director_id :: officer_key
  sd_director_name :: string
  sd_company_count :: nat
  sd_companies :: "shared_company list"

definition shared_entry :: "officer_key \<times> director \<Rightarrow> shared_director" where
  "shared_entry x =
     \<lparr>sd_director_id = fst x, sd_director_name = dir_name (snd x),
      sd_company_count = dir_company_count (snd x),
      sd_companies = map (\<lambda>a. \<lparr>sc_company_number = apt_company_number a,
                               sc_company_name = apt_company_name a, sc_role = apt_role a\<rparr>)
                       (dir_appointments (snd x))\<rparr>"

definition find_shared_directors :: "network \<Rightarrow> shared_director list" where
  "find_shared_directors n =
     sort_key (\<lambda>s. - int (sd_company_count s))
       (map shared_entry (filter (\<lambda>x. 1 < dir_company_count (snd x)) (directors n)))"

subsection \<open>Company clusters (lines 258--307)\<close>

type_synonym graph = "(company_number \<times> company_number list) list"

definition neighbours :: "graph \<Rightarrow> company_number \<Rightarrow> company_number list" where
  "neighbours g x = get_default (map_of g x) []"

text \<open>\<open>graph[company].add(related)\<close>\<close>

definition graph_add :: "company_number \<Rightarrow> company_number \<Rightarrow> graph \<Rightarrow> graph" where
  "graph_add a b g = AList.update a (List.insert b (neighbours g a)) g"

text \<open>Lines 269--284: for each connection, link its company to every other company
  recorded with the same director identity.\<close>

definition related_companies :: "connection list \<Rightarrow> officer_key \<Rightarrow> company_number list" where
  "related_companies conns d = map conn_company_number (filter (\<lambda>c. conn_director_id c = d) conns)"

definition link_connection :: "connection list \<Rightarrow> connection \<Rightarrow> graph \<Rightarrow> graph" where
  "link_connection conns cn g =
     fold (\<lambda>r g. if r \<noteq> conn_company_number cn then graph_add (conn_company_number cn) r g else g)
       (related_companies conns (conn_director_id cn)) g"

definition build_graph :: "connection list \<Rightarrow> graph" where
  "build_graph conns = fold (link_connection conns) conns []"

text \<open>
  Lines 290--295 with the recursion's stack explicit: the top list holds the
  neighbours the innermost active call has still to try.
\<close>

definition dfs_universe :: "graph \<Rightarrow> company_number list list \<Rightarrow> company_number set" where
  "dfs_universe g stk = set (map fst g) \<union> set (concat (map snd g)) \<union> set (concat stk)"

function dfs ::
  "graph \<Rightarrow> company_number list list \<Rightarrow> company_number list \<Rightarrow> company_number list \<Rightarrow>
   company_number list \<times> company_number list" where
  "dfs g [] vis cl = (vis, cl)"
| "dfs g ([] # stk) vis cl = dfs g stk vis cl"
| "dfs g ((x # xs) # stk) vis cl =
     (if x \<in> set vis then dfs g (xs # stk) vis cl
      else dfs g (neighbours g x # xs # stk) (x # vis) (cl @ [x]))"
  by pat_completeness auto

text \<open>Lines 297--302: a traversal from each company not yet visited.\<close>

primrec collect_clusters ::
  "graph \<Rightarrow> company_number list \<Rightarrow> company_number list \<Rightarrow> company_number list list \<Rightarrow>
   company_number list list" where
  "collect_clusters g [] vis acc = acc"
| "collect_clusters g (c # cs) vis acc =
     (if c \<in> set vis then collect_clusters g cs vis acc
      else (case dfs g [[c]] vis [] of
              (vis', cl) \<Rightarrow> collect_clusters g cs vis' (if 1 < length cl then acc @ [cl] else acc)))"

definition find_company_clusters :: "network \<Rightarrow> company_number list list" where
  "find_company_clusters n =
     sort_key (\<lambda>cl. - int (length cl))
       (collect_clusters (build_graph (connections n)) (map fst (companies n)) [] [])"

text \<open>
  The specification's adjacency: two distinct companies are adjacent when a
  connection of each names the same director identity.
\<close>

definition shares_director :: "connection list \<Rightarrow> company_number \<Rightarrow> company_number \<Rightarrow> bool" where
  "shares_director conns a b \<longleftrightarrow>
     a \<noteq> b \<and> (\<exists>c1\<in>set conns. \<exists>c2\<in>set conns. conn_company_number c1 = a \<and>
                 conn_company_number c2 = b \<and> conn_director_id c1 = conn_director_id c2)"

definition graph_edges :: "graph \<Rightarrow> (company_number \<times> company_number) set" where
  "graph_edges g = {(a, b). b \<in> set (neighbours g a)}"

lemma neighbours_in_graph: "set (neighbours g x) \<subseteq> set (concat (map snd g))"
proof (cases "map_of g x")
  case None
  then show ?thesis by (simp add: neighbours_def)
next
  case (Some ys)
  then have "(x, ys) \<in> set g" by (rule map_of_SomeD)
  with Some show ?thesis by (force simp: neighbours_def)
qed

lemma finite_dfs_universe [simp]: "finite (dfs_universe g stk)"
  by (simp add: dfs_universe_def)

lemma dfs_universe_push:
  "dfs_universe g (neighbours g x # xs # stk) \<subseteq> dfs_universe g ((x # xs) # stk)"
  using neighbours_in_graph [of g x] by (auto simp: dfs_universe_def)

lemma dfs_visit_decreases:
  assumes "x \<notin> set vis"
  shows "card (dfs_universe g (neighbours g x # xs # stk) - insert x (set vis)) <
         card (dfs_universe g ((x # xs) # stk) - set vis)"
proof (rule psubset_card_mono)
  show "finite (dfs_universe g ((x # xs) # stk) - set vis)" by simp
  have "x \<in> dfs_universe g ((x # xs) # stk)" by (simp add: dfs_universe_def)
  with assms dfs_universe_push [of g x xs stk]
  show "dfs_universe g (neighbours g x # xs # stk) - insert x (set vis) \<subset>
        dfs_universe g ((x # xs) # stk) - set vis"
    by auto
qed

lemma dfs_universe_skip:
  "x \<in> set vis \<Longrightarrow> dfs_universe g (xs # stk) - set vis = dfs_universe g ((x # xs) # stk) - set vis"
  by (auto simp: dfs_universe_def)

termination dfs
  apply (relation "measures [\<lambda>(g, stk, vis, cl). card (dfs_universe g stk - set vis),
                             \<lambda>(g, stk, vis, cl). length (concat stk) + length stk]")
     apply simp
    apply (simp add: dfs_universe_def)
   apply (simp add: dfs_universe_skip [symmetric])
  apply (simp add: dfs_visit_decreases)
  done

subsection \<open>The adjacency built from the connections\<close>

lemma neighbours_graph_add:
  "set (neighbours (graph_add a b g) x) =
     (if x = a then insert b (set (neighbours g x)) else set (neighbours g x))"
  by (simp add: graph_add_def neighbours_def update_conv')

lemma neighbours_link_connection:
  "set (neighbours (link_connection conns cn g) x) =
     set (neighbours g x) \<union>
     {r \<in> set (related_companies conns (conn_director_id cn)). x = conn_company_number cn \<and> r \<noteq> x}"
proof -
  have "set (neighbours (fold (\<lambda>r g. if r \<noteq> conn_company_number cn
                                       then graph_add (conn_company_number cn) r g else g) rs g) x) =
        set (neighbours g x) \<union> {r \<in> set rs. x = conn_company_number cn \<and> r \<noteq> x}" for rs
    by (induction rs arbitrary: g) (auto simp: neighbours_graph_add)
  then show ?thesis by (simp add: link_connection_def)
qed

lemma neighbours_build_graph:
  "b \<in> set (neighbours (build_graph conns) a) \<longleftrightarrow> shares_director conns a b"
proof -
  have fold: "set (neighbours (fold (link_connection conns) ps g) a) =
        set (neighbours g a) \<union>
        {b. \<exists>cn\<in>set ps. a = conn_company_number cn \<and> b \<noteq> a \<and>
                        b \<in> set (related_companies conns (conn_director_id cn))}" for ps g
    by (induction ps arbitrary: g) (auto simp: neighbours_link_connection)
  have "neighbours [] a = []" by (simp add: neighbours_def)
  with fold [of conns "[]"] have
    "set (neighbours (build_graph conns) a) =
       {b. \<exists>cn\<in>set conns. a = conn_company_number cn \<and> b \<noteq> a \<and>
                         b \<in> set (related_companies conns (conn_director_id cn))}"
    by (simp add: build_graph_def)
  then show ?thesis
    unfolding shares_director_def related_companies_def by fastforce
qed

lemma graph_edges_build_graph:
  "graph_edges (build_graph conns) = {(a, b). shares_director conns a b}"
  by (auto simp: graph_edges_def neighbours_build_graph)

lemma shares_director_sym: "shares_director conns a b \<Longrightarrow> shares_director conns b a"
  unfolding shares_director_def by fastforce

subsection \<open>The traversal\<close>

text \<open>
  A traversal appends the newly visited nodes to the cluster, in visiting order,
  each once, and adds exactly them to the visited set.
\<close>

lemma dfs_extends:
  "dfs g stk vis cl = (vis', cl') \<Longrightarrow>
   \<exists>new. cl' = cl @ new \<and> vis' = rev new @ vis \<and> set new \<inter> set vis = {} \<and> distinct new"
proof (induction g stk vis cl arbitrary: vis' cl' rule: dfs.induct)
  case (1 g vis cl)
  then show ?case by simp
next
  case (2 g stk vis cl)
  then show ?case by simp
next
  case (3 g x xs stk vis cl)
  show ?case
  proof (cases "x \<in> set vis")
    case True
    with 3 show ?thesis by simp
  next
    case False
    with "3.prems" obtain new where
      "cl' = (cl @ [x]) @ new" "vis' = rev new @ x # vis" "set new \<inter> set (x # vis) = {}" "distinct new"
      using "3.IH"(2) [OF False] by auto
    with False show ?thesis by (intro exI [of _ "x # new"]) auto
  qed
qed

text \<open>Every node the traversal adds is reachable from a root that reaches the stack.\<close>

lemma dfs_reach:
  "dfs g stk vis cl = (vis', cl') \<Longrightarrow>
   \<forall>y\<in>set (concat stk). (r, y) \<in> (graph_edges g)\<^sup>* \<Longrightarrow>
   \<forall>y\<in>set cl. (r, y) \<in> (graph_edges g)\<^sup>* \<Longrightarrow>
   \<forall>y\<in>set cl'. (r, y) \<in> (graph_edges g)\<^sup>*"
proof (induction g stk vis cl arbitrary: vis' cl' rule: dfs.induct)
  case (1 g vis cl)
  then show ?case by simp
next
  case (2 g stk vis cl)
  then show ?case by simp
next
  case (3 g x xs stk vis cl)
  have rx: "(r, x) \<in> (graph_edges g)\<^sup>*" using "3.prems"(2) by simp
  have "\<forall>y\<in>set (neighbours g x). (r, y) \<in> (graph_edges g)\<^sup>*"
    using rx by (auto simp: graph_edges_def intro: rtrancl_into_rtrancl)
  with 3 rx show ?case by (auto split: if_splits)
qed

text \<open>
  The visited set stays closed under the edges up to the nodes still on the stack;
  when the stack is empty it is closed.
\<close>

lemma dfs_closed:
  "dfs g stk vis cl = (vis', cl') \<Longrightarrow>
   \<forall>v\<in>set vis. set (neighbours g v) \<subseteq> set vis \<union> set (concat stk) \<Longrightarrow>
   \<forall>v\<in>set vis'. set (neighbours g v) \<subseteq> set vis'"
proof (induction g stk vis cl arbitrary: vis' cl' rule: dfs.induct)
  case (1 g vis cl)
  then show ?case by simp
next
  case (2 g stk vis cl)
  then show ?case by simp
next
  case (3 g x xs stk vis cl)
  show ?case
  proof (cases "x \<in> set vis")
    case True
    have "\<forall>v\<in>set vis. set (neighbours g v) \<subseteq> set vis \<union> set (concat (xs # stk))"
      using "3.prems"(2) True by auto
    with True "3.prems"(1) show ?thesis by (intro "3.IH"(1)) auto
  next
    case False
    have "\<forall>v\<in>set (x # vis). set (neighbours g v) \<subseteq> set (x # vis) \<union> set (concat (neighbours g x # xs # stk))"
      using "3.prems"(2) by auto
    with False "3.prems"(1) show ?thesis by (intro "3.IH"(2)) auto
  qed
qed

lemma dfs_start:
  "c \<notin> set vis \<Longrightarrow> dfs g [[c]] vis [] = dfs g [neighbours g c, []] (c # vis) [c]"
  by simp

subsection \<open>The outer loop over the companies\<close>

lemma collect_clusters_new:
  "c \<notin> set vis \<Longrightarrow> dfs g [[c]] vis [] = (vis', cl) \<Longrightarrow>
   collect_clusters g (c # cs) vis acc =
     collect_clusters g cs vis' (if 1 < length cl then acc @ [cl] else acc)"
  by simp

lemma collect_clusters_mono: "set acc \<subseteq> set (collect_clusters g cs vis acc)"
proof (induction cs arbitrary: vis acc)
  case Nil
  then show ?case by simp
next
  case (Cons c cs)
  show ?case
  proof (cases "c \<in> set vis")
    case True
    with Cons show ?thesis by simp
  next
    case False
    obtain vis' cl where d: "dfs g [[c]] vis [] = (vis', cl)" by fastforce
    have "set acc \<subseteq> set (if 1 < length cl then acc @ [cl] else acc)" by auto
    also have "\<dots> \<subseteq> set (collect_clusters g cs vis' (if 1 < length cl then acc @ [cl] else acc))"
      by (rule Cons.IH)
    finally show ?thesis by (simp only: collect_clusters_new [OF False d])
  qed
qed

lemma collect_clusters_nonsingleton:
  "\<forall>cl\<in>set acc. 1 < length cl \<Longrightarrow> \<forall>cl\<in>set (collect_clusters g cs vis acc). 1 < length cl"
proof (induction cs arbitrary: vis acc)
  case Nil
  then show ?case by simp
next
  case (Cons c cs)
  show ?case
  proof (cases "c \<in> set vis")
    case True
    with Cons show ?thesis by simp
  next
    case False
    obtain vis' cl where d: "dfs g [[c]] vis [] = (vis', cl)" by fastforce
    have "\<forall>cl'\<in>set (if 1 < length cl then acc @ [cl] else acc). 1 < length cl'"
      using Cons.prems by auto
    then show ?thesis
      unfolding collect_clusters_new [OF False d] by (rule Cons.IH)
  qed
qed

lemma collect_clusters_disjoint:
  "set (concat acc) \<subseteq> set vis \<Longrightarrow> distinct (concat acc) \<Longrightarrow>
   distinct (concat (collect_clusters g cs vis acc))"
proof (induction cs arbitrary: vis acc)
  case Nil
  then show ?case by simp
next
  case (Cons c cs)
  show ?case
  proof (cases "c \<in> set vis")
    case True
    with Cons show ?thesis by simp
  next
    case False
    obtain vis' cl where d: "dfs g [[c]] vis [] = (vis', cl)" by fastforce
    from dfs_extends [OF d] have cl: "vis' = rev cl @ vis" "set cl \<inter> set vis = {}" "distinct cl"
      by auto
    let ?acc = "if 1 < length cl then acc @ [cl] else acc"
    have "set (concat ?acc) \<subseteq> set vis'" "distinct (concat ?acc)"
      using Cons.prems cl by auto
    then show ?thesis
      unfolding collect_clusters_new [OF False d] by (rule Cons.IH)
  qed
qed

lemma collect_clusters_connected:
  "\<forall>cl\<in>set acc. \<exists>r. \<forall>y\<in>set cl. (r, y) \<in> (graph_edges g)\<^sup>* \<Longrightarrow>
   \<forall>cl\<in>set (collect_clusters g cs vis acc). \<exists>r. \<forall>y\<in>set cl. (r, y) \<in> (graph_edges g)\<^sup>*"
proof (induction cs arbitrary: vis acc)
  case Nil
  then show ?case by simp
next
  case (Cons c cs)
  show ?case
  proof (cases "c \<in> set vis")
    case True
    with Cons show ?thesis by simp
  next
    case False
    obtain vis' cl where d: "dfs g [[c]] vis [] = (vis', cl)" by fastforce
    have "\<forall>y\<in>set cl. (c, y) \<in> (graph_edges g)\<^sup>*"
      by (rule dfs_reach [OF d]) auto
    with Cons.prems have "\<forall>cl'\<in>set (if 1 < length cl then acc @ [cl] else acc).
                            \<exists>r. \<forall>y\<in>set cl'. (r, y) \<in> (graph_edges g)\<^sup>*"
      by auto
    then show ?thesis
      unfolding collect_clusters_new [OF False d] by (rule Cons.IH)
  qed
qed

text \<open>
  Completeness of the outer loop on a symmetric graph without self-loops: once the
  visited set is closed, every edge from a visited node lies inside one collected
  cluster.
\<close>

lemma collect_clusters_complete:
  assumes sym: "sym (graph_edges g)" and irr: "\<forall>x. (x, x) \<notin> graph_edges g"
  shows "\<forall>v\<in>set vis. set (neighbours g v) \<subseteq> set vis \<Longrightarrow>
         \<forall>x\<in>set vis. \<forall>y. (x, y) \<in> graph_edges g \<longrightarrow> (\<exists>cl\<in>set acc. x \<in> set cl \<and> y \<in> set cl) \<Longrightarrow>
         a \<in> set vis \<union> set cs \<Longrightarrow> (a, b) \<in> graph_edges g \<Longrightarrow>
         \<exists>cl\<in>set (collect_clusters g cs vis acc). a \<in> set cl \<and> b \<in> set cl"
proof (induction cs arbitrary: vis acc)
  case Nil
  then show ?case by auto
next
  case (Cons c cs)
  show ?case
  proof (cases "c \<in> set vis")
    case True
    have "a \<in> set vis \<union> set cs" using Cons.prems(3) True by auto
    from Cons.IH [OF Cons.prems(1,2) this Cons.prems(4)] True show ?thesis by simp
  next
    case False
    obtain vis' cl where d: "dfs g [[c]] vis [] = (vis', cl)" by fastforce
    from dfs_extends [OF d] have ext: "vis' = rev cl @ vis" "set cl \<inter> set vis = {}" by auto
    from dfs_extends [OF d [unfolded dfs_start [OF False]]] have cin: "c \<in> set cl" by auto
    have closed': "\<forall>v\<in>set vis'. set (neighbours g v) \<subseteq> set vis'"
      by (rule dfs_closed [OF d]) (use Cons.prems(1) in auto)
    let ?acc = "if 1 < length cl then acc @ [cl] else acc"
    have inv': "\<forall>x\<in>set vis'. \<forall>y. (x, y) \<in> graph_edges g \<longrightarrow> (\<exists>cl'\<in>set ?acc. x \<in> set cl' \<and> y \<in> set cl')"
    proof (intro ballI allI impI)
      fix x y
      assume x: "x \<in> set vis'" and e: "(x, y) \<in> graph_edges g"
      show "\<exists>cl'\<in>set ?acc. x \<in> set cl' \<and> y \<in> set cl'"
      proof (cases "x \<in> set vis")
        case True
        with Cons.prems(2) e show ?thesis by fastforce
      next
        case False
        then have xcl: "x \<in> set cl" using x ext by auto
        have "y \<in> set vis'" using closed' x e by (auto simp: graph_edges_def)
        moreover have "y \<notin> set vis"
        proof
          assume "y \<in> set vis"
          moreover have "(y, x) \<in> graph_edges g" using sym e by (rule symD)
          ultimately have "x \<in> set vis" using Cons.prems(1) by (auto simp: graph_edges_def)
          with False show False by simp
        qed
        ultimately have ycl: "y \<in> set cl" using ext by auto
        have "x \<noteq> y" using irr e by auto
        with xcl ycl have "1 < length cl" by (rule length_two_elems)
        with xcl ycl show ?thesis by auto
      qed
    qed
    have "a \<in> set vis' \<union> set cs" using Cons.prems(3) cin ext by auto
    from Cons.IH [OF closed' inv' this Cons.prems(4)] show ?thesis
      unfolding collect_clusters_new [OF False d] .
  qed
qed

lemma distinct_concat_perm: "mset xs = mset ys \<Longrightarrow> distinct (concat xs) = distinct (concat ys)"
proof -
  assume "mset xs = mset ys"
  then have "mset (map mset xs) = mset (map mset ys)" by simp
  then have "sum_list (map mset xs) = sum_list (map mset ys)"
    by (metis sum_mset_sum_list)
  then have "mset (concat xs) = mset (concat ys)" by (simp add: mset_concat)
  then show ?thesis by (rule mset_eq_imp_distinct_iff)
qed

lemma sym_shares_director: "sym {(x, y). shares_director conns x y}"
  by (auto intro: symI shares_director_sym)

lemma sort_desc_length:
  "sorted_wrt (\<lambda>a b. f b \<le> f a) (sort_key (\<lambda>x. - int (f x)) xs) \<and>
   (\<forall>k. filter (\<lambda>x. f x = k) (sort_key (\<lambda>x. - int (f x)) xs) = filter (\<lambda>x. f x = k) xs)"
proof (intro conjI allI)
  show "sorted_wrt (\<lambda>a b. f b \<le> f a) (sort_key (\<lambda>x. - int (f x)) xs)"
    using sorted_sort_key [of "\<lambda>x. - int (f x)" xs] by (simp add: sorted_map)
  fix k
  show "filter (\<lambda>x. f x = k) (sort_key (\<lambda>x. - int (f x)) xs) = filter (\<lambda>x. f x = k) xs"
    using sort_key_stable [of "\<lambda>x. - int (f x)" "- int k" xs] by simp
qed

subsection \<open>The analyses' contracts\<close>

text \<open>
  The shared-director ranking holds exactly the directors with more than
  one appointment, ranked by non-increasing appointment count, with ties in the
  order of the snapshot's \<open>directors\<close> dict.
\<close>

theorem find_shared_directors_spec:
  "mset (find_shared_directors n) =
     mset (map shared_entry (filter (\<lambda>x. 1 < dir_company_count (snd x)) (directors n))) \<and>
   sorted_wrt (\<lambda>a b. sd_company_count b \<le> sd_company_count a) (find_shared_directors n) \<and>
   (\<forall>k. filter (\<lambda>s. sd_company_count s = k) (find_shared_directors n) =
        filter (\<lambda>s. sd_company_count s = k)
          (map shared_entry (filter (\<lambda>x. 1 < dir_company_count (snd x)) (directors n))))"
  using sort_desc_length [of sd_company_count] by (simp add: find_shared_directors_def mset_sort)

text \<open>No cluster is a single company.\<close>

theorem find_company_clusters_nonsingleton:
  assumes "cl \<in> set (find_company_clusters n)"
  shows "1 < length cl"
  using assms collect_clusters_nonsingleton [of "[]" "build_graph (connections n)" "map fst (companies n)" "[]"]
  by (simp add: find_company_clusters_def)

text \<open>
  Claim C11.  Any two companies of a cluster are joined by a chain of companies,
  each sharing a director identity with the next.
\<close>

theorem find_company_clusters_connected:
  assumes "cl \<in> set (find_company_clusters n)" and "a \<in> set cl" and "b \<in> set cl"
  shows "(a, b) \<in> {(x, y). shares_director (connections n) x y}\<^sup>*"
proof -
  let ?E = "{(x, y). shares_director (connections n) x y}"
  from assms(1) collect_clusters_connected [of "[]" "build_graph (connections n)" "map fst (companies n)" "[]"]
  obtain r where "\<forall>y\<in>set cl. (r, y) \<in> ?E\<^sup>*"
    by (auto simp: find_company_clusters_def graph_edges_build_graph)
  with assms(2,3) have ra: "(r, a) \<in> ?E\<^sup>*" and rb: "(r, b) \<in> ?E\<^sup>*" by auto
  from ra have "(a, r) \<in> (?E\<inverse>)\<^sup>*" by (rule rtrancl_converseI)
  then have ar: "(a, r) \<in> ?E\<^sup>*" using sym_shares_director [of "connections n"]
    by (simp add: sym_conv_converse_eq)
  from ar rb show ?thesis by (rule rtrancl_trans)
qed

text \<open>Claim C12.  No company belongs to two clusters or appears twice in one.\<close>

theorem find_company_clusters_disjoint: "distinct (concat (find_company_clusters n))"
proof -
  have "distinct (concat (collect_clusters (build_graph (connections n)) (map fst (companies n)) [] []))"
    by (rule collect_clusters_disjoint) simp_all
  then show ?thesis
    by (simp add: find_company_clusters_def distinct_concat_perm [OF mset_sort])
qed

text \<open>
  Clusters come largest first, clusters of equal size in the order the
  traversal found them.
\<close>

theorem find_company_clusters_order:
  "sorted_wrt (\<lambda>a b. length b \<le> length a) (find_company_clusters n) \<and>
   (\<forall>k. filter (\<lambda>cl. length cl = k) (find_company_clusters n) =
        filter (\<lambda>cl. length cl = k)
          (collect_clusters (build_graph (connections n)) (map fst (companies n)) [] []))"
  using sort_desc_length [of length] by (simp add: find_company_clusters_def)

text \<open>
  Claim C13.  Completeness: a company of the snapshot that shares a director with
  another company lies in a cluster together with it.
\<close>

theorem find_company_clusters_complete:
  assumes "a \<in> set (map fst (companies n))" and "shares_director (connections n) a b"
  shows "\<exists>cl\<in>set (find_company_clusters n). a \<in> set cl \<and> b \<in> set cl"
proof -
  let ?g = "build_graph (connections n)"
  have sym: "sym (graph_edges ?g)"
    using sym_shares_director by (simp add: graph_edges_build_graph)
  have irr: "\<forall>x. (x, x) \<notin> graph_edges ?g"
    by (simp add: graph_edges_build_graph shares_director_def)
  have "(a, b) \<in> graph_edges ?g" using assms(2) by (simp add: graph_edges_build_graph)
  with assms(1) have "\<exists>cl\<in>set (collect_clusters ?g (map fst (companies n)) [] []). a \<in> set cl \<and> b \<in> set cl"
    by (intro collect_clusters_complete [OF sym irr]) auto
  then show ?thesis by (simp add: find_company_clusters_def)
qed

end
