(* ===== verification/Crawl_Scenarios.thy ===== *)
theory Crawl_Scenarios
  imports Network_Analysis
begin

text \<open>
  Concrete runs of \<open>scan_network\<close> on small registries, evaluated by the code
  generator's simplifier (\<open>code_simp\<close>): the scenarios of the specification's
  section 8, the two places where the code departs from the specification's
  fetch-once promises, and the instances at which the general crawler theorems
  are applied.  A registry is given by association lists (\<open>alist_registry\<close>): an
  unknown company or officer identifier is an HTTP 404, an unknown name an empty
  search result.
\<close>


definition not_found :: "string \<Rightarrow> api_error" where
  "not_found x = Http_error 404 ''Not Found'' x"

definition alist_registry ::
  "(string \<times> profile) list \<Rightarrow> (string \<times> officer list) list \<Rightarrow> (string \<times> search_hit list) list \<Rightarrow>
   (string \<times> appointment_item list) list \<Rightarrow> registry" where
  "alist_registry ps os ss as =
     \<lparr>get_company_profile = (\<lambda>c. case map_of ps c of Some p \<Rightarrow> Inr p | None \<Rightarrow> Inl (not_found c)),
      get_officers = (\<lambda>c. case map_of os c of Some xs \<Rightarrow> Inr xs | None \<Rightarrow> Inl (not_found c)),
      search_officers = (\<lambda>n. case map_of ss n of Some xs \<Rightarrow> Inr xs | None \<Rightarrow> Inr []),
      get_officer_appointments = (\<lambda>i. case map_of as i of Some xs \<Rightarrow> Inr xs | None \<Rightarrow> Inl (not_found i))\<rparr>"

definition profile_with :: "string \<Rightarrow> string \<Rightarrow> profile" where
  "profile_with n s = \<lparr>profile_name = Some n, profile_status = Some s, profile_type = Some ''ltd'',
                       profile_date_of_creation = None\<rparr>"

definition director_officer :: "string \<Rightarrow> officer" where
  "director_officer n = \<lparr>officer_name = Some n, officer_role = Some ''director'',
     appointed_on = Some ''2020-01-01'', resigned_on = None, date_of_birth = None\<rparr>"

definition appointment_at :: "string \<Rightarrow> string \<Rightarrow> appointment_item" where
  "appointment_at c s = \<lparr>ap_company_number = Some c, ap_company_status = Some s, ap_resigned_on = None\<rparr>"

definition hit :: "string \<Rightarrow> string \<Rightarrow> search_hit" where
  "hit t i = \<lparr>hit_title = Some t, hit_links_self = Some (''/officers/'' @ i @ ''/appointments'')\<rparr>"

definition active_cfg :: "int \<Rightarrow> int \<Rightarrow> scan_config" where
  "active_cfg d m = \<lparr>max_depth = d, max_companies = m, active_only = True\<rparr>"

definition js_registry :: registry where
  "js_registry = alist_registry
     [(''AA111111'', profile_with ''ALPHA'' ''active''), (''BB222222'', profile_with ''BETA'' ''active'')]
     [(''AA111111'', [director_officer ''JOHN SMITH'']), (''BB222222'', [director_officer ''JOHN SMITH''])]
     [(''JOHN SMITH'', [hit ''John Smith'' ''js1''])]
     [(''js1'', [appointment_at ''AA111111'' ''active'', appointment_at ''BB222222'' ''active''])]"

definition acme_registry :: registry where
  "acme_registry = alist_registry
     [(''AA111111'', profile_with ''ALPHA'' ''active'')]
     [(''AA111111'', [director_officer ''ACME HOLDINGS LIMITED''])]
     [(''ACME HOLDINGS LIMITED'', [hit ''ACME HOLDINGS LIMITED'' ''acme''])]
     [(''acme'', [appointment_at ''BB222222'' ''active''])]"

definition dissolved_registry :: registry where
  "dissolved_registry = alist_registry
     [(''AA111111'', profile_with ''ALPHA'' ''active''), (''CC333333'', profile_with ''GAMMA'' ''dissolved'')]
     [(''AA111111'', [director_officer ''JANE DOE'']), (''CC333333'', [director_officer ''JANE DOE''])]
     [(''JANE DOE'', [hit ''Jane Doe'' ''jd1''])]
     [(''jd1'', [appointment_at ''AA111111'' ''active'', appointment_at ''CC333333'' ''dissolved''])]"


text \<open>A company that is not active, listed twice among the seeds.\<close>

definition inactive_registry :: registry where
  "inactive_registry = alist_registry
     [(''XX000000'', profile_with ''DORMANT'' ''dissolved'')]
     [(''XX000000'', [director_officer ''PAT LEE''])] [] []"

text \<open>Two seed companies sharing an officer whose search fails with HTTP 500.\<close>

definition failing_search_registry :: registry where
  "failing_search_registry =
     (alist_registry
        [(''AA111111'', profile_with ''ALPHA'' ''active''), (''BB222222'', profile_with ''BETA'' ''active'')]
        [(''AA111111'', [director_officer ''PAT LEE'']), (''BB222222'', [director_officer ''PAT LEE''])]
        [] [])
     \<lparr>search_officers := (\<lambda>n. Inl (Http_error 500 ''Internal Server Error''
                                 (''/search/officers?q='' @ n)))\<rparr>"

lemma js_first_step:
  "scan_reachable (active_cfg 1 100) js_registry [''AA111111'']
     (loop_body (active_cfg 1 100) js_registry (init_state (active_cfg 1 100) [''AA111111'']))"
proof (rule scan_reachable.step)
  show "scan_reachable (active_cfg 1 100) js_registry [''AA111111''] (init_state (active_cfg 1 100) [''AA111111''])"
    by (rule scan_reachable.start)
  show "loop_cond (active_cfg 1 100) (init_state (active_cfg 1 100) [''AA111111''])"
    by code_simp
qed

lemma js_first_step_company:
  "(''AA111111'', company_record ''AA111111'' (profile_with ''ALPHA'' ''active'') 0 1) \<in>
     set (companies (net (loop_body (active_cfg 1 100) js_registry (init_state (active_cfg 1 100) [''AA111111'']))))"
  by code_simp

lemma js_first_step_frontier:
  "(''BB222222'', 1) \<in>
     set (to_scan (loop_body (active_cfg 1 100) js_registry (init_state (active_cfg 1 100) [''AA111111''])))"
  by code_simp

lemma js_companies:
  "companies (net (scan_run (active_cfg 1 100) js_registry [''AA111111''])) =
     [(''AA111111'', company_record ''AA111111'' (profile_with ''ALPHA'' ''active'') 0 1),
      (''BB222222'', company_record ''BB222222'' (profile_with ''BETA'' ''active'') 1 1)]"
  by code_simp

lemma js_clusters:
  "find_company_clusters (scan_network (active_cfg 1 100) js_registry [''AA111111'']) =
     [[''AA111111'', ''BB222222'']]"
  by code_simp

lemma js_shares_director:
  "shares_director (connections (scan_network (active_cfg 1 100) js_registry [''AA111111'']))
     ''AA111111'' ''BB222222''"
  by code_simp

lemma active_cfg_simps [simp]:
  "active_only (active_cfg d m)" "max_depth (active_cfg d m) = d" "max_companies (active_cfg d m) = m"
  by (simp_all add: active_cfg_def)

lemma js_officers_bb: "get_officers js_registry ''BB222222'' = Inr [director_officer ''JOHN SMITH'']"
  by (simp add: js_registry_def alist_registry_def)

lemma acme_corporate: "is_corporate_officer ''ACME HOLDINGS LIMITED''"
  by (simp add: is_corporate_officer_def corporate_keywords_def py_upper_def py_upper_char_def)

subsection \<open>The scenarios of the specification\<close>

text \<open>
  Seed \<open>AA111111\<close>, \<open>max_depth = 1\<close>, director JOHN SMITH appointed at
  \<open>AA111111\<close> and at the active \<open>BB222222\<close>: the snapshot holds both companies,
  \<open>BB222222\<close> at depth 1, and one director identity with \<open>company_count = 2\<close>; the
  officer is searched once.
\<close>

theorem crawl_shared_director_scenario:
  "map (\<lambda>x. (fst x, node_depth (snd x))) (companies (scan_network (active_cfg 1 100) js_registry [''AA111111''])) =
     [(''AA111111'', 0), (''BB222222'', 1)] \<and>
   map (\<lambda>x. (fst x, dir_company_count (snd x))) (directors (scan_network (active_cfg 1 100) js_registry [''AA111111''])) =
     [(''JOHN SMITH_2020-01-01'', 2)] \<and>
   calls (scan_run (active_cfg 1 100) js_registry [''AA111111'']) =
     [Call_profile ''AA111111'', Call_officers ''AA111111'', Call_search ''JOHN SMITH'',
      Call_appointments ''js1'', Call_profile ''BB222222'', Call_officers ''BB222222'']"
  by code_simp

text \<open>
  The corporate officer ACME HOLDINGS LIMITED: no search is issued for
  it, it is still recorded as a connection, and it adds nothing to the frontier.
\<close>

theorem crawl_corporate_officer_scenario:
  "calls (scan_run (active_cfg 2 100) acme_registry [''AA111111'']) =
     [Call_profile ''AA111111'', Call_officers ''AA111111''] \<and>
   map conn_director_name (connections (scan_network (active_cfg 2 100) acme_registry [''AA111111''])) =
     [''ACME HOLDINGS LIMITED''] \<and>
   map fst (companies (scan_network (active_cfg 2 100) acme_registry [''AA111111''])) = [''AA111111'']"
  by code_simp

text \<open>
  Under \<open>active_only\<close>, an appointment at the dissolved \<open>CC333333\<close> is
  never enqueued: its profile is never fetched and it is not in the snapshot.
\<close>

theorem crawl_dissolved_appointment_scenario:
  "calls (scan_run (active_cfg 2 100) dissolved_registry [''AA111111'']) =
     [Call_profile ''AA111111'', Call_officers ''AA111111'', Call_search ''JANE DOE'', Call_appointments ''jd1''] \<and>
   map fst (companies (scan_network (active_cfg 2 100) dissolved_registry [''AA111111''])) = [''AA111111'']"
  by code_simp

text \<open>
  \<open>max_companies = 1\<close> with two eligible seeds: exactly one company is
  in the snapshot and the second seed is never fetched.
\<close>

theorem crawl_max_companies_scenario:
  "map fst (companies (scan_network (active_cfg 2 1) js_registry [''AA111111'', ''BB222222''])) = [''AA111111''] \<and>
   Call_profile ''BB222222'' \<notin> set (calls (scan_run (active_cfg 2 1) js_registry [''AA111111'', ''BB222222'']))"
  by code_simp

subsection \<open>Where the code refetches\<close>

text \<open>
  A dissolved seed listed twice is fetched twice, and its officers never.
\<close>

theorem crawl_inactive_refetched_run:
  "calls (scan_run (active_cfg 2 100) inactive_registry [''XX000000'', ''XX000000'']) =
     [Call_profile ''XX000000'', Call_profile ''XX000000'']"
  by code_simp

theorem crawl_inactive_refetched_witness:
  "(loop_body (active_cfg 2 100) inactive_registry ^^ 2) (init_state (active_cfg 2 100) [''XX000000'', ''XX000000'']) =
     (init_state (active_cfg 2 100) [''XX000000'', ''XX000000''])
       \<lparr>to_scan := [], calls := [Call_profile ''XX000000'', Call_profile ''XX000000'']\<rparr>"
  using crawl_inactive_refetched [where cfg = "active_cfg 2 100" and reg = inactive_registry
      and c = "''XX000000''" and prof = "profile_with ''DORMANT'' ''dissolved''" and ds = "[0, 0]"
      and st = "init_state (active_cfg 2 100) [''XX000000'', ''XX000000'']" and rest = "[]"]
  by (simp add: active_cfg_def inactive_registry_def alist_registry_def profile_with_def init_state_def
      numeral_2_eq_2)

text \<open>
  An officer whose search fails is not marked as expanded, so the same
  identity is searched again at the next company that lists it.
\<close>

theorem crawl_failed_search_repeated:
  "count_list (calls (scan_run (active_cfg 1 100) failing_search_registry [''AA111111'', ''BB222222'']))
     (Call_search ''PAT LEE'') = 2 \<and>
   scanned_officers (scan_run (active_cfg 1 100) failing_search_registry [''AA111111'', ''BB222222'']) = []"
  by code_simp

subsection \<open>The crawler theorems at a concrete run\<close>

theorem scan_network_depth_bound_witness:
  "int (node_depth (snd (''BB222222'', company_record ''BB222222'' (profile_with ''BETA'' ''active'') 1 1)))
     \<le> max_depth (active_cfg 1 100)"
proof -
  have "(''BB222222'', company_record ''BB222222'' (profile_with ''BETA'' ''active'') 1 1) \<in>
          set (companies (scan_network (active_cfg 1 100) js_registry [''AA111111'']))"
    by (simp add: js_companies)
  with scan_network_depth_bound [of "active_cfg 1 100" js_registry "[''AA111111'']"] show ?thesis
    by blast
qed

theorem reachable_depth_le_frontier_witness:
  "node_depth (snd (''AA111111'', company_record ''AA111111'' (profile_with ''ALPHA'' ''active'') 0 1))
     \<le> snd (''BB222222'', 1::nat)"
  by (rule reachable_depth_le_frontier [OF js_first_step js_first_step_company js_first_step_frontier])

theorem scan_run_no_corporate_search_witness:
  "Call_search ''ACME HOLDINGS LIMITED'' \<notin> set (calls (scan_run (active_cfg 2 100) acme_registry [''AA111111'']))"
  by (rule scan_run_no_corporate_search [OF acme_corporate])

theorem scan_run_officers_fetched_once_witness:
  "count_list (calls (scan_run (active_cfg 1 100) js_registry [''AA111111''])) (Call_officers ''BB222222'') = 1"
  using scan_run_officers_fetched_once [OF js_officers_bb, of "active_cfg 1 100" "[''AA111111'']"]
  by (simp add: js_companies)

theorem scan_network_depth0_seed_witness:
  "fst (''AA111111'', company_record ''AA111111'' (profile_with ''ALPHA'' ''active'') 0 1) \<in> set [''AA111111'']"
  by (rule scan_network_depth0_seed [of _ "active_cfg 1 100" js_registry])
     (simp_all add: js_companies company_record_def)

theorem scan_network_active_origin_witness:
  "\<exists>i as a. get_officer_appointments js_registry i = Inr as \<and> a \<in> set as \<and>
     ap_company_number a = Some ''BB222222'' \<and> ap_company_status a = Some ''active'' \<and>
     \<not> py_truthy (ap_resigned_on a)"
proof -
  have "\<exists>i as a. get_officer_appointments js_registry i = Inr as \<and> a \<in> set as \<and>
          ap_company_number a = Some (fst (''BB222222'', company_record ''BB222222'' (profile_with ''BETA'' ''active'') 1 1)) \<and>
          ap_company_status a = Some ''active'' \<and> \<not> py_truthy (ap_resigned_on a)"
    by (rule scan_network_active_origin [of "active_cfg 1 100" _ js_registry "[''AA111111'']"])
       (simp_all add: js_companies company_record_def)
  then show ?thesis by simp
qed

theorem scan_run_profiles_seeds_witness:
  "Call_profile ''ZZ000000'' \<in> set (calls (scan_run (active_cfg 0 100) js_registry [''AA111111'', ''ZZ000000''])) \<or>
   max_companies (active_cfg 0 100) \<le> int (length (scanned_companies (scan_run (active_cfg 0 100) js_registry [''AA111111'', ''ZZ000000''])))"
  by (rule scan_run_profiles_seeds) simp_all

theorem scan_network_active_status_witness:
  "node_status (snd (''BB222222'', company_record ''BB222222'' (profile_with ''BETA'' ''active'') 1 1)) = Some ''active''"
  by (rule scan_network_active_status [of "active_cfg 1 100" _ js_registry "[''AA111111'']"])
     (simp_all add: js_companies company_record_def)

text \<open>
  In the JOHN SMITH scenario the shared-director ranking has one entry,
  JOHN SMITH with \<open>company_count = 2\<close> at both companies, and the two companies
  form one cluster.
\<close>

theorem analysis_shared_director_scenario:
  "map (\<lambda>s. (sd_director_name s, sd_company_count s, map sc_company_number (sd_companies s)))
     (find_shared_directors (scan_network (active_cfg 1 100) js_registry [''AA111111''])) =
     [(''JOHN SMITH'', 2, [''AA111111'', ''BB222222''])] \<and>
   find_company_clusters (scan_network (active_cfg 1 100) js_registry [''AA111111'']) =
     [[''AA111111'', ''BB222222'']]"
  by code_simp

theorem find_company_clusters_nonsingleton_witness: "1 < length [''AA111111'', ''BB222222'']"
  by (rule find_company_clusters_nonsingleton
        [of _ "scan_network (active_cfg 1 100) js_registry [''AA111111'']"]) (simp add: js_clusters)

theorem find_company_clusters_connected_witness:
  "(''BB222222'', ''AA111111'') \<in>
     {(x, y). shares_director (connections (scan_network (active_cfg 1 100) js_registry [''AA111111''])) x y}\<^sup>*"
  by (rule find_company_clusters_connected [of "[''AA111111'', ''BB222222'']"]) (simp_all add: js_clusters)

theorem find_company_clusters_complete_witness:
  "\<exists>cl. cl \<in> set (find_company_clusters (scan_network (active_cfg 1 100) js_registry [''AA111111''])) \<and>
        ''AA111111'' \<in> set cl \<and> ''BB222222'' \<in> set cl"
proof -
  have "''AA111111'' \<in> set (map fst (companies (scan_network (active_cfg 1 100) js_registry [''AA111111''])))"
    by (simp add: js_companies)
  from find_company_clusters_complete [OF this js_shares_director] show ?thesis by blast
qed

end
