(* ===== verification/Api_Client.thy ===== *)
theory Api_Client
  imports Rate_Limiter Registry
begin

text \<open>
  The registry client \<open>CompaniesHouseClient\<close> (\<open>src/api_client.py\<close>).  Its state is
  the shared \<open>RateLimiter\<close>, the clock, the number of HTTP round trips made, the
  trace of requests and sleeps, and the on-disk profile cache (\<open>client_state\<close>).
  The HTTP server is an input: a function from the index of a round trip and the
  request (URL and query parameters) to the outcome (a response, or a transport
  failure raising a \<open>RequestException\<close>) and the time the round trip took.  A
  response carries its status, reason, \<open>Retry-After\<close> header and decoded JSON body;
  each endpoint's body type is a parameter (\<open>'b server\<close>).

  \<open>_make_request\<close> (lines 41--76) is one definition per iteration of its \<open>for\<close> loop
  (\<open>attempt\<close>, with the \<open>except\<close> clause \<open>request_failed\<close>) and a recursion over the
  attempt number that ends after \<open>Config.MAX_RETRIES\<close> attempts.  A Python exception
  is an \<open>Inl\<close> result; the state is returned on every path, since an exception does
  not undo the limiter's and the clock's changes.  The paginated calls, whose
  \<open>while True\<close> loops depend on the totals the server reports, are
  \<open>partial_function (option)\<close> definitions: \<open>None\<close> is a loop that never ends.
\<close>

subsection \<open>HTTP and the client state\<close>

type_synonym request = "string \<times> (string \<times> string) list"

datatype 'b http_result =
    Response nat string "string option" 'b
  | Transport_failure string

type_synonym 'b server = "nat \<Rightarrow> request \<Rightarrow> 'b http_result \<times> real"

datatype client_event = Sent request real | Slept real

record client_state =
  limiter :: rate_limiter
  clock :: real
  overrun :: real
  sent :: nat
  trace :: "client_event list"
  profile_cache :: "company_number \<Rightarrow> profile option"

text \<open>\<open>Config.MAX_RETRIES\<close> and \<open>Config.RETRY_DELAY\<close> (\<open>src/core/config.py\<close>, lines 49--50).\<close>

definition config_max_retries :: nat where
  "config_max_retries = 3"

definition config_retry_delay :: int where
  "config_retry_delay = 2"

definition ch_base_url :: string where
  "ch_base_url = ''https://api.company-information.service.gov.uk''"

text \<open>\<open>time.sleep(t)\<close>: a negative length raises \<open>ValueError\<close>.\<close>

definition py_sleep :: "real \<Rightarrow> client_state \<Rightarrow> api_error + client_state" where
  "py_sleep t c =
     (if t < 0 then Inl (Value_error_exc ''sleep length must be non-negative'')
      else Inr (c\<lparr>clock := clock c + t, trace := trace c @ [Slept t]\<rparr>))"

text \<open>
  \<open>int(s)\<close> for a string (\<open>PyLong_FromUnicodeObject\<close> in base 10): white space
  (\<open>str.isspace\<close>, here on the 8-bit characters) is stripped from both ends, then an
  optional sign and decimal digits follow, where a single underscore may separate
  two digits.  Anything else raises \<open>ValueError\<close> (\<open>None\<close>).
\<close>

definition py_isspace :: "char \<Rightarrow> bool" where
  "py_isspace c \<longleftrightarrow> (of_char c :: nat) \<in> {9, 10, 11, 12, 13, 28, 29, 30, 31, 32, 133, 160}"

definition py_int_strip :: "string \<Rightarrow> string" where
  "py_int_strip s = rev (dropWhile py_isspace (rev (dropWhile py_isspace s)))"

definition is_digit :: "char \<Rightarrow> bool" where
  "is_digit c \<longleftrightarrow> 48 \<le> (of_char c :: nat) \<and> (of_char c :: nat) \<le> 57"

fun digits_value :: "int \<Rightarrow> string \<Rightarrow> int option" where
  "digits_value n [] = Some n"
| "digits_value n (c # cs) =
     (if is_digit c then digits_value (10 * n + int (of_char c - 48)) cs
      else if c = CHR ''_'' then
        (case cs of
           d # _ \<Rightarrow> if is_digit d then digits_value n cs else None
         | [] \<Rightarrow> None)
      else None)"

definition py_digits :: "string \<Rightarrow> int option" where
  "py_digits s = (case s of d # _ \<Rightarrow> if is_digit d then digits_value 0 s else None | [] \<Rightarrow> None)"

definition py_int :: "string \<Rightarrow> int option" where
  "py_int s =
     (case py_int_strip s of
        [] \<Rightarrow> None
      | c # cs \<Rightarrow>
          if c = CHR ''-'' then map_option uminus (py_digits cs)
          else if c = CHR ''+'' then py_digits cs
          else py_digits (c # cs))"

text \<open>\<open>int(response.headers.get('Retry-After', Config.RETRY_DELAY))\<close>\<close>

definition retry_after_value :: "string option \<Rightarrow> int option" where
  "retry_after_value h = (case h of None \<Rightarrow> Some config_retry_delay | Some s \<Rightarrow> py_int s)"

text \<open>
  The URL \<open>requests\<close> puts into the message of an \<open>HTTPError\<close>: the query string
  appended (percent-encoding is not modelled).
\<close>

fun query_string :: "(string \<times> string) list \<Rightarrow> string" where
  "query_string [] = []"
| "query_string [(k, v)] = k @ ''='' @ v"
| "query_string ((k, v) # ps) = k @ ''='' @ v @ ''&'' @ query_string ps"

definition request_url :: "request \<Rightarrow> string" where
  "request_url rq = (if snd rq = [] then fst rq else fst rq @ ''?'' @ query_string (snd rq))"

text \<open>\<open>response.raise_for_status()\<close> raises for the status codes 400--599.\<close>

definition http_error_status :: "nat \<Rightarrow> bool" where
  "http_error_status code \<longleftrightarrow> 400 \<le> code \<and> code < 600"

subsection \<open>\<open>_make_request\<close> (lines 41--76)\<close>

text \<open>The outcome of one iteration: the call ends (returns or raises), or the loop goes on.\<close>

datatype 'b step =
    Finish "api_error + nat \<times> 'b" client_state
  | Again client_state

text \<open>Lines 71--74: re-raise on the last attempt, else back off \<open>RETRY_DELAY * (attempt + 1)\<close>.\<close>

definition request_failed :: "nat \<Rightarrow> api_error \<Rightarrow> client_state \<Rightarrow> 'b step" where
  "request_failed a e c =
     (if a = config_max_retries - 1 then Finish (Inl e) c
      else (case py_sleep (of_int config_retry_delay * of_nat (a + 1)) c of
              Inl e' \<Rightarrow> Finish (Inl e') c
            | Inr c' \<Rightarrow> Again c'))"

text \<open>Lines 61--69 and the handler of lines 71--74, once the round trip has been made.\<close>

definition handle_outcome :: "nat \<Rightarrow> request \<Rightarrow> 'b http_result \<Rightarrow> client_state \<Rightarrow> 'b step" where
  "handle_outcome a rq res c1 =
     (case res of
        Transport_failure msg \<Rightarrow> request_failed a (Request_failed msg) c1
      | Response code reason hdr body \<Rightarrow>
          if code = 429 then
            (case retry_after_value hdr of
               None \<Rightarrow> Finish (Inl (Value_error_exc ''invalid literal for int() with base 10'')) c1
             | Some k \<Rightarrow>
                 (case py_sleep (of_int k) c1 of
                    Inl e \<Rightarrow> Finish (Inl e) c1
                  | Inr c2 \<Rightarrow> Again c2))
          else if http_error_status code
          then request_failed a (Http_error code reason (request_url rq)) c1
          else Finish (Inr (code, body)) c1)"

text \<open>Lines 54--59: acquire a grant from the limiter, then make the round trip.\<close>

definition attempt :: "'b server \<Rightarrow> request \<Rightarrow> nat \<Rightarrow> client_state \<Rightarrow> 'b step" where
  "attempt srv rq a c =
     (case acquire (limiter c) (clock c) (overrun c) of
        Inl _ \<Rightarrow> Finish (Inl Index_error_exc) c
      | Inr (now, rl) \<Rightarrow>
          handle_outcome a rq (fst (srv (sent c) rq))
            (c\<lparr>limiter := rl, clock := now + snd (srv (sent c) rq), sent := Suc (sent c),
                trace := trace c @ [Sent rq now]\<rparr>))"

function make_request_from ::
  "'b server \<Rightarrow> request \<Rightarrow> nat \<Rightarrow> client_state \<Rightarrow> (api_error + nat \<times> 'b) \<times> client_state" where
  "make_request_from srv rq a c =
     (if a < config_max_retries then
        (case attempt srv rq a c of
           Finish r c' \<Rightarrow> (r, c')
         | Again c' \<Rightarrow> make_request_from srv rq (Suc a) c')
      else (Inl (Retries_exhausted (fst rq)), c))"
  by pat_completeness auto
termination
  by (relation "measure (\<lambda>(srv, rq, a, c). config_max_retries - a)") auto

declare make_request_from.simps [simp del]

definition make_request :: "'b server \<Rightarrow> request \<Rightarrow> client_state \<Rightarrow> (api_error + nat \<times> 'b) \<times> client_state" where
  "make_request srv rq c = make_request_from srv rq 0 c"

text \<open>
  A new client (lines 18--39): a fresh limiter at the configured rate, an empty
  cache.  The clock's starting value and the amount \<open>overrun \<ge> 0\<close> by which the
  limiter's sleeps overshoot are parameters of the environment.
\<close>

definition new_client :: "real \<Rightarrow> real \<Rightarrow> client_state" where
  "new_client t0 ov =
     \<lparr>limiter = new_rate_limiter None None, clock = t0, overrun = ov, sent = 0, trace = [],
      profile_cache = (\<lambda>_. None)\<rparr>"

text \<open>A sequence of calls on one client, the exceptions being caught by the caller.\<close>

fun make_requests :: "'b server \<Rightarrow> request list \<Rightarrow> client_state \<Rightarrow> client_state" where
  "make_requests srv [] c = c"
| "make_requests srv (rq # rqs) c = make_requests srv rqs (snd (make_request srv rq c))"

text \<open>The times at which round trips were sent, from the trace.\<close>

fun sent_times :: "client_event list \<Rightarrow> real list" where
  "sent_times [] = []"
| "sent_times (Sent rq t # es) = t # sent_times es"
| "sent_times (Slept d # es) = sent_times es"

text \<open>
  The client's rate invariant: the limiter's invariant holds for the history of
  send times, with its last grant strictly before the clock.
\<close>

definition client_rate_inv :: "client_state \<Rightarrow> bool" where
  "client_rate_inv c \<longleftrightarrow>
     0 < max_requests (limiter c) \<and> 0 \<le> overrun c \<and>
     (\<exists>T. T < clock c \<and> rl_inv (limiter c) T (sent_times (trace c)))"

subsection \<open>The endpoints\<close>

text \<open>
  A page of a listing: \<open>items\<close>, and the total under the key \<open>total_results\<close>
  (officers, searches) or \<open>total_count\<close> (filing history); an absent key reads as
  \<open>[]\<close> or \<open>0\<close>.
\<close>

record 'a page =
  page_items :: "'a list option"
  page_total_results :: "int option"
  page_total_count :: "int option"

definition show_int :: "int \<Rightarrow> string" where
  "show_int i = (if i < 0 then ''-'' @ show_nat (nat (- i)) else show_nat (nat i))"

text \<open>
  \<open>get_officers\<close> (lines 199--234).  The \<open>params\<close> dict with \<open>start_index\<close> is built
  but not passed to \<open>_make_request\<close> (line 221): every page request is the bare URL.
\<close>

partial_function (option) officers_loop ::
  "'a page server \<Rightarrow> string \<Rightarrow> nat \<Rightarrow> int \<Rightarrow> 'a list \<Rightarrow> client_state \<Rightarrow>
   ((api_error + 'a list) \<times> client_state) option" where
  "officers_loop srv url ipp start acc c =
     (case make_request srv (url, []) c of
        (Inl e, c') \<Rightarrow> Some (Inl e, c')
      | (Inr (code, data), c') \<Rightarrow>
          (let items = get_default (page_items data) [];
               acc' = acc @ items;
               total = get_default (page_total_results data) 0
           in if total \<le> start + int (length items) then Some (Inr acc', c')
              else officers_loop srv url ipp (start + int ipp) acc' c'))"

definition officers_url :: "company_number \<Rightarrow> string" where
  "officers_url cn = ch_base_url @ ''/company/'' @ cn @ ''/officers''"

definition get_officers_api ::
  "'a page server \<Rightarrow> company_number \<Rightarrow> nat \<Rightarrow> client_state \<Rightarrow>
   ((api_error + 'a list) \<times> client_state) option" where
  "get_officers_api srv cn ipp c = officers_loop srv (officers_url cn) ipp 0 [] c"

text \<open>
  \<open>search_officers\<close> (lines 291--327): the query and the paging parameters are
  passed; the loop also stops once \<open>start_index\<close> has reached 200.
\<close>

definition search_params :: "string \<Rightarrow> nat \<Rightarrow> nat \<Rightarrow> (string \<times> string) list" where
  "search_params name ipp start =
     [(''q'', name), (''items_per_page'', show_nat ipp), (''start_index'', show_nat start)]"

partial_function (option) search_officers_loop ::
  "'a page server \<Rightarrow> string \<Rightarrow> nat \<Rightarrow> nat \<Rightarrow> 'a list \<Rightarrow> client_state \<Rightarrow>
   ((api_error + 'a list) \<times> client_state) option" where
  "search_officers_loop srv name ipp start acc c =
     (case make_request srv (ch_base_url @ ''/search/officers'', search_params name ipp start) c of
        (Inl e, c') \<Rightarrow> Some (Inl e, c')
      | (Inr (code, data), c') \<Rightarrow>
          (let items = get_default (page_items data) [];
               acc' = acc @ items;
               total = get_default (page_total_results data) 0
           in if total \<le> int start + int (length items) \<or> 200 \<le> start then Some (Inr acc', c')
              else search_officers_loop srv name ipp (start + ipp) acc' c'))"

definition search_officers_api ::
  "'a page server \<Rightarrow> string \<Rightarrow> nat \<Rightarrow> client_state \<Rightarrow> ((api_error + 'a list) \<times> client_state) option" where
  "search_officers_api srv name ipp c = search_officers_loop srv name ipp 0 [] c"

text \<open>
  \<open>search_companies\<close> (lines 236--289): the filters are collected into \<open>params\<close>,
  which is not passed (line 270); an exception is printed and ends the loop with
  the results so far; the loop also ends at 1000 results or an empty page.
\<close>

partial_function (option) search_companies_loop ::
  "'a page server \<Rightarrow> nat \<Rightarrow> int \<Rightarrow> 'a list \<Rightarrow> client_state \<Rightarrow> ('a list \<times> client_state) option" where
  "search_companies_loop srv ipp start acc c =
     (if length acc < 1000 then
        (case make_request srv (ch_base_url @ ''/search/companies'', []) c of
           (Inl e, c') \<Rightarrow> Some (acc, c')
         | (Inr (code, data), c') \<Rightarrow>
             (let items = get_default (page_items data) []
              in if items = [] then Some (acc, c')
                 else
                   let acc' = acc @ items;
                       total = get_default (page_total_results data) 0
                   in if total \<le> start + int (length items) \<or> total = 0 then Some (acc', c')
                      else search_companies_loop srv ipp (start + int ipp) acc' c'))
      else Some (acc, c))"

definition search_companies_api ::
  "'a page server \<Rightarrow> string option \<Rightarrow> string option \<Rightarrow> string option \<Rightarrow> nat \<Rightarrow> client_state \<Rightarrow>
   ('a list \<times> client_state) option" where
  "search_companies_api srv query status ctype ipp c = search_companies_loop srv ipp 0 [] c"

text \<open>
  \<open>get_filing_history\<close> (lines 105--144): paging parameters (and the category)
  passed; the total is read from \<open>total_count\<close>.
\<close>

definition filing_params :: "string option \<Rightarrow> nat \<Rightarrow> int \<Rightarrow> (string \<times> string) list" where
  "filing_params cat ipp start =
     [(''items_per_page'', show_nat ipp), (''start_index'', show_int start)] @
     (case cat of Some k \<Rightarrow> if k = [] then [] else [(''category'', k)] | None \<Rightarrow> [])"

partial_function (option) filing_history_loop ::
  "'a page server \<Rightarrow> company_number \<Rightarrow> string option \<Rightarrow> nat \<Rightarrow> int \<Rightarrow> 'a list \<Rightarrow> client_state \<Rightarrow>
   ((api_error + 'a list) \<times> client_state) option" where
  "filing_history_loop srv cn cat ipp start acc c =
     (case make_request srv (ch_base_url @ ''/company/'' @ cn @ ''/filing-history'', filing_params cat ipp start) c of
        (Inl e, c') \<Rightarrow> Some (Inl e, c')
      | (Inr (code, data), c') \<Rightarrow>
          (let items = get_default (page_items data) [];
               acc' = acc @ items;
               total = get_default (page_total_count data) 0
           in if total \<le> start + int (length items) then Some (Inr acc', c')
              else filing_history_loop srv cn cat ipp (start + int ipp) acc' c'))"

definition get_filing_history_api ::
  "'a page server \<Rightarrow> company_number \<Rightarrow> string option \<Rightarrow> nat \<Rightarrow> client_state \<Rightarrow>
   ((api_error + 'a list) \<times> client_state) option" where
  "get_filing_history_api srv cn cat ipp c = filing_history_loop srv cn cat ipp 0 [] c"

text \<open>\<open>get_officer_appointments\<close> (lines 329--342) and \<open>get_company_search\<close> (lines 344--364).\<close>

definition get_officer_appointments_api ::
  "'a page server \<Rightarrow> string \<Rightarrow> client_state \<Rightarrow> (api_error + 'a list) \<times> client_state" where
  "get_officer_appointments_api srv oid c =
     (case make_request srv (ch_base_url @ ''/officers/'' @ oid @ ''/appointments'', []) c of
        (Inl e, c') \<Rightarrow> (Inl e, c')
      | (Inr (code, data), c') \<Rightarrow> (Inr (get_default (page_items data) []), c'))"

definition get_company_search_api ::
  "'a page server \<Rightarrow> string \<Rightarrow> nat \<Rightarrow> client_state \<Rightarrow> (api_error + 'a list) \<times> client_state" where
  "get_company_search_api srv q ipp c =
     (case make_request srv (ch_base_url @ ''/search/companies'', [(''q'', q), (''items_per_page'', show_nat ipp)]) c of
        (Inl e, c') \<Rightarrow> (Inl e, c')
      | (Inr (code, data), c') \<Rightarrow> (Inr (get_default (page_items data) []), c'))"

text \<open>
  \<open>get_company_profile\<close> (lines 78--103): a cached profile is returned without a
  request; a fetched one is cached.
\<close>

definition get_company_profile_api ::
  "profile server \<Rightarrow> company_number \<Rightarrow> client_state \<Rightarrow> (api_error + profile) \<times> client_state" where
  "get_company_profile_api srv cn c =
     (case profile_cache c cn of
        Some p \<Rightarrow> (Inr p, c)
      | None \<Rightarrow>
          (case make_request srv (ch_base_url @ ''/company/'' @ cn, []) c of
             (Inl e, c') \<Rightarrow> (Inl e, c')
           | (Inr (code, p), c') \<Rightarrow> (Inr p, c'\<lparr>profile_cache := (profile_cache c')(cn \<mapsto> p)\<rparr>)))"

text \<open>\<open>get_rate_limit_status\<close> (lines 366--378).\<close>

definition get_rate_limit_status :: "client_state \<Rightarrow> (int \<times> real \<times> int \<times> real) \<times> client_state" where
  "get_rate_limit_status c =
     (let (rem, rl) = get_remaining_requests (limiter c) (clock c)
      in ((rem, get_reset_time rl (clock c), max_requests rl, period rl), c\<lparr>limiter := rl\<rparr>))"

subsection \<open>\<open>int()\<close>\<close>

lemmas py_int_unfold = py_int_def py_int_strip_def py_isspace_def py_digits_def is_digit_def

text \<open>Blanks around the value and digit-group underscores are accepted, as by \<open>int()\<close>.\<close>

lemma py_int_accepts: "py_int ''5 '' = Some 5 \<and> py_int '' -12'' = Some (-12) \<and> py_int ''1_000'' = Some 1000"
  by (simp add: py_int_unfold)

lemma py_int_rejects: "py_int ''1__0'' = None \<and> py_int ''_1'' = None \<and> py_int ''1_'' = None \<and> py_int ''+'' = None"
  by (simp add: py_int_unfold)

subsection \<open>One attempt\<close>

lemma acquire_granted:
  "0 < max_requests rl \<Longrightarrow>
   \<exists>g rl'. acquire rl now d = Inr (g, rl') \<and> max_requests rl' = max_requests rl \<and> period rl' = period rl"
  by (auto simp: acquire_def Let_def split: list.split)

lemma attempt_granted:
  assumes "0 < max_requests (limiter c)"
  shows "\<exists>g rl. max_requests rl = max_requests (limiter c) \<and> period rl = period (limiter c) \<and>
           attempt srv rq a c =
             handle_outcome a rq (fst (srv (sent c) rq))
               (c\<lparr>limiter := rl, clock := g + snd (srv (sent c) rq), sent := Suc (sent c),
                   trace := trace c @ [Sent rq g]\<rparr>)"
proof -
  from acquire_granted [OF assms, of "clock c" "overrun c"] obtain g rl' where
    "acquire (limiter c) (clock c) (overrun c) = Inr (g, rl')"
    "max_requests rl' = max_requests (limiter c)" "period rl' = period (limiter c)"
    by blast
  then show ?thesis by (intro exI [of _ g] exI [of _ rl']) (simp add: attempt_def)
qed

lemma py_sleep_Inr: "0 \<le> t \<Longrightarrow> py_sleep t c = Inr (c\<lparr>clock := clock c + t, trace := trace c @ [Slept t]\<rparr>)"
  by (simp add: py_sleep_def)

lemma py_sleep_frame:
  "py_sleep t c = Inr c' \<Longrightarrow>
   sent c' = sent c \<and> limiter c' = limiter c \<and> overrun c' = overrun c \<and>
   profile_cache c' = profile_cache c \<and> clock c' = clock c + t \<and> 0 \<le> t \<and>
   trace c' = trace c @ [Slept t]"
  by (auto simp: py_sleep_def split: if_splits)

lemma handle_outcome_frame:
  "(handle_outcome a rq res c1 = Finish r c' \<or> handle_outcome a rq res c1 = Again c') \<Longrightarrow>
   sent c' = sent c1 \<and> limiter c' = limiter c1 \<and> overrun c' = overrun c1 \<and>
   profile_cache c' = profile_cache c1 \<and> clock c1 \<le> clock c' \<and>
   (\<exists>ts. trace c' = trace c1 @ map Slept ts)"
  by (auto simp: handle_outcome_def request_failed_def py_sleep_def
           split: http_result.splits option.splits if_splits sum.splits
           intro: exI [of _ "[]"] exI [of _ "[_]"])

lemma attempt_sent:
  "(attempt srv rq a c = Finish r c' \<or> attempt srv rq a c = Again c') \<Longrightarrow> sent c' \<le> Suc (sent c)"
  by (auto simp: attempt_def split: sum.splits prod.splits dest!: handle_outcome_frame)

subsection \<open>The retry loop\<close>

lemma make_request_from_sent:
  "sent (snd (make_request_from srv rq a c)) \<le> sent c + (config_max_retries - a)"
proof (induction srv rq a c rule: make_request_from.induct)
  case (1 srv rq a c)
  show ?case
  proof (cases "a < config_max_retries")
    case True
    then show ?thesis
    proof (cases "attempt srv rq a c")
      case (Finish r c')
      with True attempt_sent [of srv rq a c r c'] show ?thesis
        by (simp add: make_request_from.simps)
    next
      case (Again c')
      with True attempt_sent [of srv rq a c _ c'] "1.IH" [OF True Again] show ?thesis
        by (simp add: make_request_from.simps)
    qed
  next
    case False
    then show ?thesis by (simp add: make_request_from.simps)
  qed
qed

lemma make_request_from_Again:
  "a < config_max_retries \<Longrightarrow> attempt srv rq a c = Again c' \<Longrightarrow>
   make_request_from srv rq a c = make_request_from srv rq (Suc a) c'"
  by (simp add: make_request_from.simps)

lemma make_request_from_Finish:
  "a < config_max_retries \<Longrightarrow> attempt srv rq a c = Finish r c' \<Longrightarrow> make_request_from srv rq a c = (r, c')"
  by (simp add: make_request_from.simps)

lemma make_request_from_exhausted:
  "config_max_retries \<le> a \<Longrightarrow> make_request_from srv rq a c = (Inl (Retries_exhausted (fst rq)), c)"
  by (simp add: make_request_from.simps)

text \<open>The outcomes of one attempt whose grant is given, by the class of the answer.\<close>

lemma attempt_http_error:
  assumes "fst (srv (sent c) rq) = Response code reason hdr body" "code \<noteq> 429" "http_error_status code"
    and "0 < max_requests (limiter c)"
  shows "\<exists>g c'. max_requests (limiter c') = max_requests (limiter c) \<and> sent c' = Suc (sent c) \<and>
           (if a = config_max_retries - 1
            then attempt srv rq a c = Finish (Inl (Http_error code reason (request_url rq))) c' \<and>
                 trace c' = trace c @ [Sent rq g]
            else attempt srv rq a c = Again c' \<and>
                 trace c' = trace c @ [Sent rq g, Slept (of_int config_retry_delay * of_nat (a + 1))])"
proof -
  from attempt_granted [OF assms(4), of srv rq a] obtain g rl where
    rl: "max_requests rl = max_requests (limiter c)" and
    at: "attempt srv rq a c = handle_outcome a rq (fst (srv (sent c) rq))
           (c\<lparr>limiter := rl, clock := g + snd (srv (sent c) rq), sent := Suc (sent c),
               trace := trace c @ [Sent rq g]\<rparr>)"
    by blast
  let ?c1 = "c\<lparr>limiter := rl, clock := g + snd (srv (sent c) rq), sent := Suc (sent c),
               trace := trace c @ [Sent rq g]\<rparr>"
  let ?t = "of_int config_retry_delay * of_nat (a + 1) :: real"
  have out: "attempt srv rq a c = request_failed a (Http_error code reason (request_url rq)) ?c1"
    using assms(1-3) by (simp add: at handle_outcome_def)
  show ?thesis
  proof (cases "a = config_max_retries - 1")
    case True
    have "attempt srv rq a c = Finish (Inl (Http_error code reason (request_url rq))) ?c1"
      unfolding out using True by (simp add: request_failed_def)
    with rl True show ?thesis by (intro exI [of _ g] exI [of _ ?c1]) simp
  next
    case False
    have "0 \<le> ?t" by (simp add: config_retry_delay_def)
    then show ?thesis
      using rl False
      by (intro exI [of _ g] exI [of _ "?c1\<lparr>clock := clock ?c1 + ?t, trace := trace ?c1 @ [Slept ?t]\<rparr>"])
         (simp add: out request_failed_def py_sleep_Inr)
  qed
qed

lemma attempt_throttled:
  assumes "fst (srv (sent c) rq) = Response 429 reason hdr body" "retry_after_value hdr = Some k" "0 \<le> k"
    and "0 < max_requests (limiter c)"
  shows "\<exists>g c'. max_requests (limiter c') = max_requests (limiter c) \<and> sent c' = Suc (sent c) \<and>
           attempt srv rq a c = Again c' \<and> trace c' = trace c @ [Sent rq g, Slept (of_int k)]"
proof -
  from attempt_granted [OF assms(4), of srv rq a] obtain g rl where
    rl: "max_requests rl = max_requests (limiter c)" and
    at: "attempt srv rq a c = handle_outcome a rq (fst (srv (sent c) rq))
           (c\<lparr>limiter := rl, clock := g + snd (srv (sent c) rq), sent := Suc (sent c),
               trace := trace c @ [Sent rq g]\<rparr>)"
    by blast
  show ?thesis
    using assms(1-3) rl by (intro exI [of _ g]) (auto simp: at handle_outcome_def py_sleep_def)
qed

lemma attempt_invalid_retry_after:
  assumes "fst (srv (sent c) rq) = Response 429 reason hdr body" "retry_after_value hdr = None"
    and "0 < max_requests (limiter c)"
  shows "\<exists>g c'. sent c' = Suc (sent c) \<and> trace c' = trace c @ [Sent rq g] \<and>
           attempt srv rq a c = Finish (Inl (Value_error_exc ''invalid literal for int() with base 10'')) c'"
proof -
  from attempt_granted [OF assms(3), of srv rq a] obtain g rl where
    at: "attempt srv rq a c = handle_outcome a rq (fst (srv (sent c) rq))
           (c\<lparr>limiter := rl, clock := g + snd (srv (sent c) rq), sent := Suc (sent c),
               trace := trace c @ [Sent rq g]\<rparr>)"
    by blast
  show ?thesis
    using assms(1,2) by (intro exI [of _ g]) (auto simp: at handle_outcome_def)
qed

lemma attempt_success:
  assumes "fst (srv (sent c) rq) = Response code reason hdr body" "code \<noteq> 429" "\<not> http_error_status code"
    and "0 < max_requests (limiter c)"
  shows "\<exists>g c'. sent c' = Suc (sent c) \<and> trace c' = trace c @ [Sent rq g] \<and>
           attempt srv rq a c = Finish (Inr (code, body)) c'"
proof -
  from attempt_granted [OF assms(4), of srv rq a] obtain g rl where
    at: "attempt srv rq a c = handle_outcome a rq (fst (srv (sent c) rq))
           (c\<lparr>limiter := rl, clock := g + snd (srv (sent c) rq), sent := Suc (sent c),
               trace := trace c @ [Sent rq g]\<rparr>)"
    by blast
  show ?thesis
    using assms(1-3) by (intro exI [of _ g]) (auto simp: at handle_outcome_def)
qed

lemma attempt_transport_failure:
  assumes "fst (srv (sent c) rq) = Transport_failure msg" "a < config_max_retries - 1"
    and "0 < max_requests (limiter c)"
  shows "\<exists>g c'. max_requests (limiter c') = max_requests (limiter c) \<and> sent c' = Suc (sent c) \<and>
           attempt srv rq a c = Again c' \<and>
           trace c' = trace c @ [Sent rq g, Slept (of_int config_retry_delay * of_nat (a + 1))]"
proof -
  from attempt_granted [OF assms(3), of srv rq a] obtain g rl where
    rl: "max_requests rl = max_requests (limiter c)" and
    at: "attempt srv rq a c = handle_outcome a rq (fst (srv (sent c) rq))
           (c\<lparr>limiter := rl, clock := g + snd (srv (sent c) rq), sent := Suc (sent c),
               trace := trace c @ [Sent rq g]\<rparr>)"
    by blast
  show ?thesis
    using assms(1,2) rl
    by (intro exI [of _ g]) (auto simp: at handle_outcome_def request_failed_def py_sleep_def
                                        config_retry_delay_def)
qed

lemma config_max_retries_3: "config_max_retries = 3"
  by (simp add: config_max_retries_def)

lemmas attempt_unfold = make_request_def make_request_from_Again make_request_from_Finish
  make_request_from_exhausted config_max_retries_3 config_retry_delay_def numeral_2_eq_2 numeral_3_eq_3

subsection \<open>What \<open>_make_request\<close> does\<close>

text \<open>
  Claim C14.  A call makes at most \<open>Config.MAX_RETRIES\<close> HTTP round trips, whatever
  the server answers.
\<close>

theorem make_request_round_trips:
  "sent (snd (make_request srv rq c)) \<le> sent c + config_max_retries"
  using make_request_from_sent [of srv rq 0 c] by (simp add: make_request_def)

text \<open>
  An HTTP error status other than 429, a 404 included, is retried like a
  transient failure: against a server that always answers it, the call makes three
  round trips with back-off sleeps of 2 s and 4 s and then raises the
  \<open>HTTPError\<close>.
\<close>

theorem make_request_http_error_retried:
  assumes srv: "\<forall>n. fst (srv n rq) = Response code reason hdr body"
    and st: "code \<noteq> 429" "http_error_status code" and pos: "0 < max_requests (limiter c)"
  shows "\<exists>t1 t2 t3 c'. make_request srv rq c = (Inl (Http_error code reason (request_url rq)), c') \<and>
           trace c' = trace c @ [Sent rq t1, Slept 2, Sent rq t2, Slept 4, Sent rq t3] \<and>
           sent c' = sent c + 3"
proof -
  obtain g1 c1 where c1: "max_requests (limiter c1) = max_requests (limiter c)" "sent c1 = Suc (sent c)"
      "attempt srv rq 0 c = Again c1" "trace c1 = trace c @ [Sent rq g1, Slept 2]"
    using attempt_http_error [where srv = srv and c = c and a = 0, OF srv [rule_format] st pos]
    by (auto simp: config_max_retries_3 config_retry_delay_def)
  obtain g2 c2 where c2: "max_requests (limiter c2) = max_requests (limiter c)" "sent c2 = Suc (sent c1)"
      "attempt srv rq 1 c1 = Again c2" "trace c2 = trace c1 @ [Sent rq g2, Slept 4]"
    using attempt_http_error [where srv = srv and c = c1 and a = 1, OF srv [rule_format] st] c1(1) pos
    by (auto simp: config_max_retries_3 config_retry_delay_def)
  obtain g3 c3 where c3: "sent c3 = Suc (sent c2)"
      "attempt srv rq 2 c2 = Finish (Inl (Http_error code reason (request_url rq))) c3"
      "trace c3 = trace c2 @ [Sent rq g3]"
    using attempt_http_error [where srv = srv and c = c2 and a = 2, OF srv [rule_format] st] c2(1) c1(1) pos
    by (auto simp: config_max_retries_3)
  have "make_request srv rq c = (Inl (Http_error code reason (request_url rq)), c3)"
    using c1(3) c2(3) c3(2) by (simp add: attempt_unfold)
  with c1 c2 c3 show ?thesis by (intro exI [of _ g1] exI [of _ g2] exI [of _ g3] exI [of _ c3]) simp
qed

text \<open>
  Throttling is escalated: against a server that always answers 429
  with a valid \<open>Retry-After: k\<close>, the call makes three round trips, sleeps \<open>k\<close>
  seconds after each, and raises \<open>Failed to request ... after 3 attempts\<close>.
\<close>

theorem make_request_throttled_escalates:
  assumes srv: "\<forall>n. fst (srv n rq) = Response 429 reason hdr body"
    and k: "retry_after_value hdr = Some k" "0 \<le> k" and pos: "0 < max_requests (limiter c)"
  shows "\<exists>t1 t2 t3 c'. make_request srv rq c = (Inl (Retries_exhausted (fst rq)), c') \<and>
           trace c' = trace c @ [Sent rq t1, Slept (of_int k), Sent rq t2, Slept (of_int k),
                                 Sent rq t3, Slept (of_int k)] \<and>
           sent c' = sent c + 3"
proof -
  obtain g1 c1 where c1: "max_requests (limiter c1) = max_requests (limiter c)" "sent c1 = Suc (sent c)"
      "attempt srv rq 0 c = Again c1" "trace c1 = trace c @ [Sent rq g1, Slept (of_int k)]"
    using attempt_throttled [where srv = srv and c = c and a = 0, OF srv [rule_format] k pos] by blast
  obtain g2 c2 where c2: "max_requests (limiter c2) = max_requests (limiter c)" "sent c2 = Suc (sent c1)"
      "attempt srv rq 1 c1 = Again c2" "trace c2 = trace c1 @ [Sent rq g2, Slept (of_int k)]"
    using attempt_throttled [where srv = srv and c = c1 and a = 1, OF srv [rule_format] k] c1(1) pos by auto
  obtain g3 c3 where c3: "sent c3 = Suc (sent c2)"
      "attempt srv rq 2 c2 = Again c3" "trace c3 = trace c2 @ [Sent rq g3, Slept (of_int k)]"
    using attempt_throttled [where srv = srv and c = c2 and a = 2, OF srv [rule_format] k] c2(1) c1(1) pos by auto
  have "make_request srv rq c = (Inl (Retries_exhausted (fst rq)), c3)"
    using c1(3) c2(3) c3(2) by (simp add: attempt_unfold)
  with c1 c2 c3 show ?thesis by (intro exI [of _ g1] exI [of _ g2] exI [of _ g3] exI [of _ c3]) simp
qed

text \<open>
  Claim C15.  A \<open>Retry-After\<close> value that \<open>int()\<close> rejects (the HTTP-date form, for
  instance) ends the call at once with \<open>ValueError\<close>: the throttled request is not
  retried.
\<close>

theorem make_request_bad_retry_after:
  assumes "fst (srv (sent c) rq) = Response 429 reason (Some h) body" "py_int h = None"
    and "0 < max_requests (limiter c)"
  shows "\<exists>t c'. make_request srv rq c = (Inl (Value_error_exc ''invalid literal for int() with base 10''), c') \<and>
           trace c' = trace c @ [Sent rq t] \<and> sent c' = Suc (sent c)"
proof -
  have "retry_after_value (Some h) = None" using assms(2) by (simp add: retry_after_value_def)
  from attempt_invalid_retry_after [where srv = srv and c = c and a = 0, OF assms(1) this assms(3)] obtain g c' where
    "sent c' = Suc (sent c)" "trace c' = trace c @ [Sent rq g]"
    "attempt srv rq 0 c = Finish (Inl (Value_error_exc ''invalid literal for int() with base 10'')) c'"
    by blast
  then show ?thesis by (intro exI [of _ g] exI [of _ c']) (simp add: attempt_unfold)
qed

text \<open>
  A transport failure is retried after a back-off of 2 s, and a success
  on the second round trip is returned.
\<close>

theorem make_request_transient_recovered:
  assumes "fst (srv (sent c) rq) = Transport_failure msg"
    and "fst (srv (Suc (sent c)) rq) = Response code reason hdr body" "code \<noteq> 429" "\<not> http_error_status code"
    and pos: "0 < max_requests (limiter c)"
  shows "\<exists>t1 t2 c'. make_request srv rq c = (Inr (code, body), c') \<and>
           trace c' = trace c @ [Sent rq t1, Slept 2, Sent rq t2] \<and> sent c' = sent c + 2"
proof -
  obtain g1 c1 where c1: "max_requests (limiter c1) = max_requests (limiter c)" "sent c1 = Suc (sent c)"
      "attempt srv rq 0 c = Again c1" "trace c1 = trace c @ [Sent rq g1, Slept 2]"
    using attempt_transport_failure [where srv = srv and c = c and a = 0, OF assms(1) _ pos]
    by (auto simp: config_max_retries_3 config_retry_delay_def)
  have "fst (srv (sent c1) rq) = Response code reason hdr body" using c1(2) assms(2) by simp
  from attempt_success [where srv = srv and c = c1 and a = 1, OF this assms(3,4)] c1(1) pos obtain g2 c2 where
    c2: "sent c2 = Suc (sent c1)" "trace c2 = trace c1 @ [Sent rq g2]"
      "attempt srv rq 1 c1 = Finish (Inr (code, body)) c2"
    by auto
  have "make_request srv rq c = (Inr (code, body), c2)"
    using c1(3) c2(3) by (simp add: attempt_unfold)
  with c1 c2 show ?thesis by (intro exI [of _ g1] exI [of _ g2] exI [of _ c2]) simp
qed

subsection \<open>The client keeps to the rate limit\<close>

lemma sent_times_append [simp]: "sent_times (xs @ ys) = sent_times xs @ sent_times ys"
  by (induction xs rule: sent_times.induct) auto

lemma sent_times_slept [simp]: "sent_times (map Slept ts) = []"
  by (induction ts) auto

lemma attempt_rate_inv:
  assumes inv: "client_rate_inv c" and lat: "0 < snd (srv (sent c) rq)"
    and res: "attempt srv rq a c = Finish r c' \<or> attempt srv rq a c = Again c'"
  shows "client_rate_inv c' \<and> max_requests (limiter c') = max_requests (limiter c) \<and>
         period (limiter c') = period (limiter c)"
proof -
  from inv obtain T where pos: "0 < max_requests (limiter c)" and ov: "0 \<le> overrun c"
    and T: "T < clock c" and rl: "rl_inv (limiter c) T (sent_times (trace c))"
    unfolding client_rate_inv_def by blast
  from acquire_step [OF rl pos T ov] obtain g rl' where
    acq: "acquire (limiter c) (clock c) (overrun c) = Inr (g, rl')" and
    rl': "rl_inv rl' g (sent_times (trace c) @ [g])" and
    mp: "max_requests rl' = max_requests (limiter c)" "period rl' = period (limiter c)"
    by blast
  let ?c1 = "c\<lparr>limiter := rl', clock := g + snd (srv (sent c) rq), sent := Suc (sent c),
               trace := trace c @ [Sent rq g]\<rparr>"
  have "handle_outcome a rq (fst (srv (sent c) rq)) ?c1 = Finish r c' \<or>
        handle_outcome a rq (fst (srv (sent c) rq)) ?c1 = Again c'"
    using res acq by (simp add: attempt_def)
  from handle_outcome_frame [OF this] obtain ts where
    fr: "limiter c' = rl'" "overrun c' = overrun c" "g + snd (srv (sent c) rq) \<le> clock c'"
        "trace c' = trace c @ [Sent rq g] @ map Slept ts"
    by auto
  have "g < clock c'" using fr(3) lat by simp
  with rl' fr pos ov mp show ?thesis
    unfolding client_rate_inv_def by (intro conjI exI [of _ g]) simp_all
qed

lemma make_request_from_rate_inv:
  "client_rate_inv c \<Longrightarrow> \<forall>n. 0 < snd (srv n rq) \<Longrightarrow>
   client_rate_inv (snd (make_request_from srv rq a c)) \<and>
   max_requests (limiter (snd (make_request_from srv rq a c))) = max_requests (limiter c) \<and>
   period (limiter (snd (make_request_from srv rq a c))) = period (limiter c)"
proof (induction srv rq a c rule: make_request_from.induct)
  case (1 srv rq a c)
  show ?case
  proof (cases "a < config_max_retries")
    case True
    show ?thesis
    proof (cases "attempt srv rq a c")
      case (Finish r c')
      with True attempt_rate_inv [OF "1.prems"(1), of srv rq a r c'] "1.prems"(2) show ?thesis
        by (simp add: make_request_from_Finish)
    next
      case (Again c')
      with attempt_rate_inv [OF "1.prems"(1), of srv rq a _ c'] "1.prems"(2)
      have "client_rate_inv c' \<and> max_requests (limiter c') = max_requests (limiter c) \<and>
            period (limiter c') = period (limiter c)"
        by blast
      with "1.IH" [OF True Again] "1.prems"(2) True Again show ?thesis
        by (simp add: make_request_from_Again)
    qed
  next
    case False
    with "1.prems" show ?thesis by (simp add: make_request_from_exhausted)
  qed
qed

lemma client_rate_inv_window:
  "client_rate_inv c \<Longrightarrow> window_ok (max_requests (limiter c)) (period (limiter c)) (sent_times (trace c))"
  unfolding client_rate_inv_def rl_inv_def by blast

lemma new_client_rate_inv: "0 \<le> ov \<Longrightarrow> client_rate_inv (new_client t0 ov)"
  unfolding client_rate_inv_def new_client_def
  by (intro conjI exI [of _ "t0 - 1"])
     (simp_all add: new_rate_limiter_def config_rate_limit_requests_def rl_inv_def window_ok_def
                    window_count_def)

lemma make_requests_rate_inv:
  "client_rate_inv c \<Longrightarrow> \<forall>n rq. 0 < snd (srv n rq) \<Longrightarrow>
   client_rate_inv (make_requests srv rqs c) \<and>
   max_requests (limiter (make_requests srv rqs c)) = max_requests (limiter c) \<and>
   period (limiter (make_requests srv rqs c)) = period (limiter c)"
proof (induction rqs arbitrary: c)
  case Nil
  then show ?case by simp
next
  case (Cons rq rqs)
  have "client_rate_inv (snd (make_request srv rq c)) \<and>
        max_requests (limiter (snd (make_request srv rq c))) = max_requests (limiter c) \<and>
        period (limiter (snd (make_request srv rq c))) = period (limiter c)"
  proof -
    have lat: "\<forall>n. 0 < snd (srv n rq)" using Cons.prems(2) by blast
    from make_request_from_rate_inv [where srv = srv and rq = rq and a = 0, OF Cons.prems(1) lat] show ?thesis
      by (simp add: make_request_def)
  qed
  with Cons.IH [of "snd (make_request srv rq c)"] Cons.prems(2) show ?case by simp
qed

text \<open>
  Claim C16.  On a fresh client, with round trips that take positive time, any
  sequence of calls sends at most \<open>RATE_LIMIT_REQUESTS = 600\<close> requests in any
  window of \<open>RATE_LIMIT_PERIOD = 300\<close> seconds: retries and back-off included, every
  round trip passes the limiter.
\<close>

theorem make_requests_rate_limited:
  assumes "0 \<le> ov" and "\<forall>n rq. 0 < snd (srv n rq)"
  shows "window_ok 600 300 (sent_times (trace (make_requests srv rqs (new_client t0 ov))))"
proof -
  from make_requests_rate_inv [OF new_client_rate_inv [OF assms(1)] assms(2), of rqs t0]
  have "client_rate_inv (make_requests srv rqs (new_client t0 ov))"
    "max_requests (limiter (make_requests srv rqs (new_client t0 ov))) = 600"
    "period (limiter (make_requests srv rqs (new_client t0 ov))) = 300"
    by (simp_all add: new_client_def new_rate_limiter_def config_rate_limit_requests_def
                      config_rate_limit_period_def)
  then show ?thesis using client_rate_inv_window by metis
qed

subsection \<open>The paginated calls\<close>

lemma make_request_sent: "sent (snd (make_request srv rq c)) \<le> sent c + config_max_retries"
  using make_request_from_sent [of srv rq 0 c] by (simp add: make_request_def)

lemma attempt_Inr:
  "attempt srv rq a c = Finish (Inr (code, b)) c' \<Longrightarrow>
   \<exists>reason hdr. fst (srv (sent c) rq) = Response code reason hdr b"
  by (auto simp: attempt_def handle_outcome_def request_failed_def py_sleep_def
           split: sum.splits prod.splits http_result.splits option.splits if_splits)

text \<open>A body the call returns is the body of one of the server's answers to the request.\<close>

lemma make_request_from_Inr:
  "make_request_from srv rq a c = (Inr (code, b), c') \<Longrightarrow>
   \<exists>n reason hdr. fst (srv n rq) = Response code reason hdr b"
proof (induction srv rq a c rule: make_request_from.induct)
  case (1 srv rq a c)
  show ?case
  proof (cases "a < config_max_retries")
    case True
    show ?thesis
    proof (cases "attempt srv rq a c")
      case (Finish r c1)
      with True "1.prems" have "attempt srv rq a c = Finish (Inr (code, b)) c1"
        by (simp add: make_request_from_Finish)
      then show ?thesis by (blast dest: attempt_Inr)
    next
      case (Again c1)
      with True "1.prems" show ?thesis
        by (intro "1.IH" [OF True Again]) (simp add: make_request_from_Again)
    qed
  next
    case False
    with "1.prems" show ?thesis by (simp add: make_request_from_exhausted)
  qed
qed

lemma make_request_Inr:
  "make_request srv rq c = (Inr (code, b), c') \<Longrightarrow> \<exists>n reason hdr. fst (srv n rq) = Response code reason hdr b"
  unfolding make_request_def by (rule make_request_from_Inr)

text \<open>
  The officer listing ends when the totals the server reports are bounded and the
  page size is positive: each further page raises \<open>start_index\<close> towards the bound.
\<close>

lemma officers_loop_terminates:
  assumes ipp: "0 < ipp"
    and tot: "\<forall>n code reason hdr d. fst (srv n (url, [])) = Response code reason hdr d \<longrightarrow>
                get_default (page_total_results d) 0 \<le> T"
  shows "\<exists>r. officers_loop srv url ipp start acc c = Some r"
proof (induction "nat (T - start)" arbitrary: start acc c rule: less_induct)
  case less
  show ?case
  proof (cases "make_request srv (url, []) c")
    case (Pair res c')
    show ?thesis
    proof (cases res)
      case (Inl e)
      with Pair show ?thesis by (simp add: officers_loop.simps)
    next
      case (Inr cb)
      obtain code data where cb: "cb = (code, data)" by fastforce
      let ?items = "get_default (page_items data) []"
      let ?total = "get_default (page_total_results data) 0"
      have "?total \<le> T"
        using make_request_Inr [of srv "(url, [])" c code data c'] Pair Inr cb tot by fastforce
      show ?thesis
      proof (cases "?total \<le> start + int (length ?items)")
        case True
        with Pair Inr cb show ?thesis by (simp add: officers_loop.simps)
      next
        case False
        with \<open>?total \<le> T\<close> ipp have "nat (T - (start + int ipp)) < nat (T - start)" by simp
        from less [OF this] obtain r where
          "officers_loop srv url ipp (start + int ipp) (acc @ ?items) c' = Some r" by blast
        with False Pair Inr cb show ?thesis by (simp add: officers_loop.simps)
      qed
    qed
  qed
qed

text \<open>
  The officer search ends for every server once the page size is positive: if
  \<open>n\<close> more steps of \<open>ipp\<close> reach offset 200, at most \<open>n + 1\<close> pages are requested.
\<close>

lemma search_officers_loop_bound:
  assumes ipp: "0 < ipp"
  shows "200 \<le> start + n * ipp \<Longrightarrow>
         \<exists>res c'. search_officers_loop srv name ipp start acc c = Some (res, c') \<and>
                  sent c' \<le> sent c + config_max_retries * (n + 1)"
proof (induction n arbitrary: start acc c)
  case 0
  obtain res c' where mr: "make_request srv (ch_base_url @ ''/search/officers'', search_params name ipp start) c = (res, c')"
    by fastforce
  have sent: "sent c' \<le> sent c + config_max_retries"
    using make_request_sent [of srv _ c] mr by (metis snd_conv)
  from "0.prems" have "200 \<le> start" by simp
  with mr sent show ?case
    by (auto simp: search_officers_loop.simps [of srv name ipp start acc c] Let_def split: sum.split)
next
  case (Suc n)
  obtain res c' where mr: "make_request srv (ch_base_url @ ''/search/officers'', search_params name ipp start) c = (res, c')"
    by fastforce
  have sent: "sent c' \<le> sent c + config_max_retries"
    using make_request_sent [of srv _ c] mr by (metis snd_conv)
  have reach: "200 \<le> (start + ipp) + n * ipp" using Suc.prems by simp
  show ?case
  proof (cases res)
    case (Inl e)
    with mr sent show ?thesis by (simp add: search_officers_loop.simps [of srv name ipp start acc c])
  next
    case (Inr cb)
    obtain code data where cb: "cb = (code, data)" by fastforce
    let ?items = "get_default (page_items data) []"
    let ?total = "get_default (page_total_results data) 0"
    show ?thesis
    proof (cases "?total \<le> int start + int (length ?items) \<or> 200 \<le> start")
      case True
      with mr sent Inr cb show ?thesis
        by (simp add: search_officers_loop.simps [of srv name ipp start acc c])
    next
      case False
      from Suc.IH [OF reach, of "acc @ ?items" c'] obtain res' c'' where
        "search_officers_loop srv name ipp (start + ipp) (acc @ ?items) c' = Some (res', c'')"
        "sent c'' \<le> sent c' + config_max_retries * (n + 1)"
        by blast
      with False mr sent Inr cb show ?thesis
        by (simp add: search_officers_loop.simps [of srv name ipp start acc c])
    qed
  qed
qed

text \<open>The company search ends for every server: each further page adds at least one result.\<close>

lemma search_companies_loop_terminates:
  "\<exists>r. search_companies_loop srv ipp start acc c = Some r"
proof (induction "1000 - length acc" arbitrary: start acc c rule: less_induct)
  case less
  show ?case
  proof (cases "length acc < 1000")
    case False
    then show ?thesis by (simp add: search_companies_loop.simps)
  next
    case True
    obtain res c' where mr: "make_request srv (ch_base_url @ ''/search/companies'', []) c = (res, c')"
      by fastforce
    show ?thesis
    proof (cases res)
      case (Inl e)
      with True mr show ?thesis by (simp add: search_companies_loop.simps)
    next
      case (Inr cb)
      obtain code data where cb: "cb = (code, data)" by fastforce
      let ?items = "get_default (page_items data) []"
      show ?thesis
      proof (cases "?items = []")
        case True
        with \<open>length acc < 1000\<close> mr Inr cb show ?thesis by (simp add: search_companies_loop.simps)
      next
        case False
        then have "1000 - length (acc @ ?items) < 1000 - length acc"
          using \<open>length acc < 1000\<close> by (simp add: diff_less_mono2)
        from less [OF this] have "\<exists>r. search_companies_loop srv ipp st (acc @ ?items) c' = Some r" for st
          by blast
        with \<open>length acc < 1000\<close> False mr Inr cb show ?thesis
          by (simp add: search_companies_loop.simps [of srv ipp start acc c] Let_def)
      qed
    qed
  qed
qed

lemma pages_reach_200: "0 < ipp \<Longrightarrow> 200 \<le> 0 + (199 + ipp) div ipp * (ipp :: nat)"
proof -
  assume ipp: "0 < ipp"
  have "(199 + ipp) div ipp * ipp + (199 + ipp) mod ipp = 199 + ipp" by (rule div_mult_mod_eq)
  moreover have "(199 + ipp) mod ipp < ipp" using ipp by simp
  ultimately show ?thesis by linarith
qed

lemma make_request_ok:
  assumes "fst (srv (sent c) rq) = Response code reason hdr body" "code \<noteq> 429" "\<not> http_error_status code"
    and pos: "0 < max_requests (limiter c)"
  shows "\<exists>c'. make_request srv rq c = (Inr (code, body), c') \<and> max_requests (limiter c') = max_requests (limiter c)"
proof -
  from attempt_granted [OF pos, of srv rq 0] obtain g rl where
    rl: "max_requests rl = max_requests (limiter c)" and
    at: "attempt srv rq 0 c = handle_outcome 0 rq (fst (srv (sent c) rq))
           (c\<lparr>limiter := rl, clock := g + snd (srv (sent c) rq), sent := Suc (sent c),
               trace := trace c @ [Sent rq g]\<rparr>)"
    by blast
  show ?thesis
    using assms(1-3) rl
    by (auto simp: at handle_outcome_def attempt_unfold)
qed

lemma officers_loop_stop:
  "make_request srv (url, []) c = (Inr (code, data), c') \<Longrightarrow>
   get_default (page_total_results data) 0 \<le> start + int (length (get_default (page_items data) [])) \<Longrightarrow>
   officers_loop srv url ipp start acc c = Some (Inr (acc @ get_default (page_items data) []), c')"
  by (simp add: officers_loop.simps [of srv url ipp start acc c])

lemma officers_loop_next:
  "make_request srv (url, []) c = (Inr (code, data), c') \<Longrightarrow>
   \<not> get_default (page_total_results data) 0 \<le> start + int (length (get_default (page_items data) [])) \<Longrightarrow>
   officers_loop srv url ipp start acc c =
     officers_loop srv url ipp (start + int ipp) (acc @ get_default (page_items data) []) c'"
  by (simp add: officers_loop.simps [of srv url ipp start acc c])

text \<open>
  Against a server that answers every request for the URL with the same page,
  the loop returns that page once per page the reported total calls for.
\<close>

lemma officer_pages_step:
  fixes T s L :: int and ipp :: nat
  assumes ipp: "0 < ipp" and more: "\<not> T \<le> s + L"
  shows "1 + nat ((T - s - L + int ipp - 1) div int ipp) =
         Suc (if T \<le> s + int ipp + L then 1 else 1 + nat ((T - (s + int ipp) - L + int ipp - 1) div int ipp))"
proof -
  let ?p = "int ipp" and ?D = "T - s - L"
  have "(?D + ?p - 1) div ?p = (?p + (?D - 1)) div ?p" by (simp add: algebra_simps)
  also have "\<dots> = (?D - 1) div ?p + 1" using ipp by simp
  finally have e: "(?D + ?p - 1) div ?p = (?D - 1) div ?p + 1" .
  have nn: "0 \<le> (?D - 1) div ?p" using ipp more by (simp add: pos_imp_zdiv_nonneg_iff)
  show ?thesis
  proof (cases "T \<le> s + ?p + L")
    case True
    then have "(?D - 1) div ?p = 0" using ipp more by (intro div_pos_pos_trivial) auto
    then show ?thesis using True e by simp
  next
    case False
    have x: "T - (s + ?p) - L + ?p - 1 = ?D - 1" by simp
    have "(if T \<le> s + ?p + L then 1 else 1 + nat ((T - (s + ?p) - L + ?p - 1) div ?p)) =
          1 + nat ((?D - 1) div ?p)"
      by (simp only: if_not_P [OF False] x)
    then show ?thesis unfolding e using nn by (simp add: nat_add_distrib)
  qed
qed

lemma officers_loop_same_page:
  assumes srv: "\<And>n. fst (srv n (url, [])) = Response 200 reason hdr pg"
    and ipp: "0 < ipp"
  shows "0 < max_requests (limiter c) \<Longrightarrow>
    \<exists>c'. officers_loop srv url ipp s acc c =
      Some (Inr (acc @ concat (replicate
        (if get_default (page_total_results pg) 0 \<le> s + int (length (get_default (page_items pg) [])) then 1
         else 1 + nat ((get_default (page_total_results pg) 0 - s - int (length (get_default (page_items pg) []))
                         + int ipp - 1) div int ipp))
        (get_default (page_items pg) []))), c')"
proof (induction "nat (get_default (page_total_results pg) 0 - s)" arbitrary: s acc c rule: less_induct)
  case less
  let ?T = "get_default (page_total_results pg) 0" and ?xs = "get_default (page_items pg) []"
  obtain c1 where c1: "make_request srv (url, []) c = (Inr (200, pg), c1)"
    "max_requests (limiter c1) = max_requests (limiter c)"
    using make_request_ok [where srv = srv and c = c, OF srv [of "sent c"] _ _ less.prems] 
    by (auto simp: http_error_status_def)
  show ?case
  proof (cases "?T \<le> s + int (length ?xs)")
    case True
    then show ?thesis using officers_loop_stop [OF c1(1) True, of ipp acc] by simp
  next
    case False
    have "nat (?T - (s + int ipp)) < nat (?T - s)" using False ipp by simp
    from less.hyps [OF this, where acc = "acc @ ?xs" and c = c1] c1(2) less.prems obtain c' where
      "officers_loop srv url ipp (s + int ipp) (acc @ ?xs) c1 =
        Some (Inr ((acc @ ?xs) @ concat (replicate
        (if ?T \<le> s + int ipp + int (length ?xs) then 1
         else 1 + nat ((?T - (s + int ipp) - int (length ?xs) + int ipp - 1) div int ipp)) ?xs)), c')"
      by auto
    then show ?thesis
      using False officers_loop_next [OF c1(1) False, of ipp acc] officer_pages_step [OF ipp False]
      by (intro exI [of _ c']) simp
  qed
qed

text \<open>
  Claim C18.  \<open>get_officers\<close> builds its paging parameters but does not pass them
  (line 221), so every page request is the same bare URL.  Against any server that
  answers a request by what it asks for, with a first page of \<open>L\<close> officers out of
  \<open>total_results = T\<close>, the call returns that first page once when \<open>T \<le> L\<close> and
  otherwise \<open>1 + \<lceil>(T - L) / items_per_page\<rceil>\<close> times over: the officers of
  every later page are never returned.
\<close>

theorem get_officers_duplicates_first_page:
  assumes srv: "\<And>n. fst (srv n (officers_url cn, [])) = Response 200 reason hdr pg"
    and ipp: "0 < ipp" and pos: "0 < max_requests (limiter c)"
  shows "\<exists>c'. get_officers_api srv cn ipp c =
      Some (Inr (concat (replicate
        (if get_default (page_total_results pg) 0 \<le> int (length (get_default (page_items pg) [])) then 1
         else 1 + nat ((get_default (page_total_results pg) 0 - int (length (get_default (page_items pg) []))
                         + int ipp - 1) div int ipp))
        (get_default (page_items pg) []))), c')"
  using officers_loop_same_page [where srv = srv and url = "officers_url cn" and s = 0 and acc = "[]",
                                OF srv ipp pos]
  by (simp only: get_officers_api_def diff_0_right add_0 append_Nil)

subsection \<open>What the endpoints do\<close>

text \<open>
  \<open>get_officers\<close> returns when the page size is positive and the
  \<open>total_results\<close> the server reports are bounded.
\<close>

theorem get_officers_terminates:
  assumes "0 < ipp"
    and "\<forall>n code reason hdr d. fst (srv n (officers_url cn, [])) = Response code reason hdr d \<longrightarrow>
           get_default (page_total_results d) 0 \<le> T"
  shows "\<exists>r. get_officers_api srv cn ipp c = Some r"
  unfolding get_officers_api_def
  by (rule officers_loop_terminates [where srv = srv and url = "officers_url cn", OF assms])

text \<open>
  Claim C17.  \<open>search_officers\<close> returns for every server once the page size is
  positive, after at most \<open>\<lceil>200 / ipp\<rceil> + 1\<close> pages (5 at the default 50), hence
  at most three times as many round trips.
\<close>

theorem search_officers_bounded:
  assumes "0 < ipp"
  shows "\<exists>res c'. search_officers_api srv name ipp c = Some (res, c') \<and>
           sent c' \<le> sent c + config_max_retries * ((199 + ipp) div ipp + 1)"
  unfolding search_officers_api_def
  by (rule search_officers_loop_bound [OF assms pages_reach_200 [OF assms]])

text \<open>
  \<open>search_companies\<close> returns for every server and page size: every
  further page adds a result, and the loop stops at 1000.
\<close>

theorem search_companies_terminates: "\<exists>r. search_companies_api srv q st ty ipp c = Some r"
  unfolding search_companies_api_def by (rule search_companies_loop_terminates)

text \<open>
  Profile cache: once a profile has been fetched, asking for it again
  returns the same profile, with no request and no change to the client.
\<close>

theorem get_company_profile_cached:
  assumes "get_company_profile_api srv cn c = (Inr p, c')"
  shows "get_company_profile_api srv' cn c' = (Inr p, c')"
  using assms
  by (auto simp: get_company_profile_api_def split: option.splits prod.splits sum.splits)

end
