(* ===== verification/Client_Scenarios.thy ===== *)
theory Client_Scenarios
  imports Api_Client
begin

text \<open>
  Concrete servers for the registry client: a server that pages correctly by
  \<open>start_index\<close>, servers answering 404, 429 (with a numeric and with an HTTP-date
  \<open>Retry-After\<close>), a flaky one, and a plain one; the client starts fresh at time 0
  with exact sleeps.  They show the duplicated pages of \<open>get_officers\<close> and
  instantiate the client theorems.
\<close>

definition fresh :: client_state where
  "fresh = new_client 0 0"

definition page_of :: "'a list \<Rightarrow> int \<Rightarrow> 'a page" where
  "page_of xs t = \<lparr>page_items = Some xs, page_total_results = Some t, page_total_count = Some t\<rparr>"

text \<open>Three officers A, B, C, served two per page according to \<open>start_index\<close>.\<close>

definition paging_server :: "string page server" where
  "paging_server n rq =
     (if (''start_index'', ''2'') \<in> set (snd rq) then (Response 200 ''OK'' None (page_of [''C''] 3), 1)
      else (Response 200 ''OK'' None (page_of [''A'', ''B''] 3), 1))"

definition not_found_server :: "unit server" where
  "not_found_server n rq = (Response 404 ''Not Found'' None (), 1)"

definition throttling_server :: "unit server" where
  "throttling_server n rq = (Response 429 ''Too Many Requests'' (Some ''5'') (), 1)"

definition http_date_server :: "unit server" where
  "http_date_server n rq = (Response 429 ''Too Many Requests'' (Some ''Wed, 21 Oct 2015 07:28:00 GMT'') (), 1)"

definition flaky_server :: "unit server" where
  "flaky_server n rq =
     (if n = 0 then (Transport_failure ''Connection reset by peer'', 1) else (Response 200 ''OK'' None (), 1))"

definition ok_server :: "unit server" where
  "ok_server n rq = (Response 200 ''OK'' None (), 1)"

definition alpha_profile :: profile where
  "alpha_profile = \<lparr>profile_name = Some ''ALPHA'', profile_status = Some ''active'', profile_type = Some ''ltd'',
                    profile_date_of_creation = None\<rparr>"

definition profile_server :: "profile server" where
  "profile_server n rq = (Response 200 ''OK'' None alpha_profile, 1)"

definition down_profile_server :: "profile server" where
  "down_profile_server n rq = (Transport_failure ''Connection refused'', 1)"

lemma fresh_limiter [simp]: "max_requests (limiter fresh) = 600"
  by (simp add: fresh_def new_client_def new_rate_limiter_def config_rate_limit_requests_def)

lemma fresh_sent [simp]: "sent fresh = 0"
  by (simp add: fresh_def new_client_def)

lemma http_error_404 [simp]: "http_error_status 404" and not_http_error_200 [simp]: "\<not> http_error_status 200"
  by (simp_all add: http_error_status_def)

subsection \<open>Pages fetched without their parameters\<close>

text \<open>
  Against a server that pages correctly (A and B on the first page of two, C on
  the second), \<open>get_officers\<close> fetches the first page twice and returns A, B, A, B.
\<close>

theorem get_officers_duplicates_first_page_witness:
  "\<exists>c'. get_officers_api paging_server ''AA111111'' 2 fresh = Some (Inr [''A'', ''B'', ''A'', ''B''], c')"
proof -
  have p: "\<And>n. fst (paging_server n (officers_url ''AA111111'', [])) =
                 Response 200 ''OK'' None (page_of [''A'', ''B''] 3)"
    by (simp add: paging_server_def)
  show ?thesis
    using get_officers_duplicates_first_page
            [where srv = paging_server and cn = "''AA111111''" and ipp = 2 and c = fresh, OF p]
    by (simp add: page_of_def)
qed

subsection \<open>The client theorems at concrete servers\<close>

theorem make_request_http_error_retried_witness:
  "\<exists>t1 t2 t3 c'. make_request not_found_server (''/company/X'', []) fresh =
        (Inl (Http_error 404 ''Not Found'' (request_url (''/company/X'', []))), c') \<and>
      trace c' = trace fresh @ [Sent (''/company/X'', []) t1, Slept 2, Sent (''/company/X'', []) t2, Slept 4,
                                Sent (''/company/X'', []) t3] \<and>
      sent c' = sent fresh + 3"
  by (rule make_request_http_error_retried) (simp_all add: not_found_server_def)

theorem make_request_throttled_escalates_witness:
  "\<exists>t1 t2 t3 c'. make_request throttling_server (''/company/X'', []) fresh =
        (Inl (Retries_exhausted (fst (''/company/X'', [] :: (string \<times> string) list))), c') \<and>
      trace c' = trace fresh @ [Sent (''/company/X'', []) t1, Slept (of_int 5), Sent (''/company/X'', []) t2,
                                Slept (of_int 5), Sent (''/company/X'', []) t3, Slept (of_int 5)] \<and>
      sent c' = sent fresh + 3"
  by (rule make_request_throttled_escalates [where hdr = "Some ''5''"])
     (simp_all add: throttling_server_def retry_after_value_def py_int_unfold)

theorem make_request_bad_retry_after_witness:
  "\<exists>t c'. make_request http_date_server (''/company/X'', []) fresh =
        (Inl (Value_error_exc ''invalid literal for int() with base 10''), c') \<and>
      trace c' = trace fresh @ [Sent (''/company/X'', []) t] \<and> sent c' = Suc (sent fresh)"
  by (rule make_request_bad_retry_after [where h = "''Wed, 21 Oct 2015 07:28:00 GMT''"])
     (simp_all add: http_date_server_def py_int_unfold)

theorem make_request_transient_recovered_witness:
  "\<exists>t1 t2 c'. make_request flaky_server (''/company/X'', []) fresh = (Inr (200, ()), c') \<and>
      trace c' = trace fresh @ [Sent (''/company/X'', []) t1, Slept 2, Sent (''/company/X'', []) t2] \<and>
      sent c' = sent fresh + 2"
  by (rule make_request_transient_recovered) (simp_all add: flaky_server_def)

theorem make_requests_rate_limited_witness:
  "window_ok 600 300 (sent_times (trace (make_requests ok_server [(''/a'', []), (''/b'', [])] (new_client 0 0))))"
  by (rule make_requests_rate_limited) (simp_all add: ok_server_def)

theorem get_officers_terminates_witness:
  "\<exists>r. get_officers_api paging_server ''AA111111'' 2 fresh = Some r"
  by (rule get_officers_terminates [where T = 3]) (auto simp: paging_server_def page_of_def)

theorem search_officers_bounded_witness:
  "\<exists>res c'. search_officers_api paging_server ''JOHN SMITH'' 50 fresh = Some (res, c') \<and>
     sent c' \<le> sent fresh + config_max_retries * ((199 + 50) div 50 + 1)"
  by (rule search_officers_bounded) simp

theorem get_company_profile_cached_witness:
  "\<exists>c'. get_company_profile_api profile_server ''AA111111'' fresh = (Inr alpha_profile, c') \<and>
        get_company_profile_api down_profile_server ''AA111111'' c' = (Inr alpha_profile, c')"
proof -
  have p: "fst (profile_server m (ch_base_url @ ''/company/'' @ ''AA111111'', [])) =
             Response 200 ''OK'' None alpha_profile" for m
    by (simp add: profile_server_def)
  obtain c1 where c1: "make_request profile_server (ch_base_url @ ''/company/'' @ ''AA111111'', []) fresh =
                         (Inr (200, alpha_profile), c1)"
    using make_request_ok [where srv = profile_server and c = fresh, OF p [of "sent fresh"]] by fastforce
  let ?c' = "c1\<lparr>profile_cache := (profile_cache c1)(''AA111111'' \<mapsto> alpha_profile)\<rparr>"
  have first: "get_company_profile_api profile_server ''AA111111'' fresh = (Inr alpha_profile, ?c')"
    using c1 by (simp add: get_company_profile_api_def fresh_def new_client_def)
  show ?thesis
    using first get_company_profile_cached [OF first, of down_profile_server] by blast
qed

end
