(* ===== verification/Name_Parser.thy ===== *)
theory Name_Parser
  imports Prelude Complex_Main
begin

text \<open>
  \<open>NameParser\<close> (\<open>src/parsers/name_parser.py\<close>): the validity test for a candidate
  company name, the normalisation used for every comparison, suffix removal, the
  extraction of a name up to its suffix, and \<open>compare_names\<close>.  Characters are
  ASCII: \<open>str.isalpha\<close>, \<open>str.isspace\<close> and the regular-expression classes
  \<open>\s\<close> and \<open>\w\<close> are their ASCII parts.  The ratio of \<open>difflib.SequenceMatcher\<close>
  is defined from its documented contract (the longest matching block, earliest in
  the first string and then in the second, recursively on both sides; ratio
  \<open>2M / T\<close>) without junk; its \<open>autojunk\<close> heuristic only acts on a second string of
  200 characters or more.  Fractions are exact rationals: for strings of the
  lengths involved the float comparisons of the code (\<open>< 0.6\<close>, \<open>\<ge> 0.85\<close>,
  \<open>\<ge> 0.75\<close>) give the same answers.  The regular-expression scans of
  \<open>extract_names\<close> and \<open>extract_name_changes\<close> are in \<open>Name_Scan\<close>.
\<close>

subsection \<open>Characters and Python string methods\<close>

definition is_space :: "char \<Rightarrow> bool" where
  "is_space c \<longleftrightarrow> (of_char c :: nat) \<in> {9, 10, 11, 12, 13, 32}"

definition is_alpha :: "char \<Rightarrow> bool" where
  "is_alpha c \<longleftrightarrow> (65 \<le> (of_char c :: nat) \<and> (of_char c :: nat) \<le> 90) \<or>
                   (97 \<le> (of_char c :: nat) \<and> (of_char c :: nat) \<le> 122)"

text \<open>\<open>\w\<close>: letters, digits and the underscore.\<close>

definition is_word_char :: "char \<Rightarrow> bool" where
  "is_word_char c \<longleftrightarrow> is_alpha c \<or> (48 \<le> (of_char c :: nat) \<and> (of_char c :: nat) \<le> 57) \<or> c = CHR ''_''"

definition py_strip :: "string \<Rightarrow> string" where
  "py_strip s = rev (dropWhile is_space (rev (dropWhile is_space s)))"

text \<open>\<open>s.split()\<close>: the maximal runs of non-blank characters.\<close>

function py_words :: "string \<Rightarrow> string list" where
  "py_words [] = []"
| "py_words (c # cs) =
     (if is_space c then py_words cs
      else (takeWhile (\<lambda>x. \<not> is_space x) (c # cs)) # py_words (dropWhile (\<lambda>x. \<not> is_space x) cs))"
  by pat_completeness auto
termination
  by (relation "measure length") (auto simp: le_imp_less_Suc length_dropWhile_le)

fun join_words :: "string list \<Rightarrow> string" where
  "join_words [] = []"
| "join_words [w] = w"
| "join_words (w # ws) = w @ '' '' @ join_words ws"

text \<open>\<open>re.sub(r'\s+', ' ', s)\<close>\<close>

function collapse_ws :: "string \<Rightarrow> string" where
  "collapse_ws [] = []"
| "collapse_ws (c # cs) =
     (if is_space c then CHR '' '' # collapse_ws (dropWhile is_space cs) else c # collapse_ws cs)"
  by pat_completeness auto
termination
  by (relation "measure length") (auto simp: le_imp_less_Suc length_dropWhile_le)

text \<open>\<open>s.find(sub)\<close>: the first index, or \<open>None\<close> for -1.\<close>

fun py_find_from :: "nat \<Rightarrow> string \<Rightarrow> string \<Rightarrow> nat option" where
  "py_find_from i pat [] = (if pat = [] then Some i else None)"
| "py_find_from i pat (c # cs) = (if take (length pat) (c # cs) = pat then Some i else py_find_from (Suc i) pat cs)"

definition py_find :: "string \<Rightarrow> string \<Rightarrow> nat option" where
  "py_find s pat = py_find_from 0 pat s"

subsection \<open>Suffixes and validity (lines 13--21, 94--143)\<close>

definition name_suffixes :: "string list" where
  "name_suffixes =
     [''LIMITED'', ''LTD'', ''LTD.'', ''PLC'', ''P.L.C.'', ''PUBLIC LIMITED COMPANY'',
      ''LLP'', ''LIMITED LIABILITY PARTNERSHIP'', ''LP'', ''LIMITED PARTNERSHIP'',
      ''CIC'', ''COMMUNITY INTEREST COMPANY'', ''CIO'', ''CHARITABLE INCORPORATED ORGANISATION'',
      ''CHARITY'', ''UNLTD'', ''UNLIMITED'']"

definition invalid_words :: "string list" where
  "invalid_words =
     [''HEREBY'', ''CERTIFY'', ''REGISTRAR'', ''SECRETARY'', ''PURSUANT'',
      ''CERTIFICATE'', ''INCORPORATION'', ''DECLARATION'', ''STATEMENT'',
      ''FORM'', ''SECTION'', ''ARTICLE'', ''CLAUSE'', ''PARAGRAPH'',
      ''GUARANTEE'', ''MEMORANDUM'', ''ASSOCIATION'', ''CAPITAL'', ''SHARE'',
      ''COMPANIES ACT'', ''REGISTERED'', ''OFFICE'', ''NUMBER'', ''COMPANY NO'',
      ''REGISTERED OFFICE'', ''ADDRESS'']"

definition is_valid_name :: "string \<Rightarrow> bool" where
  "is_valid_name name =
     (if name = [] \<or> length name < 5 then False
      else if \<not> list_ex (\<lambda>sfx. py_contains sfx (py_upper name)) name_suffixes then False
      else if 5 * length (filter (\<lambda>c. is_alpha c \<or> is_space c) name) < 3 * length name then False
      else if 150 < length name then False
      else if list_ex (\<lambda>w. py_contains w (py_upper name)) invalid_words then False
      else if py_strip (py_upper name) \<in> set name_suffixes then False
      else if length (py_words name) < 2 then False
      else True)"

subsection \<open>Normalisation (lines 145--179)\<close>

text \<open>The suffix replacements, in the dict's order.\<close>

definition suffix_replacements :: "(string \<times> string) list" where
  "suffix_replacements = [(''LTD.'', ''LIMITED''), (''LTD'', ''LIMITED''), (''P.L.C.'', ''PLC''), (''L.L.P.'', ''LLP'')]"

definition replace_suffix :: "string \<Rightarrow> string \<times> string \<Rightarrow> string" where
  "replace_suffix name r =
     (if suffix (fst r) name then take (length name - length (fst r)) name @ snd r else name)"

definition normalize_name :: "string \<Rightarrow> string" where
  "normalize_name name =
     (let n1 = collapse_ws (py_strip (py_upper name));
          n2 = fold (\<lambda>r n. replace_suffix n r) suffix_replacements n1;
          n3 = filter (\<lambda>c. is_word_char c \<or> is_space c \<or> c = CHR ''&'') n2
      in join_words (py_words n3))"

subsection \<open>Suffix removal and extraction (lines 229--243, 289--305, 84--90)\<close>

text \<open>\<open>sorted(SUFFIXES, key=len, reverse=True)\<close>: stable, longest first.\<close>

definition suffixes_by_length :: "string list" where
  "suffixes_by_length = sort_key (\<lambda>s. - int (length s)) name_suffixes"

definition remove_suffix :: "string \<Rightarrow> string" where
  "remove_suffix name =
     (case find (\<lambda>sfx. suffix sfx (py_upper name)) suffixes_by_length of
        Some sfx \<Rightarrow> py_strip (take (length name - length sfx) name)
      | None \<Rightarrow> name)"

fun extract_with_suffixes :: "string list \<Rightarrow> string \<Rightarrow> string option" where
  "extract_with_suffixes [] text = None"
| "extract_with_suffixes (sfx # sfxs) text =
     (case py_find (py_upper text) sfx of
        Some idx \<Rightarrow>
          (let name = take (idx + length sfx) text in
           if is_valid_name name then Some name else extract_with_suffixes sfxs text)
      | None \<Rightarrow> extract_with_suffixes sfxs text)"

definition extract_name_with_suffix :: "string \<Rightarrow> string option" where
  "extract_name_with_suffix text = extract_with_suffixes suffixes_by_length text"

text \<open>Lines 84--90: the first suffix (in list order) found ends the search, valid or not.\<close>

fun name_from_field :: "string list \<Rightarrow> string \<Rightarrow> string list" where
  "name_from_field [] pn = []"
| "name_from_field (sfx # sfxs) pn =
     (case py_find (py_upper pn) sfx of
        Some idx \<Rightarrow>
          (let name = take (idx + length sfx) pn in
           if is_valid_name name then [normalize_name name] else [])
      | None \<Rightarrow> name_from_field sfxs pn)"

subsection \<open>\<open>difflib.SequenceMatcher.ratio\<close>\<close>

fun common_prefix :: "string \<Rightarrow> string \<Rightarrow> nat" where
  "common_prefix (x # xs) (y # ys) = (if x = y then Suc (common_prefix xs ys) else 0)"
| "common_prefix _ _ = 0"

text \<open>
  \<open>find_longest_match(alo, ahi, blo, bhi)\<close> without junk: the longest common block
  of \<open>a[alo:ahi]\<close> and \<open>b[blo:bhi]\<close>, earliest in \<open>a\<close>, then earliest in \<open>b\<close>.
\<close>

definition match_at :: "string \<Rightarrow> string \<Rightarrow> nat \<Rightarrow> nat \<Rightarrow> nat \<Rightarrow> nat \<Rightarrow> nat" where
  "match_at a b ahi bhi i j = common_prefix (drop i (take ahi a)) (drop j (take bhi b))"

definition better_match :: "nat \<times> nat \<times> nat \<Rightarrow> nat \<times> nat \<times> nat \<Rightarrow> nat \<times> nat \<times> nat" where
  "better_match cand best = (if snd (snd best) < snd (snd cand) then cand else best)"

definition longest_match ::
  "string \<Rightarrow> string \<Rightarrow> nat \<Rightarrow> nat \<Rightarrow> nat \<Rightarrow> nat \<Rightarrow> nat \<times> nat \<times> nat" where
  "longest_match a b alo ahi blo bhi =
     fold (\<lambda>i best. fold (\<lambda>j best. better_match (i, j, match_at a b ahi bhi i j) best) [blo..<bhi] best)
       [alo..<ahi] (alo, blo, 0)"

text \<open>\<open>get_matching_blocks\<close>: the total size \<open>M\<close> of the matching blocks.\<close>

function matched_chars :: "string \<Rightarrow> string \<Rightarrow> nat \<Rightarrow> nat \<Rightarrow> nat \<Rightarrow> nat \<Rightarrow> nat" where
  "matched_chars a b alo ahi blo bhi =
     (case longest_match a b alo ahi blo bhi of
        (i, j, k) \<Rightarrow>
          if k = 0 then 0
          else k + matched_chars a b alo i blo j + matched_chars a b (i + k) ahi (j + k) bhi)"
  by pat_completeness auto

definition sequence_ratio :: "string \<Rightarrow> string \<Rightarrow> real" where
  "sequence_ratio a b =
     (if length a + length b = 0 then 1
      else 2 * real (matched_chars a b 0 (length a) 0 (length b)) / real (length a + length b))"

subsection \<open>\<open>compare_names\<close> (lines 181--227)\<close>

definition word_similarity :: "string \<Rightarrow> string \<Rightarrow> real" where
  "word_similarity b1 b2 =
     real (card (set (py_words b1) \<inter> set (py_words b2))) / real (card (set (py_words b1) \<union> set (py_words b2)))"

definition compare_names :: "string \<Rightarrow> string \<Rightarrow> real \<times> bool" where
  "compare_names name1 name2 =
     (let norm1 = normalize_name name1; norm2 = normalize_name name2 in
      if norm1 = norm2 then (1, True)
      else
        let sim = sequence_ratio norm1 norm2 in
        if 17 / 20 \<le> sim then (sim, True)
        else
          let base1 = remove_suffix norm1; base2 = remove_suffix norm2 in
          if base1 = [] \<or> base2 = [] then (sim, False)
          else if py_contains base1 base2 \<or> py_contains base2 base1 then (max sim (41 / 50), True)
          else if py_words base1 = [] \<or> py_words base2 = [] then (sim, False)
          else
            let ws = word_similarity base1 base2 in
            if 3 / 4 \<le> ws then (max sim ws, True) else (sim, False))"

definition in_ranges :: "nat \<Rightarrow> nat \<Rightarrow> nat \<Rightarrow> nat \<Rightarrow> nat \<times> nat \<times> nat \<Rightarrow> bool" where
  "in_ranges alo ahi blo bhi t \<longleftrightarrow>
     snd (snd t) = 0 \<or>
     (alo \<le> fst t \<and> fst t + snd (snd t) \<le> ahi \<and> blo \<le> fst (snd t) \<and> fst (snd t) + snd (snd t) \<le> bhi)"

subsection \<open>The matching blocks\<close>

lemma common_prefix_le: "common_prefix xs ys \<le> length xs" "common_prefix xs ys \<le> length ys"
  by (induction xs ys rule: common_prefix.induct) auto

lemma match_at_le: "match_at a b ahi bhi i j \<le> ahi - i" "match_at a b ahi bhi i j \<le> bhi - j"
  using common_prefix_le [of "drop i (take ahi a)" "drop j (take bhi b)"]
  by (auto simp: match_at_def)

lemma fold_better_match_k:
  "snd (snd (fold (\<lambda>x best. better_match (f x) best) xs best)) = fold (\<lambda>x m. max (snd (snd (f x))) m) xs (snd (snd best))"
  by (induction xs arbitrary: best) (auto simp: better_match_def max_def)

lemma fold_max_ge_init: "m \<le> fold (\<lambda>x m. max (g x) m) xs (m :: nat)"
proof (induction xs arbitrary: m)
  case Nil
  then show ?case by simp
next
  case (Cons a xs)
  have "m \<le> max (g a) m" by simp
  also have "\<dots> \<le> fold (\<lambda>x m. max (g x) m) xs (max (g a) m)" by (rule Cons.IH)
  finally show ?case by simp
qed

lemma fold_max_ge_elem: "x \<in> set xs \<Longrightarrow> g x \<le> fold (\<lambda>x m. max (g x) m) xs (m :: nat)"
proof (induction xs arbitrary: m)
  case Nil
  then show ?case by simp
next
  case (Cons a xs)
  show ?case
  proof (cases "x = a")
    case True
    have "g x \<le> max (g a) m" using True by simp
    also have "\<dots> \<le> fold (\<lambda>x m. max (g x) m) xs (max (g a) m)" by (rule fold_max_ge_init)
    finally show ?thesis by simp
  next
    case False
    with Cons show ?thesis by simp
  qed
qed

text \<open>The block found is inside the ranges, unless it is empty.\<close>

lemma longest_match_in_ranges: "in_ranges alo ahi blo bhi (longest_match a b alo ahi blo bhi)"
proof -
  have step: "in_ranges alo ahi blo bhi (better_match (i, j, match_at a b ahi bhi i j) best)"
    if "in_ranges alo ahi blo bhi best" "i \<in> set [alo..<ahi]" "j \<in> set [blo..<bhi]" for i j best
    using that match_at_le [of a b ahi bhi i j] by (auto simp: better_match_def in_ranges_def)
  show ?thesis
    unfolding longest_match_def
    by (rule fold_invariant [where Q = "\<lambda>i. i \<in> set [alo..<ahi]"], simp, simp add: in_ranges_def)
       (rule fold_invariant [where Q = "\<lambda>j. j \<in> set [blo..<bhi]"], simp_all add: step)
qed

lemma longest_match_bounds:
  "(i, j, k) = longest_match a b alo ahi blo bhi \<Longrightarrow> 0 < k \<Longrightarrow>
   alo \<le> i \<and> i + k \<le> ahi \<and> blo \<le> j \<and> j + k \<le> bhi"
proof -
  assume h: "(i, j, k) = longest_match a b alo ahi blo bhi" and k: "0 < k"
  have "in_ranges alo ahi blo bhi (i, j, k)" unfolding h by (rule longest_match_in_ranges)
  with k show ?thesis by (simp add: in_ranges_def)
qed

text \<open>Its size is at least that of every common block starting inside the ranges.\<close>

lemma longest_match_ge:
  assumes "i0 \<in> set [alo..<ahi]" "j0 \<in> set [blo..<bhi]"
  shows "match_at a b ahi bhi i0 j0 \<le> snd (snd (longest_match a b alo ahi blo bhi))"
proof -
  let ?g = "\<lambda>i m. fold (\<lambda>j m. max (match_at a b ahi bhi i j) m) [blo..<bhi] m"
  have inner: "snd (snd (fold (\<lambda>j best. better_match (i, j, match_at a b ahi bhi i j) best) [blo..<bhi] best)) =
               ?g i (snd (snd best))" for i best
    using fold_better_match_k [of "\<lambda>j. (i, j, match_at a b ahi bhi i j)" "[blo..<bhi]" best] by simp
  have outer: "snd (snd (fold (\<lambda>i best. fold (\<lambda>j best. better_match (i, j, match_at a b ahi bhi i j) best) [blo..<bhi] best) is best)) =
               fold ?g is (snd (snd best))" for "is" best
    by (induction "is" arbitrary: best) (simp_all add: inner)
  have mono: "m \<le> fold ?g is m" for "is" m
    by (induction "is" arbitrary: m) (auto intro: order_trans [OF fold_max_ge_init])
  have hit: "i0 \<in> set is \<Longrightarrow> match_at a b ahi bhi i0 j0 \<le> fold ?g is m" for "is" m
  proof (induction "is" arbitrary: m)
    case Nil
    then show ?case by simp
  next
    case (Cons i "is")
    show ?case
    proof (cases "i = i0")
      case True
      have "match_at a b ahi bhi i0 j0 \<le> ?g i0 m" using assms(2) by (rule fold_max_ge_elem)
      with True show ?thesis by (auto intro: order_trans [OF _ mono])
    next
      case False
      with Cons show ?thesis by simp
    qed
  qed
  show ?thesis
    unfolding longest_match_def outer using hit assms(1) by simp
qed

termination matched_chars
  by (relation "measure (\<lambda>(a, b, alo, ahi, blo, bhi). (ahi - alo) + (bhi - blo))")
     (auto dest!: longest_match_bounds)

declare matched_chars.simps [simp del]

lemma matched_chars_le:
  "matched_chars a b alo ahi blo bhi \<le> ahi - alo \<and> matched_chars a b alo ahi blo bhi \<le> bhi - blo"
proof (induction a b alo ahi blo bhi rule: matched_chars.induct)
  case (1 a b alo ahi blo bhi)
  obtain i j k where lm: "longest_match a b alo ahi blo bhi = (i, j, k)" by (cases "longest_match a b alo ahi blo bhi") auto
  show ?case
  proof (cases "k = 0")
    case True
    with lm show ?thesis by (simp add: matched_chars.simps)
  next
    case False
    with longest_match_bounds [OF lm [symmetric]] have b: "alo \<le> i" "i + k \<le> ahi" "blo \<le> j" "j + k \<le> bhi"
      by auto
    have eq: "matched_chars a b alo ahi blo bhi =
                k + matched_chars a b alo i blo j + matched_chars a b (i + k) ahi (j + k) bhi"
      by (subst matched_chars.simps) (simp add: lm False)
    from "1.IH"(1) [OF lm [symmetric] refl False] "1.IH"(2) [OF lm [symmetric] refl False] b eq
    show ?thesis by linarith
  qed
qed

lemma common_prefix_self: "common_prefix xs xs = length xs"
  by (induction xs) auto

lemma matched_chars_ge_top:
  "snd (snd (longest_match a b alo ahi blo bhi)) \<le> matched_chars a b alo ahi blo bhi"
  by (simp add: matched_chars.simps [of a b alo ahi blo bhi] split: prod.split)

lemma matched_chars_self: "matched_chars a a 0 (length a) 0 (length a) = length a"
proof (cases "a = []")
  case True
  then show ?thesis using matched_chars_le [of a a 0 0 0 0] by simp
next
  case False
  then have "match_at a a (length a) (length a) 0 0 \<le> snd (snd (longest_match a a 0 (length a) 0 (length a)))"
    by (intro longest_match_ge) auto
  then have "length a \<le> matched_chars a a 0 (length a) 0 (length a)"
    using matched_chars_ge_top [of a a 0 "length a" 0 "length a"]
    by (simp add: match_at_def common_prefix_self)
  with matched_chars_le [of a a 0 "length a" 0 "length a"] show ?thesis by simp
qed

lemma sequence_ratio_bounds: "0 \<le> sequence_ratio a b" "sequence_ratio a b \<le> 1"
proof -
  have "matched_chars a b 0 (length a) 0 (length b) \<le> length a"
    "matched_chars a b 0 (length a) 0 (length b) \<le> length b"
    using matched_chars_le [of a b 0 "length a" 0 "length b"] by auto
  then have "2 * real (matched_chars a b 0 (length a) 0 (length b)) \<le> real (length a + length b)"
    by linarith
  then show "0 \<le> sequence_ratio a b" "sequence_ratio a b \<le> 1"
    by (auto simp: sequence_ratio_def divide_le_eq_1)
qed

lemma sequence_ratio_self: "sequence_ratio a a = 1"
  by (simp add: sequence_ratio_def matched_chars_self)

lemma word_similarity_bounds:
  assumes "py_words b1 \<noteq> []"
  shows "0 \<le> word_similarity b1 b2" "word_similarity b1 b2 \<le> 1"
proof -
  have "card (set (py_words b1) \<inter> set (py_words b2)) \<le> card (set (py_words b1) \<union> set (py_words b2))"
    by (intro card_mono) auto
  moreover have "0 < card (set (py_words b1) \<union> set (py_words b2))"
    using assms by (simp add: card_gt_0_iff)
  ultimately show "0 \<le> word_similarity b1 b2" "word_similarity b1 b2 \<le> 1"
    by (simp_all add: word_similarity_def)
qed

lemma compare_names_unmatched: "compare_names x y = (s, False) \<Longrightarrow> s < 17 / 20"
  by (auto simp: compare_names_def Let_def split: if_splits)

subsection \<open>Properties\<close>

text \<open>
  The similarity \<open>compare_names\<close> reports is a number between 0 and 1,
  and a name compared with itself is a match of similarity 1.
\<close>

theorem compare_names_bounds:
  "0 \<le> fst (compare_names x y) \<and> fst (compare_names x y) \<le> 1 \<and> compare_names x x = (1, True)"
  using sequence_ratio_bounds [of "normalize_name x" "normalize_name y"]
    word_similarity_bounds [of "remove_suffix (normalize_name x)" "remove_suffix (normalize_name y)"]
  by (auto simp: compare_names_def Let_def)

text \<open>
  \<open>normalize_name\<close> is not idempotent: \<open>ACME L.T.D.\<close> normalises to
  \<open>ACME LTD\<close>, whose normal form is \<open>ACME LIMITED\<close>.  Names normalised once and
  names normalised twice are therefore not comparable.
\<close>

theorem normalize_name_not_idempotent:
  "normalize_name ''ACME L.T.D.'' = ''ACME LTD'' \<and> normalize_name (normalize_name ''ACME L.T.D.'') = ''ACME LIMITED''"
  by code_simp

end
