(* ===== verification/Mismatch_Detector.thy ===== *)
theory Mismatch_Detector
  imports Name_Parser
begin

text \<open>
  \<open>MismatchDetector\<close> (\<open>src/mismatch_detector.py\<close>): the comparison of the names and
  dates found in parsed filing documents with the company's official record.  The
  profile and the parsed documents are records with one optional field per key the
  detector reads.  \<open>DateParser\<close> (imported from \<open>parsers/date_parser.py\<close>, which is
  not part of the repository) is an interface: a record of its operations over an
  abstract date type \<open>'d\<close>.  The detector's issues are a datatype with one
  constructor per \<open>'type'\<close> it emits; the formatted \<open>message\<close> text, the
  \<open>checked_at\<close> timestamp, the debugging prints and the rounding of similarities to
  three decimals are not modelled.
\<close>

subsection \<open>Inputs\<close>

record previous_name =
  pn_name :: "string option"
  pn_ceased_on :: "string option"

record overview =
  ov_company_number :: "string option"
  ov_company_name :: "string option"
  ov_previous_names :: "previous_name list option"
  ov_date_of_creation :: "string option"

text \<open>A name change \<open>(change_from, change_to)\<close>; either side may be \<open>None\<close>.\<close>

type_synonym name_change = "string option \<times> string option"

record parsed_doc =
  doc_success :: bool
  doc_file_name :: "string option"
  doc_error :: "string option"
  doc_names :: "string list option"
  doc_type :: "string option"
  doc_incorporation_date :: "string option"
  doc_name_changes :: "name_change list option"
  doc_name_change_date :: "string option"

text \<open>\<open>DateParser\<close>: \<open>parse_date\<close>, \<open>compare_dates\<close> (with its optional tolerance), the
  day difference and \<open>isoformat\<close>.\<close>

record 'd date_parser =
  parse_date :: "string \<Rightarrow> 'd option"
  compare_dates :: "'d \<Rightarrow> 'd \<Rightarrow> nat option \<Rightarrow> bool"
  days_between :: "'d \<Rightarrow> 'd \<Rightarrow> int"
  isoformat :: "'d \<Rightarrow> string"

subsection \<open>Issues\<close>

datatype severity = Critical | High | Medium | Low

type_synonym doc_ref = "string \<times> string \<times> string"

datatype mismatch =
    Name_mismatch severity "string option" "string list" string real "string option"
  | Incorporation_date_mismatch "string option" string string int
  | Name_change_date_mismatch "string option" string string int "string option" "string option"
  | Multiple_name_changes "string option" nat "name_change list"
  | Names_missing_from_overview "string list" "(string \<times> doc_ref list) list"

record warning =
  warn_document :: "string option"
  warn_error :: "string option"

record summary =
  total_mismatches :: nat
  name_mismatches :: nat
  date_mismatches :: nat
  missing_filings :: nat
  extra_names :: nat

record mismatch_result =
  res_company_number :: "string option"
  res_company_name :: "string option"
  res_mismatches :: "mismatch list"
  res_warnings :: "warning list"
  res_summary :: summary

subsection \<open>The checks\<close>

text \<open>Lines 99--115: the current and previous names, normalised.\<close>

definition get_official_names :: "overview \<Rightarrow> string list" where
  "get_official_names prof =
     (case ov_company_name prof of Some n \<Rightarrow> if n = [] then [] else [normalize_name n] | None \<Rightarrow> []) @
     concat (map (\<lambda>p. case pn_name p of Some n \<Rightarrow> if n = [] then [] else [normalize_name n] | None \<Rightarrow> [])
                 (get_default (ov_previous_names prof) []))"

text \<open>Lines 117--122.\<close>

definition get_incorporation_date :: "'d date_parser \<Rightarrow> overview \<Rightarrow> 'd option" where
  "get_incorporation_date dp prof =
     (case ov_date_of_creation prof of Some s \<Rightarrow> if s = [] then None else parse_date dp s | None \<Rightarrow> None)"

text \<open>Lines 137--146: compare with each official name until one matches.\<close>

fun best_official_match :: "string \<Rightarrow> string list \<Rightarrow> real \<Rightarrow> bool \<times> real" where
  "best_official_match found [] best = (False, best)"
| "best_official_match found (off # offs) best =
     (case compare_names found off of
        (sim, True) \<Rightarrow> (True, best)
      | (sim, False) \<Rightarrow> best_official_match found offs (max best sim))"

definition severity_of :: "real \<Rightarrow> severity" where
  "severity_of s =
     (if s < 1 / 2 then Critical else if s < 7 / 10 then High else if s < 17 / 20 then Medium else Low)"

text \<open>Lines 124--170.\<close>

definition check_name_mismatches :: "parsed_doc \<Rightarrow> string list \<Rightarrow> mismatch list" where
  "check_name_mismatches doc offs =
     concat (map (\<lambda>found.
        case best_official_match found offs 0 of
          (True, _) \<Rightarrow> []
        | (False, best) \<Rightarrow>
            [Name_mismatch (severity_of best) (doc_file_name doc) offs found best
               (case offs of [] \<Rightarrow> None | o1 # _ \<Rightarrow> Some o1)])
       (get_default (doc_names doc) []))"

text \<open>Lines 204--235: one name change against every previous name with a cessation date.\<close>

definition check_change_against ::
  "'d date_parser \<Rightarrow> parsed_doc \<Rightarrow> name_change \<Rightarrow> previous_name \<Rightarrow> mismatch list" where
  "check_change_against dp doc ch prev =
     (case pn_ceased_on prev of
        None \<Rightarrow> []
      | Some cs \<Rightarrow>
          if cs = [] then []
          else
            (case doc_name_change_date doc of
               None \<Rightarrow> []
             | Some ds \<Rightarrow>
                 if ds = [] then []
                 else
                   (case (parse_date dp cs, parse_date dp ds) of
                      (Some ceased, Some changed) \<Rightarrow>
                        if \<not> compare_dates dp ceased changed (Some 1)
                        then [Name_change_date_mismatch (doc_file_name doc) (isoformat dp ceased)
                                (isoformat dp changed) (days_between dp changed ceased) (fst ch) (snd ch)]
                        else []
                    | _ \<Rightarrow> [])))"

text \<open>Lines 181--197: the incorporation date against the profile's.\<close>

definition check_incorporation_date ::
  "'d date_parser \<Rightarrow> parsed_doc \<Rightarrow> 'd option \<Rightarrow> mismatch list" where
  "check_incorporation_date dp doc inc =
     (if doc_type doc = Some ''incorporation'' then
        (case inc of
           None \<Rightarrow> []
         | Some i \<Rightarrow>
             (case doc_incorporation_date doc of
                None \<Rightarrow> []
              | Some s \<Rightarrow>
                  if s = [] then []
                  else
                    (case parse_date dp s of
                       Some d \<Rightarrow>
                         if \<not> compare_dates dp i d None
                         then [Incorporation_date_mismatch (doc_file_name doc) (isoformat dp i) (isoformat dp d)
                                 (days_between dp d i)]
                         else []
                     | None \<Rightarrow> [])))
      else [])"

text \<open>Lines 199--235: each name change of the document against each previous name.\<close>

definition check_name_change_dates :: "'d date_parser \<Rightarrow> parsed_doc \<Rightarrow> overview \<Rightarrow> mismatch list" where
  "check_name_change_dates dp doc prof =
     (if doc_type doc = Some ''name_change'' then
        concat (map (\<lambda>ch. concat (map (check_change_against dp doc ch) (get_default (ov_previous_names prof) [])))
                    (get_default (doc_name_changes doc) []))
      else [])"

text \<open>Lines 172--237.\<close>

definition check_date_mismatches ::
  "'d date_parser \<Rightarrow> parsed_doc \<Rightarrow> 'd option \<Rightarrow> overview \<Rightarrow> mismatch list" where
  "check_date_mismatches dp doc inc prof = check_incorporation_date dp doc inc @ check_name_change_dates dp doc prof"

text \<open>Lines 239--256.\<close>

definition check_multiple_names :: "parsed_doc \<Rightarrow> mismatch list" where
  "check_multiple_names doc =
     (let chs = get_default (doc_name_changes doc) [] in
      if 1 < length chs then [Multiple_name_changes (doc_file_name doc) (length chs) chs] else [])"

text \<open>Lines 272--281: the overview's names, upper-cased, stripped and normalised.\<close>

definition overview_names :: "overview \<Rightarrow> string set" where
  "overview_names prof =
     insert (normalize_name (py_strip (py_upper (get_default (ov_company_name prof) []))))
       {normalize_name (py_strip (py_upper (get_default (pn_name p) []))) | p.
          p \<in> set (get_default (ov_previous_names prof) []) \<and>
          py_strip (py_upper (get_default (pn_name p) [])) \<noteq> []}"

definition overview_name_list :: "overview \<Rightarrow> string list" where
  "overview_name_list prof =
     normalize_name (py_strip (py_upper (get_default (ov_company_name prof) []))) #
     map (\<lambda>p. normalize_name (py_strip (py_upper (get_default (pn_name p) []))))
       (filter (\<lambda>p. py_strip (py_upper (get_default (pn_name p) [])) \<noteq> [])
          (get_default (ov_previous_names prof) []))"

text \<open>Lines 286--313: the names found in the incorporation, name-change and
  re-registration documents, grouped by normalised name in order of first sight.\<close>

definition filing_doc_types :: "string list" where
  "filing_doc_types = [''incorporation'', ''name_change'', ''reregistration'']"

definition doc_filing_names :: "parsed_doc \<Rightarrow> (string \<times> doc_ref) list" where
  "doc_filing_names doc =
     (if doc_success doc \<and> get_default (doc_type doc) [] \<in> set filing_doc_types then
        concat (map (\<lambda>n. if normalize_name n = [] then []
                         else [(normalize_name n,
                                (get_default (doc_file_name doc) ''Unknown'', get_default (doc_type doc) [], n))])
                    (get_default (doc_names doc) []))
      else [])"

fun group_names :: "(string \<times> doc_ref) list \<Rightarrow> (string \<times> doc_ref list) list \<Rightarrow> (string \<times> doc_ref list) list" where
  "group_names [] acc = acc"
| "group_names ((n, r) # xs) acc =
     group_names xs (AList.update n (get_default (map_of acc n) [] @ [r]) acc)"

definition test_placeholder :: "string \<times> doc_ref list" where
  "test_placeholder =
     (''TEST COMPANY LIMITED'', [(''test_document.pdf'', ''incorporation'', ''TEST COMPANY LIMITED'')])"

text \<open>
  Lines 258--366.  When no name is missing and there was at least one parsed
  document, the code adds a placeholder entry (lines 324--335).
\<close>

definition check_missing_filings :: "overview \<Rightarrow> parsed_doc list \<Rightarrow> mismatch list" where
  "check_missing_filings prof docs =
     (let official = overview_name_list prof;
          filing = group_names (concat (map doc_filing_names docs)) [];
          missing0 = filter (\<lambda>x. fst x \<notin> set official) filing;
          missing = (if missing0 = [] \<and> docs \<noteq> [] then [test_placeholder] else missing0)
      in if missing = [] then [] else [Names_missing_from_overview (map fst missing) missing])"

text \<open>Lines 17--97.\<close>

definition doc_step ::
  "'d date_parser \<Rightarrow> overview \<Rightarrow> string list \<Rightarrow> 'd option \<Rightarrow> parsed_doc \<Rightarrow> mismatch_result \<Rightarrow> mismatch_result" where
  "doc_step dp prof offs inc doc r =
     (if \<not> doc_success doc then
        r\<lparr>res_warnings := res_warnings r @ [\<lparr>warn_document = doc_file_name doc, warn_error = doc_error doc\<rparr>]\<rparr>
      else
        let ni = check_name_mismatches doc offs;
            di = check_date_mismatches dp doc inc prof;
            mi = check_multiple_names doc;
            s = res_summary r
        in r\<lparr>res_mismatches := res_mismatches r @ ni @ di @ mi,
             res_summary := s\<lparr>name_mismatches := name_mismatches s + length ni,
                               date_mismatches := date_mismatches s + length di,
                               extra_names := extra_names s + length mi\<rparr>\<rparr>)"

definition detect_mismatches ::
  "'d date_parser \<Rightarrow> overview \<Rightarrow> parsed_doc list \<Rightarrow> mismatch_result" where
  "detect_mismatches dp prof docs =
     (let r0 = \<lparr>res_company_number = ov_company_number prof, res_company_name = ov_company_name prof,
                res_mismatches = [], res_warnings = [],
                res_summary = \<lparr>total_mismatches = 0, name_mismatches = 0, date_mismatches = 0,
                               missing_filings = 0, extra_names = 0\<rparr>\<rparr>;
          offs = get_official_names prof;
          inc = get_incorporation_date dp prof;
          r1 = fold (doc_step dp prof offs inc) docs r0;
          mf = check_missing_filings prof docs;
          r2 = r1\<lparr>res_mismatches := res_mismatches r1 @ mf,
                  res_summary := (res_summary r1)\<lparr>missing_filings := missing_filings (res_summary r1) + length mf\<rparr>\<rparr>
      in r2\<lparr>res_summary := (res_summary r2)\<lparr>total_mismatches := length (res_mismatches r2)\<rparr>\<rparr>)"

subsection \<open>A reference for the grouping\<close>

text \<open>
  The names in order of first sight, each with the references of its occurrences
  in order: what the \<open>filing_names\<close> dict of lines 286--313 holds.
\<close>

definition group_ref :: "(string \<times> doc_ref) list \<Rightarrow> (string \<times> doc_ref list) list" where
  "group_ref xs = map (\<lambda>n. (n, map snd (filter (\<lambda>p. fst p = n) xs))) (rev (remdups (rev (map fst xs))))"

subsection \<open>Summary categories\<close>

text \<open>The summary counter each kind of issue is added to in \<open>detect_mismatches\<close>.\<close>

datatype category = Cat_name | Cat_date | Cat_missing | Cat_extra

fun mismatch_category :: "mismatch \<Rightarrow> category" where
  "mismatch_category (Name_mismatch _ _ _ _ _ _) = Cat_name"
| "mismatch_category (Incorporation_date_mismatch _ _ _ _) = Cat_date"
| "mismatch_category (Name_change_date_mismatch _ _ _ _ _ _) = Cat_date"
| "mismatch_category (Multiple_name_changes _ _ _) = Cat_extra"
| "mismatch_category (Names_missing_from_overview _ _) = Cat_missing"

fun summary_count :: "category \<Rightarrow> summary \<Rightarrow> nat" where
  "summary_count Cat_name s = name_mismatches s"
| "summary_count Cat_date s = date_mismatches s"
| "summary_count Cat_missing s = missing_filings s"
| "summary_count Cat_extra s = extra_names s"

definition summary_ok :: "mismatch_result \<Rightarrow> bool" where
  "summary_ok r = (\<forall>k. summary_count k (res_summary r) = length (filter (\<lambda>m. mismatch_category m = k) (res_mismatches r)))"

subsection \<open>Lemmas\<close>

lemma check_name_mismatches_category: "\<forall>m\<in>set (check_name_mismatches doc offs). mismatch_category m = Cat_name"
  by (auto simp: check_name_mismatches_def split: prod.splits bool.splits)

lemma check_change_against_category: "\<forall>m\<in>set (check_change_against dp doc ch prev). mismatch_category m = Cat_date"
  by (auto simp: check_change_against_def split: option.splits prod.splits)

lemma check_incorporation_date_shape:
  "check_incorporation_date dp doc inc = [] \<or>
     (\<exists>f e d n. check_incorporation_date dp doc inc = [Incorporation_date_mismatch f e d n])"
  by (simp add: check_incorporation_date_def split: option.split)

lemma check_incorporation_date_category:
  "\<forall>m\<in>set (check_incorporation_date dp doc inc). mismatch_category m = Cat_date"
  using check_incorporation_date_shape [of dp doc inc] by auto

lemma check_date_mismatches_category: "\<forall>m\<in>set (check_date_mismatches dp doc inc prof). mismatch_category m = Cat_date"
  using check_incorporation_date_category [of dp doc inc] check_change_against_category [of dp doc]
  by (auto simp: check_date_mismatches_def check_name_change_dates_def)

lemma check_multiple_names_category: "\<forall>m\<in>set (check_multiple_names doc). mismatch_category m = Cat_extra"
  by (simp add: check_multiple_names_def Let_def)

lemma check_missing_filings_category: "\<forall>m\<in>set (check_missing_filings prof docs). mismatch_category m = Cat_missing"
  by (simp add: check_missing_filings_def Let_def)

lemma length_filter_category:
  "\<forall>m\<in>set xs. mismatch_category m = c \<Longrightarrow>
     length (filter (\<lambda>m. mismatch_category m = k) xs) = (if k = c then length xs else 0)"
  by (auto simp: filter_id_conv filter_empty_conv)

lemma length_by_category:
  "length xs = length (filter (\<lambda>m. mismatch_category m = Cat_name) xs) + length (filter (\<lambda>m. mismatch_category m = Cat_date) xs)
     + length (filter (\<lambda>m. mismatch_category m = Cat_missing) xs) + length (filter (\<lambda>m. mismatch_category m = Cat_extra) xs)"
proof (induction xs)
  case (Cons m xs)
  then show ?case by (cases "mismatch_category m") auto
qed simp

lemma doc_step_summary_ok: "summary_ok r \<Longrightarrow> summary_ok (doc_step dp prof offs inc doc r)"
  unfolding summary_ok_def
proof (intro allI)
  fix k
  assume ok: "\<forall>k. summary_count k (res_summary r) = length (filter (\<lambda>m. mismatch_category m = k) (res_mismatches r))"
  note cats = length_filter_category [OF check_name_mismatches_category [of doc offs], of k]
    length_filter_category [OF check_date_mismatches_category [of dp doc inc prof], of k]
    length_filter_category [OF check_multiple_names_category [of doc], of k]
  show "summary_count k (res_summary (doc_step dp prof offs inc doc r)) =
          length (filter (\<lambda>m. mismatch_category m = k) (res_mismatches (doc_step dp prof offs inc doc r)))"
    using ok [rule_format, of k] cats by (cases k) (simp_all add: doc_step_def Let_def)
qed

lemma doc_step_warnings:
  "length (res_warnings (doc_step dp prof offs inc doc r)) =
     length (res_warnings r) + (if doc_success doc then 0 else 1)"
  by (simp add: doc_step_def Let_def)

lemma fold_doc_step_summary_ok: "summary_ok r \<Longrightarrow> summary_ok (fold (doc_step dp prof offs inc) docs r)"
  by (induction docs arbitrary: r) (auto intro: doc_step_summary_ok)

lemma fold_doc_step_warnings:
  "length (res_warnings (fold (doc_step dp prof offs inc) docs r)) =
     length (res_warnings r) + length (filter (\<lambda>d. \<not> doc_success d) docs)"
  by (induction docs arbitrary: r) (simp_all add: doc_step_warnings)

lemma group_names_lookup:
  "map_of (group_names xs acc) n =
     (if n \<in> fst ` set xs \<or> map_of acc n \<noteq> None
      then Some (get_default (map_of acc n) [] @ map snd (filter (\<lambda>p. fst p = n) xs)) else None)"
proof (induction xs arbitrary: acc)
  case Nil
  then show ?case by (cases "map_of acc n") (auto simp: get_default_def)
next
  case (Cons p xs)
  obtain m r where p: "p = (m, r)" by (cases p)
  show ?case
    using Cons [of "AList.update m (get_default (map_of acc m) [] @ [r]) acc"]
    by (cases "map_of acc n") (auto simp: p update_conv' get_default_def)
qed

lemma group_names_distinct: "distinct (map fst acc) \<Longrightarrow> distinct (map fst (group_names xs acc))"
  by (induction xs acc rule: group_names.induct) (simp_all add: distinct_update)

lemma map_of_filter_fst: "map_of (filter (\<lambda>x. P (fst x)) al) k = (if P k then map_of al k else None)"
  by (induction al) auto

lemma best_official_match_unmatched:
  "best_official_match found offs b = (False, s) \<Longrightarrow> b < 17 / 20 \<Longrightarrow> s < 17 / 20"
proof (induction offs arbitrary: b)
  case (Cons off offs)
  obtain sim m where c: "compare_names found off = (sim, m)" by (cases "compare_names found off")
  show ?case
  proof (cases m)
    case False
    with c have "compare_names found off = (sim, False)" by simp
    then have "sim < 17 / 20" by (rule compare_names_unmatched)
    with Cons c False show ?thesis by simp
  qed (use Cons c in simp)
qed simp

lemma severity_of_not_low: "s < 17 / 20 \<Longrightarrow> severity_of s \<noteq> Low"
  by (simp add: severity_of_def)

lemma summary_count_total: "summary_count k (s\<lparr>total_mismatches := t\<rparr>) = summary_count k s"
  by (cases k) simp_all

lemma summary_ok_start:
  "summary_ok \<lparr>res_company_number = n, res_company_name = c, res_mismatches = [], res_warnings = [],
                res_summary = \<lparr>total_mismatches = 0, name_mismatches = 0, date_mismatches = 0,
                               missing_filings = 0, extra_names = 0\<rparr>\<rparr>"
  unfolding summary_ok_def by (intro allI, case_tac k) simp_all

lemma summary_ok_missing:
  assumes "summary_ok r"
  shows "summary_ok (r\<lparr>res_mismatches := res_mismatches r @ check_missing_filings prof docs,
            res_summary := (res_summary r)\<lparr>missing_filings := missing_filings (res_summary r)
                                                + length (check_missing_filings prof docs)\<rparr>\<rparr>)"
  unfolding summary_ok_def
proof
  fix k
  show "summary_count k (res_summary (r\<lparr>res_mismatches := res_mismatches r @ check_missing_filings prof docs,
            res_summary := (res_summary r)\<lparr>missing_filings := missing_filings (res_summary r)
                                                + length (check_missing_filings prof docs)\<rparr>\<rparr>)) =
        length (filter (\<lambda>m. mismatch_category m = k) (res_mismatches (r\<lparr>res_mismatches := res_mismatches r @ check_missing_filings prof docs,
            res_summary := (res_summary r)\<lparr>missing_filings := missing_filings (res_summary r)
                                                + length (check_missing_filings prof docs)\<rparr>\<rparr>)))"
    using assms [unfolded summary_ok_def, rule_format, of k]
      length_filter_category [OF check_missing_filings_category [of prof docs], of k]
    by (cases k) simp_all
qed

subsection \<open>Properties\<close>

text \<open>
  Claim C21.  The summary of \<open>detect_mismatches\<close> is consistent with its list of
  issues: each counter is the number of issues of its category, the total is the
  sum of the four counters, and there is one warning per document that failed to
  parse.
\<close>

theorem detect_mismatches_summary:
  "let r = detect_mismatches dp prof docs in
     (\<forall>k. summary_count k (res_summary r) = length (filter (\<lambda>m. mismatch_category m = k) (res_mismatches r))) \<and>
     total_mismatches (res_summary r) =
       name_mismatches (res_summary r) + date_mismatches (res_summary r) + missing_filings (res_summary r)
       + extra_names (res_summary r) \<and>
     length (res_warnings r) = length (filter (\<lambda>d. \<not> doc_success d) docs)"
proof -
  define r0 :: mismatch_result where
    "r0 = \<lparr>res_company_number = ov_company_number prof, res_company_name = ov_company_name prof,
           res_mismatches = [], res_warnings = [],
           res_summary = \<lparr>total_mismatches = 0, name_mismatches = 0, date_mismatches = 0,
                          missing_filings = 0, extra_names = 0\<rparr>\<rparr>"
  define r1 where "r1 = fold (doc_step dp prof (get_official_names prof) (get_incorporation_date dp prof)) docs r0"
  define r2 where "r2 = r1\<lparr>res_mismatches := res_mismatches r1 @ check_missing_filings prof docs,
            res_summary := (res_summary r1)\<lparr>missing_filings := missing_filings (res_summary r1)
                                                + length (check_missing_filings prof docs)\<rparr>\<rparr>"
  have ok2: "summary_ok r2"
    unfolding r2_def r1_def r0_def by (intro summary_ok_missing fold_doc_step_summary_ok summary_ok_start)
  have d: "detect_mismatches dp prof docs =
             r2\<lparr>res_summary := (res_summary r2)\<lparr>total_mismatches := length (res_mismatches r2)\<rparr>\<rparr>"
    by (simp add: detect_mismatches_def r2_def r1_def r0_def Let_def)
  have w: "length (res_warnings r2) = length (filter (\<lambda>d. \<not> doc_success d) docs)"
    using fold_doc_step_warnings [of dp prof _ _ docs r0] by (simp add: r2_def r1_def r0_def)
  have cnt: "summary_count k (res_summary r2) = length (filter (\<lambda>m. mismatch_category m = k) (res_mismatches r2))" for k
    using ok2 by (simp add: summary_ok_def)
  have all: "\<forall>k. summary_count k (res_summary (detect_mismatches dp prof docs)) =
               length (filter (\<lambda>m. mismatch_category m = k) (res_mismatches (detect_mismatches dp prof docs)))"
    using cnt by (simp add: d summary_count_total)
  have "total_mismatches (res_summary (detect_mismatches dp prof docs)) =
          name_mismatches (res_summary r2) + date_mismatches (res_summary r2) + missing_filings (res_summary r2)
          + extra_names (res_summary r2)"
    using cnt [of Cat_name] cnt [of Cat_date] cnt [of Cat_missing] cnt [of Cat_extra]
      length_by_category [of "res_mismatches r2"]
    by (simp add: d)
  with all w show ?thesis by (simp add: d Let_def)
qed

text \<open>
  Claim C19.  \<open>_check_missing_filings\<close> reports an issue for exactly the companies
  that have at least one parsed document: when no filing name is missing from the
  overview, the debugging block adds \<open>TEST COMPANY LIMITED\<close>, so no company with a
  document ever comes out clean, and even a document that failed to parse
  triggers the report.
\<close>

theorem check_missing_filings_iff_docs:
  "check_missing_filings prof docs = [] \<longleftrightarrow> docs = []"
  by (cases docs) (simp_all add: check_missing_filings_def Let_def)

text \<open>
  An unmatched name is reported with a best similarity below 0.85, so
  its severity is never \<open>low\<close>: the branch of lines 156--157 is unreachable,
  because every comparison with similarity 0.85 or more is a match.
\<close>

theorem check_name_mismatches_not_low:
  assumes "Name_mismatch sev f offs' n s bm \<in> set (check_name_mismatches doc offs)"
  shows "sev \<noteq> Low \<and> s < 17 / 20"
proof -
  obtain b where "best_official_match n offs 0 = (False, s)" "sev = severity_of s"
    using assms by (auto simp: check_name_mismatches_def split: prod.splits bool.splits)
  with best_official_match_unmatched [of n offs 0 s] severity_of_not_low [of s] show ?thesis by simp
qed

text \<open>
  A normalised name found in an incorporation, name-change or
  re-registration document and absent from the overview is reported, with every
  document in which it was found, in order.
\<close>

theorem check_missing_filings_reports:
  assumes "(n, r) \<in> set (concat (map doc_filing_names docs))"
    and "n \<notin> set (overview_name_list prof)"
  shows "\<exists>ns g. check_missing_filings prof docs = [Names_missing_from_overview ns g] \<and> n \<in> set ns \<and>
           map_of g n = Some (map snd (filter (\<lambda>p. fst p = n) (concat (map doc_filing_names docs))))"
proof -
  let ?xs = "concat (map doc_filing_names docs)"
  let ?grp = "group_names ?xs []"
  let ?miss = "filter (\<lambda>x. fst x \<notin> set (overview_name_list prof)) ?grp"
  have n_in: "n \<in> fst ` set ?xs" using assms(1) by (metis fst_conv image_eqI)
  have lk: "map_of ?miss n = Some (map snd (filter (\<lambda>p. fst p = n) ?xs))"
    using group_names_lookup [of ?xs "[]" n] n_in assms(2)
    by (simp add: map_of_filter_fst [of "\<lambda>k. k \<notin> set (overview_name_list prof)"])
  have "n \<in> fst ` set ?miss" using map_of_SomeD [OF lk] by (rule rev_image_eqI) simp
  then have "n \<in> set (map fst ?miss)" by simp
  then have ne: "?miss \<noteq> []" by (cases ?miss) simp_all
  have "check_missing_filings prof docs = [Names_missing_from_overview (map fst ?miss) ?miss]"
    by (simp only: check_missing_filings_def Let_def ne simp_thms if_False)
  with lk \<open>n \<in> set (map fst ?miss)\<close> show ?thesis by blast
qed

lemma group_names_fold:
  "group_names xs acc = fold (\<lambda>(n, r) acc. AList.update n (get_default (map_of acc n) [] @ [r]) acc) xs acc"
  by (induction xs acc rule: group_names.induct) simp_all

lemma update_notin: "k \<notin> fst ` set al \<Longrightarrow> AList.update k v al = al @ [(k, v)]"
  by (induction al) auto

lemma update_distinct:
  "distinct (map fst al) \<Longrightarrow>
     AList.update k v al = (if k \<in> fst ` set al then map (\<lambda>p. if fst p = k then (k, v) else p) al else al @ [(k, v)])"
proof (induction al)
  case (Cons a al)
  show ?case
  proof (cases "fst a = k")
    case True
    with Cons.prems have "k \<notin> fst ` set al" by auto
    then have "map (\<lambda>p. if fst p = k then (k, v) else p) al = al" by (intro map_idI) force
    with True show ?thesis by (cases a) simp
  qed (use Cons in \<open>auto simp: update_notin\<close>)
qed simp

lemma group_ref_snoc:
  "group_ref (xs @ [(n, r)]) = AList.update n (get_default (map_of (group_ref xs) n) [] @ [r]) (group_ref xs)"
proof -
  let ?K = "rev (remdups (rev (map fst xs)))"
  have dk: "distinct (map fst (group_ref xs))" by (simp add: group_ref_def comp_def)
  have keys: "fst ` set (group_ref xs) = fst ` set xs" by (auto simp: group_ref_def image_image)
  have lk: "map_of (group_ref xs) n = (if n \<in> fst ` set xs then Some (map snd (filter (\<lambda>p. fst p = n) xs)) else None)"
    by (auto simp: group_ref_def map_of_map_restrict)
  let ?v = "get_default (map_of (group_ref xs) n) [] @ [r]"
  show ?thesis
  proof (cases "n \<in> fst ` set xs")
    case True
    have v: "?v = map snd (filter (\<lambda>p. fst p = n) xs) @ [r]" using lk True by simp
    have u: "AList.update n ?v (group_ref xs) =
               map (\<lambda>p. if fst p = n then (n, map snd (filter (\<lambda>p. fst p = n) xs) @ [r]) else p) (group_ref xs)"
      using update_distinct [OF dk] keys True v by simp
    from True have "rev (remdups (rev (map fst (xs @ [(n, r)])))) = ?K" by auto
    with True show ?thesis
      unfolding u by (simp add: group_ref_def comp_def)
  next
    case False
    have v: "?v = [r]" using lk False by simp
    have u: "AList.update n ?v (group_ref xs) = group_ref xs @ [(n, [r])]"
      using update_distinct [OF dk] keys False v by simp
    from False have "rev (remdups (rev (map fst (xs @ [(n, r)])))) = ?K @ [n]" by auto
    with False show ?thesis
      unfolding u by (auto simp: group_ref_def comp_def filter_empty_conv)
  qed
qed

text \<open>
  Claim C20.  The \<open>filing_names\<close> dict built one occurrence at a time equals the
  declarative grouping: the distinct normalised names in order of first sight,
  each with the references of all its occurrences in order.
\<close>

theorem group_names_eq_group_ref: "group_names xs [] = group_ref xs"
proof (induction xs rule: rev_induct)
  case Nil
  then show ?case by (simp add: group_ref_def)
next
  case (snoc p xs)
  obtain n r where "p = (n, r)" by (cases p)
  with snoc show ?case by (simp add: group_names_fold [of _ "[]"] group_ref_snoc)
qed

end
