(* ===== verification/Detector_Scenarios.thy ===== *)
theory Detector_Scenarios
  imports Mismatch_Detector
begin

text \<open>
  Concrete runs of the mismatch detector: a profile for \<open>ACME LIMITED\<close>
  incorporated on 2020-01-01, and incorporation documents naming it.  Dates are
  ISO strings compared for equality (the date parser is an interface, see
  \<open>Mismatch_Detector\<close>).  The runs show the placeholder issue on a consistent
  company and a report caused by normalising the two sides differently, and
  instantiate the detector theorems.
\<close>

definition string_dates :: "string date_parser" where
  "string_dates = \<lparr>parse_date = (\<lambda>s. if s = [] then None else Some s), compare_dates = (\<lambda>a b t. a = b),
                   days_between = (\<lambda>a b. 0), isoformat = id\<rparr>"

definition acme_profile :: overview where
  "acme_profile = \<lparr>ov_company_number = Some ''01234567'', ov_company_name = Some ''ACME LIMITED'',
                   ov_previous_names = None, ov_date_of_creation = Some ''2020-01-01''\<rparr>"

definition filed_doc :: "string \<Rightarrow> string \<Rightarrow> parsed_doc" where
  "filed_doc f n = \<lparr>doc_success = True, doc_file_name = Some f, doc_error = None, doc_names = Some [n],
                    doc_type = Some ''incorporation'', doc_incorporation_date = Some ''2020-01-01'',
                    doc_name_changes = None, doc_name_change_date = None\<rparr>"

lemma zeta_name_check:
  "check_name_mismatches (filed_doc ''z.pdf'' ''ZETA WIDGETS LIMITED'') [''ACME LIMITED''] =
     [Name_mismatch High (Some ''z.pdf'') [''ACME LIMITED''] ''ZETA WIDGETS LIMITED'' (9 / 16) (Some ''ACME LIMITED'')]"
  by code_simp

lemma acme_comma_filing_names:
  "doc_filing_names (filed_doc ''inc.pdf'' ''ACME LTD,'') =
     [(''ACME LTD'', (''inc.pdf'', ''incorporation'', ''ACME LTD,''))]"
  by code_simp

lemma acme_overview_names: "overview_name_list acme_profile = [''ACME LIMITED'']"
  by code_simp

subsection \<open>Scenarios\<close>

text \<open>
  A company whose incorporation document names it exactly as the
  register does is reported with one issue, the placeholder name
  \<open>TEST COMPANY LIMITED\<close> found in \<open>test_document.pdf\<close>, which appears in neither.
\<close>

theorem consistent_company_flagged:
  "res_mismatches (detect_mismatches string_dates acme_profile [filed_doc ''inc.pdf'' ''ACME LIMITED'']) =
     [Names_missing_from_overview [''TEST COMPANY LIMITED'']
        [(''TEST COMPANY LIMITED'', [(''test_document.pdf'', ''incorporation'', ''TEST COMPANY LIMITED'')])]]"
  by code_simp

text \<open>
  The overview names are normalised once and the filing names once
  more than the suffix rule can absorb: a document naming \<open>ACME LTD,\<close> (the
  comma is removed after the suffix rule, so \<open>LTD\<close> is not expanded) is reported
  as a name missing from the overview of \<open>ACME LIMITED\<close>, while the name check of
  the same document accepts it as a match.
\<close>

theorem abbreviated_name_reported_missing:
  "res_mismatches (detect_mismatches string_dates acme_profile [filed_doc ''inc.pdf'' ''ACME LTD,'']) =
     [Names_missing_from_overview [''ACME LTD''] [(''ACME LTD'', [(''inc.pdf'', ''incorporation'', ''ACME LTD,'')])]]"
  by code_simp

subsection \<open>The detector theorems at concrete inputs\<close>

theorem check_name_mismatches_not_low_witness:
  "check_name_mismatches (filed_doc ''z.pdf'' ''ZETA WIDGETS LIMITED'') [''ACME LIMITED''] =
     [Name_mismatch High (Some ''z.pdf'') [''ACME LIMITED''] ''ZETA WIDGETS LIMITED'' (9 / 16) (Some ''ACME LIMITED'')] \<and>
   High \<noteq> Low \<and> (9 / 16 :: real) < 17 / 20"
  using check_name_mismatches_not_low [of High "Some ''z.pdf''" "[''ACME LIMITED'']" "''ZETA WIDGETS LIMITED''" "9 / 16"
          "Some ''ACME LIMITED''" "filed_doc ''z.pdf'' ''ZETA WIDGETS LIMITED''" "[''ACME LIMITED'']"]
  by (simp add: zeta_name_check)

theorem check_missing_filings_reports_witness:
  "\<exists>ns g. check_missing_filings acme_profile [filed_doc ''inc.pdf'' ''ACME LTD,''] = [Names_missing_from_overview ns g] \<and>
     ''ACME LTD'' \<in> set ns \<and> map_of g ''ACME LTD'' = Some [(''inc.pdf'', ''incorporation'', ''ACME LTD,'')]"
  using check_missing_filings_reports [of "''ACME LTD''" "(''inc.pdf'', ''incorporation'', ''ACME LTD,'')"
          "[filed_doc ''inc.pdf'' ''ACME LTD,'']" acme_profile]
  by (simp add: acme_comma_filing_names acme_overview_names)

end
