(* ===== verification/Batch_Processor.thy ===== *)
theory Batch_Processor
  imports Mismatch_Detector Network_Scanner "HOL-Library.Multiset"
begin

text \<open>
  \<open>BatchProcessor\<close> (\<open>src/core/batch_processor.py\<close>): mismatch detection over a list of
  companies with a checkpoint file, an optional network scan, resumption from a
  checkpoint, and the summary of a run.  The collaborators it calls are an
  environment record: the registry client's \<open>get_company_profile\<close>,
  \<open>get_filing_history\<close> and \<open>download_document\<close> (whose own behaviour is the subject
  of \<open>Api_Client\<close>), \<open>DocumentParser.parse_document\<close> (PDF and OCR input, not
  modelled), the date parser, and the registry the network scanner crawls.  An
  exception is an \<open>Inl\<close> carrying \<open>str(e)\<close>.  The detector is \<open>detect_mismatches\<close> and
  the scanner is \<open>scan_network\<close> of the other theories.  The checkpoint file is its
  content, \<open>None\<close> when it does not exist; \<open>process_companies\<close> returns the list of
  contents it writes, in order.  Timestamps, the progress callback and the
  printed messages are not modelled.
\<close>

subsection \<open>Inputs, results and the environment\<close>

record filing =
  filing_category :: "string option"
  filing_description :: "string option"
  filing_document_metadata :: "string option"
  filing_transaction_id :: "string option"

text \<open>The profile dict: the keys the detector reads and \<open>company_status\<close>.\<close>

record company_profile = overview +
  cp_company_status :: "string option"

record ('d, 'p) batch_env =
  get_profile :: "company_number \<Rightarrow> api_error + company_profile"
  get_filings :: "company_number \<Rightarrow> api_error + filing list"
  download :: "string \<Rightarrow> company_number \<Rightarrow> api_error + 'p"
  parse_doc :: "'p \<Rightarrow> bool \<Rightarrow> string + parsed_doc"
  dates :: "'d date_parser"
  scan_registry :: registry

record company_result =
  cr_company_number :: company_number
  cr_company_name :: "string option"
  cr_company_status :: "string option"
  cr_total_filings :: nat
  cr_relevant_filings :: nat
  cr_parsed_documents :: nat
  cr_mismatches :: mismatch_result

datatype batch_error = Company_error company_number string | Network_scan_error string

record batch_results =
  br_company_numbers :: "company_number list"
  br_scan_network :: bool
  br_processed :: "company_number list"
  br_results :: "company_result list"
  br_network :: "network option"
  br_errors :: "batch_error list"
  br_total_processed :: "nat option"
  br_total_errors :: "nat option"

definition config_checkpoint_interval :: nat where
  "config_checkpoint_interval = 10"

subsection \<open>One company (lines 141--236)\<close>

definition relevant_categories :: "string list" where
  "relevant_categories = [''incorporation'', ''change-of-name'', ''reregistration'', ''resolution'']"

definition is_relevant_filing :: "filing \<Rightarrow> bool" where
  "is_relevant_filing f =
     (let category = get_default (filing_category f) [];
          description = py_lower (get_default (filing_description f) [])
      in category \<in> set relevant_categories \<or> py_contains ''change of name'' description \<or>
         py_contains ''changed its name'' description)"

definition filter_relevant_filings :: "filing list \<Rightarrow> filing list" where
  "filter_relevant_filings fs = filter is_relevant_filing fs"

text \<open>\<open>links.get('document_metadata', '').split('/')[-1]\<close>\<close>

definition document_id :: "filing \<Rightarrow> string" where
  "document_id f = last (py_split CHR ''/'' (get_default (filing_document_metadata f) []))"

text \<open>Lines 173--193: a failed download or parse is printed and skipped.\<close>

definition parse_filing :: "('d, 'p) batch_env \<Rightarrow> bool \<Rightarrow> company_number \<Rightarrow> filing \<Rightarrow> parsed_doc list" where
  "parse_filing env use_ai cn f =
     (let did = document_id f in
      if did = [] then []
      else
        (case download env did cn of
           Inl _ \<Rightarrow> []
         | Inr p \<Rightarrow> (case parse_doc env p use_ai of Inl _ \<Rightarrow> [] | Inr d \<Rightarrow> [d])))"

definition process_single_company ::
  "('d, 'p) batch_env \<Rightarrow> bool \<Rightarrow> company_number \<Rightarrow> string + company_result" where
  "process_single_company env use_ai cn =
     (case get_profile env cn of
        Inl e \<Rightarrow> Inl (error_str e)
      | Inr prof \<Rightarrow>
          (case get_filings env cn of
             Inl e \<Rightarrow> Inl (error_str e)
           | Inr fh \<Rightarrow>
               (let relevant = filter_relevant_filings fh;
                    docs = concat (map (parse_filing env use_ai cn) (take 10 relevant))
                in Inr \<lparr>cr_company_number = cn, cr_company_name = ov_company_name prof,
                        cr_company_status = cp_company_status prof, cr_total_filings = length fh,
                        cr_relevant_filings = length relevant, cr_parsed_documents = length docs,
                        cr_mismatches = detect_mismatches (dates env) (overview.truncate prof) docs\<rparr>)))"

subsection \<open>The batch (lines 34--139, 250--279)\<close>

definition fresh_results :: "company_number list \<Rightarrow> bool \<Rightarrow> batch_results" where
  "fresh_results cns scan =
     \<lparr>br_company_numbers = cns, br_scan_network = scan, br_processed = [], br_results = [],
      br_network = None, br_errors = [], br_total_processed = None, br_total_errors = None\<rparr>"

text \<open>
  Lines 78--107: one company of the list, at position \<open>idx\<close>.  \<open>processed\<close> is the
  set read from the checkpoint at the start; it is not updated in the loop.  The
  state is the results and the checkpoint contents written so far.
\<close>

fun batch_step ::
  "('d, 'p) batch_env \<Rightarrow> bool \<Rightarrow> company_number list \<Rightarrow> nat \<times> company_number \<Rightarrow>
     batch_results \<times> batch_results list \<Rightarrow> batch_results \<times> batch_results list" where
  "batch_step env use_ai processed (idx, cn) (r, saves) =
     (if cn \<in> set processed then (r, saves)
      else
        (case process_single_company env use_ai cn of
           Inr cr \<Rightarrow>
             (let r' = r\<lparr>br_results := br_results r @ [cr], br_processed := br_processed r @ [cn]\<rparr>
              in (r', if Suc idx mod config_checkpoint_interval = 0 then saves @ [r'] else saves))
         | Inl msg \<Rightarrow> (r\<lparr>br_errors := br_errors r @ [Company_error cn msg]\<rparr>, saves)))"

definition scan_params :: "int \<Rightarrow> bool \<Rightarrow> scan_config" where
  "scan_params depth active = \<lparr>max_depth = depth, max_companies = 100, active_only = active\<rparr>"

definition process_companies ::
  "('d, 'p) batch_env \<Rightarrow> company_number list \<Rightarrow> bool \<Rightarrow> int \<Rightarrow> bool \<Rightarrow> bool \<Rightarrow> batch_results option \<Rightarrow>
     batch_results \<times> batch_results list" where
  "process_companies env cns scan depth active use_ai ck =
     (let r0 = (case ck of Some r \<Rightarrow> r | None \<Rightarrow> fresh_results cns scan);
          processed = (case ck of Some r \<Rightarrow> br_processed r | None \<Rightarrow> []);
          (r1, saves) = fold (batch_step env use_ai processed) (enumerate 0 cns) (r0, []);
          r2 = (if scan then r1\<lparr>br_network := Some (scan_network (scan_params depth active) (scan_registry env) cns)\<rparr>
                else r1);
          r3 = r2\<lparr>br_total_processed := Some (length (br_processed r2)),
                  br_total_errors := Some (length (br_errors r2))\<rparr>
      in (r3, saves @ [r3]))"

text \<open>Lines 250--279: the defaults of \<open>process_companies\<close> stand for the other parameters.\<close>

definition resume_from_checkpoint ::
  "('d, 'p) batch_env \<Rightarrow> batch_results option \<Rightarrow> string + batch_results \<times> batch_results list" where
  "resume_from_checkpoint env ck =
     (case ck of
        None \<Rightarrow> Inl ''Checkpoint file not found''
      | Some r \<Rightarrow> Inr (process_companies env (br_company_numbers r) (br_scan_network r) 1 True False (Some r)))"

subsection \<open>The summary (lines 281--323)\<close>

text \<open>The \<open>'type'\<close> key of each issue dict of \<open>src/mismatch_detector.py\<close>.\<close>

fun mismatch_type :: "mismatch \<Rightarrow> string" where
  "mismatch_type (Name_mismatch _ _ _ _ _ _) = ''name_mismatch''"
| "mismatch_type (Incorporation_date_mismatch _ _ _ _) = ''incorporation_date_mismatch''"
| "mismatch_type (Name_change_date_mismatch _ _ _ _ _ _) = ''name_change_date_mismatch''"
| "mismatch_type (Multiple_name_changes _ _ _) = ''multiple_name_changes''"
| "mismatch_type (Names_missing_from_overview _ _) = ''names_in_filings_missing_from_overview''"

record processing_summary =
  ps_total_companies :: nat
  ps_processed_companies :: nat
  ps_total_errors :: nat
  ps_total_mismatches :: nat
  ps_companies_with_mismatches :: nat
  ps_mismatch_types :: "(string \<times> nat) list"
  ps_network :: "(nat \<times> nat \<times> nat) option"

definition count_type :: "string \<Rightarrow> (string \<times> nat) list \<Rightarrow> (string \<times> nat) list" where
  "count_type t d = AList.update t (get_default (map_of d t) 0 + 1) d"

definition summary_step :: "company_result \<Rightarrow> processing_summary \<Rightarrow> processing_summary" where
  "summary_step cr s =
     (let ms = res_mismatches (cr_mismatches cr) in
      if ms = [] then s
      else s\<lparr>ps_companies_with_mismatches := ps_companies_with_mismatches s + 1,
             ps_total_mismatches := ps_total_mismatches s + length ms,
             ps_mismatch_types := fold (\<lambda>m. count_type (mismatch_type m)) ms (ps_mismatch_types s)\<rparr>)"

definition get_processing_summary :: "batch_results \<Rightarrow> processing_summary" where
  "get_processing_summary r =
     (let s0 = \<lparr>ps_total_companies = length (br_company_numbers r),
                ps_processed_companies = get_default (br_total_processed r) 0,
                ps_total_errors = get_default (br_total_errors r) 0,
                ps_total_mismatches = 0, ps_companies_with_mismatches = 0, ps_mismatch_types = [],
                ps_network = None\<rparr>;
          s1 = fold summary_step (br_results r) s0
      in s1\<lparr>ps_network := map_option (\<lambda>n. (total_companies (statistics n), total_directors (statistics n),
                                              total_connections (statistics n))) (br_network r)\<rparr>)"

definition accounted :: "company_number list \<Rightarrow> batch_results \<Rightarrow> company_number \<Rightarrow> bool" where
  "accounted processed r cn \<longleftrightarrow>
     cn \<in> set processed \<or> cn \<in> set (br_processed r) \<or> (\<exists>msg. Company_error cn msg \<in> set (br_errors r))"

definition result_ok :: "company_result \<Rightarrow> bool" where
  "result_ok cr \<longleftrightarrow> (res_mismatches (cr_mismatches cr) = [] \<longleftrightarrow> cr_parsed_documents cr = 0)"

text \<open>The types of all issues of a list of company results, in order.\<close>

definition all_types :: "company_result list \<Rightarrow> string list" where
  "all_types rs = concat (map (\<lambda>cr. map mismatch_type (res_mismatches (cr_mismatches cr))) rs)"

subsection \<open>Lemmas: one company\<close>

lemma process_single_company_Inr:
  assumes "process_single_company env use_ai cn = Inr cr"
  obtains prof fh where "get_profile env cn = Inr prof" "get_filings env cn = Inr fh"
    "cr = \<lparr>cr_company_number = cn, cr_company_name = ov_company_name prof,
           cr_company_status = cp_company_status prof, cr_total_filings = length fh,
           cr_relevant_filings = length (filter_relevant_filings fh),
           cr_parsed_documents = length (concat (map (parse_filing env use_ai cn) (take 10 (filter_relevant_filings fh)))),
           cr_mismatches = detect_mismatches (dates env) (overview.truncate prof)
                             (concat (map (parse_filing env use_ai cn) (take 10 (filter_relevant_filings fh))))\<rparr>"
  using assms by (auto simp: process_single_company_def Let_def split: sum.splits)

lemma length_parse_filing: "length (parse_filing env use_ai cn f) \<le> 1"
  by (simp add: parse_filing_def Let_def split: sum.split)

lemma length_concat_le_one: "(\<And>x. length (g x) \<le> 1) \<Longrightarrow> length (concat (map g xs)) \<le> length xs"
proof (induction xs)
  case (Cons x xs)
  have "length (g x) \<le> 1" by (rule Cons.prems)
  moreover have "length (concat (map g xs)) \<le> length xs" by (rule Cons.IH) (rule Cons.prems)
  ultimately show ?case by simp
qed simp

lemma detect_mismatches_Nil_iff: "res_mismatches (detect_mismatches dp prof docs) = [] \<longleftrightarrow> docs = []"
  by (cases docs) (simp_all add: detect_mismatches_def check_missing_filings_def Let_def)

lemma process_single_company_ok: "process_single_company env use_ai cn = Inr cr \<Longrightarrow> result_ok cr"
  by (erule process_single_company_Inr) (simp add: result_ok_def detect_mismatches_Nil_iff)

subsection \<open>Lemmas: the loop\<close>

lemma batch_step_grows:
  "batch_step env use_ai processed (i, cn) (r, s) = (r', s') \<Longrightarrow>
     set (br_processed r) \<subseteq> set (br_processed r') \<and> set (br_errors r) \<subseteq> set (br_errors r') \<and>
     set (br_results r) \<subseteq> set (br_results r') \<and> accounted processed r' cn \<and>
     (\<forall>cr\<in>set (br_results r') - set (br_results r). result_ok cr) \<and>
     br_company_numbers r' = br_company_numbers r \<and> br_scan_network r' = br_scan_network r \<and>
     br_network r' = br_network r"
  by (auto simp: accounted_def Let_def process_single_company_ok split: if_splits sum.splits)

lemma accounted_mono:
  "accounted processed r cn \<Longrightarrow> set (br_processed r) \<subseteq> set (br_processed r') \<Longrightarrow>
     set (br_errors r) \<subseteq> set (br_errors r') \<Longrightarrow> accounted processed r' cn"
  unfolding accounted_def by blast

lemma fold_batch_step:
  "fold (batch_step env use_ai processed) (enumerate n xs) (r, s) = (r', s') \<Longrightarrow>
     set (br_processed r) \<subseteq> set (br_processed r') \<and> set (br_errors r) \<subseteq> set (br_errors r') \<and>
     (\<forall>cn\<in>set xs. accounted processed r' cn) \<and>
     (\<forall>cr\<in>set (br_results r') - set (br_results r). result_ok cr) \<and>
     br_company_numbers r' = br_company_numbers r \<and> br_scan_network r' = br_scan_network r \<and>
     br_network r' = br_network r"
proof (induction xs arbitrary: n r s)
  case Nil
  then show ?case by simp
next
  case (Cons x xs)
  obtain r1 s1 where st: "batch_step env use_ai processed (n, x) (r, s) = (r1, s1)" by fastforce
  with Cons.prems have rest: "fold (batch_step env use_ai processed) (enumerate (Suc n) xs) (r1, s1) = (r', s')"
    by simp
  note ih = Cons.IH [OF rest] and one = batch_step_grows [OF st]
  have "accounted processed r' x" using one ih accounted_mono [of processed r1 x r'] by blast
  with ih one show ?case by auto
qed

lemma fold_batch_step_all_ok:
  "fold (batch_step env use_ai []) (enumerate n xs) (r, s) = (r', s') \<Longrightarrow>
     (\<forall>c\<in>set xs. \<exists>cr. process_single_company env use_ai c = Inr cr) \<Longrightarrow>
     br_processed r' = br_processed r @ xs \<and> map cr_company_number (br_results r') = map cr_company_number (br_results r) @ xs \<and>
     br_errors r' = br_errors r"
proof (induction xs arbitrary: n r s)
  case (Cons x xs)
  obtain cr where cr: "process_single_company env use_ai x = Inr cr" using Cons.prems(2) by auto
  then have "cr_company_number cr = x" by (rule process_single_company_Inr) simp
  with cr Cons.prems Cons.IH [of "Suc n" "r\<lparr>br_results := br_results r @ [cr], br_processed := br_processed r @ [x]\<rparr>"]
  show ?case by (simp add: Let_def)
qed simp

lemma fold_batch_step_skip:
  "set xs \<subseteq> set processed \<Longrightarrow> fold (batch_step env use_ai processed) (enumerate n xs) (r, s) = (r, s)"
  by (induction xs arbitrary: n) auto

lemma process_companies_fields:
  assumes "fold (batch_step env use_ai (case ck of Some r \<Rightarrow> br_processed r | None \<Rightarrow> [])) (enumerate 0 cns)
             (case ck of Some r \<Rightarrow> r | None \<Rightarrow> fresh_results cns scan, []) = (r1, saves)"
  shows "br_processed (fst (process_companies env cns scan depth active use_ai ck)) = br_processed r1"
    "br_results (fst (process_companies env cns scan depth active use_ai ck)) = br_results r1"
    "br_errors (fst (process_companies env cns scan depth active use_ai ck)) = br_errors r1"
    "br_company_numbers (fst (process_companies env cns scan depth active use_ai ck)) = br_company_numbers r1"
    "br_scan_network (fst (process_companies env cns scan depth active use_ai ck)) = br_scan_network r1"
    "br_network (fst (process_companies env cns scan depth active use_ai ck)) =
       (if scan then Some (scan_network (scan_params depth active) (scan_registry env) cns) else br_network r1)"
    "snd (process_companies env cns scan depth active use_ai ck) =
       saves @ [fst (process_companies env cns scan depth active use_ai ck)]"
    "br_total_processed (fst (process_companies env cns scan depth active use_ai ck)) = Some (length (br_processed r1))"
  using assms by (simp_all add: process_companies_def Let_def)

subsection \<open>Lemmas: the summary\<close>

lemma count_type_lookup:
  "get_default (map_of (count_type t d) u) 0 = get_default (map_of d u) 0 + (if u = t then 1 else 0)"
  by (cases "map_of d t") (auto simp: count_type_def update_conv')

lemma fold_count_type:
  "get_default (map_of (fold (\<lambda>m. count_type (mismatch_type m)) ms d) u) 0 =
     get_default (map_of d u) 0 + count (mset (map mismatch_type ms)) u"
  by (induction ms arbitrary: d) (simp_all add: count_type_lookup)

lemma fold_count_type_keys:
  "set (map fst (fold (\<lambda>m. count_type (mismatch_type m)) ms d)) = set (map fst d) \<union> set (map mismatch_type ms)"
  by (induction ms arbitrary: d) (auto simp: count_type_def map_fst_update_set [simplified])

lemma fold_summary_step:
  "get_default (map_of (ps_mismatch_types (fold summary_step rs s)) u) 0 =
     get_default (map_of (ps_mismatch_types s) u) 0 + count (mset (all_types rs)) u \<and>
   set (map fst (ps_mismatch_types (fold summary_step rs s))) = set (map fst (ps_mismatch_types s)) \<union> set (all_types rs) \<and>
   ps_total_mismatches (fold summary_step rs s) = ps_total_mismatches s + length (all_types rs) \<and>
   ps_companies_with_mismatches (fold summary_step rs s) =
     ps_companies_with_mismatches s + length (filter (\<lambda>cr. res_mismatches (cr_mismatches cr) \<noteq> []) rs)"
proof (induction rs arbitrary: s)
  case (Cons cr rs)
  show ?case
    using Cons [of "summary_step cr s"] fold_count_type [of "res_mismatches (cr_mismatches cr)" "ps_mismatch_types s" u]
      fold_count_type_keys [of "res_mismatches (cr_mismatches cr)" "ps_mismatch_types s"]
    by (auto simp: summary_step_def all_types_def Let_def)
qed (simp add: all_types_def)

subsection \<open>Properties\<close>

lemma process_companies_accounted:
  assumes "cn \<in> set cns"
  shows "cn \<in> set (br_processed (fst (process_companies env cns scan depth active use_ai ck))) \<or>
         (\<exists>msg. Company_error cn msg \<in> set (br_errors (fst (process_companies env cns scan depth active use_ai ck))))"
proof -
  let ?processed = "case ck of Some r \<Rightarrow> br_processed r | None \<Rightarrow> []"
  let ?r0 = "case ck of Some r \<Rightarrow> r | None \<Rightarrow> fresh_results cns scan"
  obtain r1 saves where fo: "fold (batch_step env use_ai ?processed) (enumerate 0 cns) (?r0, []) = (r1, saves)"
    by fastforce
  note f = fold_batch_step [OF fo]
  have sub: "set ?processed \<subseteq> set (br_processed r1)" using f by (cases ck) auto
  have "accounted ?processed r1 cn" using f assms by blast
  then have "cn \<in> set (br_processed r1) \<or> (\<exists>msg. Company_error cn msg \<in> set (br_errors r1))"
    using sub unfolding accounted_def by blast
  then show ?thesis by (simp add: process_companies_fields [OF fo])
qed

lemma process_companies_numbers:
  "br_company_numbers (fst (process_companies env cns scan depth active use_ai None)) = cns"
proof -
  obtain r1 saves where fo: "fold (batch_step env use_ai []) (enumerate 0 cns) (fresh_results cns scan, []) = (r1, saves)"
    by fastforce
  then show ?thesis
    using fold_batch_step [OF fo] process_companies_fields(4) [of env use_ai None cns scan r1 saves]
    by (simp add: fresh_results_def)
qed

text \<open>
  Claim C22.  Every company of the list is accounted for at the end of a run: it
  is among the processed companies, or an error is recorded for it.
\<close>

theorem process_companies_accounts:
  assumes "cn \<in> set cns"
  shows "cn \<in> set (br_processed (fst (process_companies env cns scan depth active use_ai ck))) \<or>
         (\<exists>msg. Company_error cn msg \<in> set (br_errors (fst (process_companies env cns scan depth active use_ai ck))))"
  using assms by (rule process_companies_accounted)

text \<open>
  Claim C23.  When every company succeeds, a run from no checkpoint processes the
  list exactly as given, repeated numbers included: \<open>processed\<close> is read once
  from the checkpoint and not updated, so a number listed twice is processed and
  counted twice.
\<close>

theorem process_companies_all_ok:
  assumes "\<forall>c\<in>set cns. \<exists>cr. process_single_company env use_ai c = Inr cr"
  shows "br_processed (fst (process_companies env cns scan depth active use_ai None)) = cns \<and>
         map cr_company_number (br_results (fst (process_companies env cns scan depth active use_ai None))) = cns \<and>
         br_total_processed (fst (process_companies env cns scan depth active use_ai None)) = Some (length cns) \<and>
         br_errors (fst (process_companies env cns scan depth active use_ai None)) = []"
proof -
  obtain r1 saves where fo: "fold (batch_step env use_ai []) (enumerate 0 cns) (fresh_results cns scan, []) = (r1, saves)"
    by fastforce
  from fold_batch_step_all_ok [OF fo assms] process_companies_fields [where ck = None, simplified, OF fo]
  show ?thesis by (simp add: fresh_results_def)
qed

text \<open>
  Claim C24.  The checkpoint file holds the results a run returns, and resuming
  from it after a run that processed every company processes nothing again: the
  processed companies, the results and the errors are unchanged.  The network is
  scanned again with the defaults \<open>network_depth = 1\<close> and \<open>active_only = True\<close>,
  not with the parameters of the first run.
\<close>

theorem resume_after_complete_run:
  assumes run: "process_companies env cns scan depth active use_ai None = (r, saves)"
    and all: "set cns \<subseteq> set (br_processed r)"
  shows "\<exists>r' saves'. resume_from_checkpoint env (Some (last saves)) = Inr (r', saves') \<and> last saves' = r' \<and>
           br_processed r' = br_processed r \<and> br_results r' = br_results r \<and> br_errors r' = br_errors r \<and>
           br_network r' = (if scan then Some (scan_network (scan_params 1 True) (scan_registry env) cns) else None)"
proof -
  obtain r1 s1 where fo: "fold (batch_step env use_ai []) (enumerate 0 cns) (fresh_results cns scan, []) = (r1, s1)"
    by fastforce
  note f = fold_batch_step [OF fo]
    and pf = process_companies_fields [where ck = None and depth = depth and active = active, simplified, OF fo]
  have last: "last saves = r" using pf(7) run by simp
  have cn: "br_company_numbers r = cns" "br_scan_network r = scan"
    using pf(4,5) f run by (simp_all add: fresh_results_def)
  have nw: "br_network r = (if scan then Some (scan_network (scan_params depth active) (scan_registry env) cns) else None)"
    using pf(6) f run by (simp add: fresh_results_def)
  have skip: "fold (batch_step env False (br_processed r)) (enumerate 0 cns) (r, []) = (r, [])"
    using all by (rule fold_batch_step_skip)
  note pf2 = process_companies_fields [where ck = "Some r" and scan = scan and depth = 1 and active = True,
                simplified, OF skip]
  let ?p = "process_companies env cns scan 1 True False (Some r)"
  have "resume_from_checkpoint env (Some (last saves)) = Inr ?p"
    by (simp add: resume_from_checkpoint_def last cn)
  moreover obtain p1 p2 where p: "?p = (p1, p2)" by fastforce
  moreover have "last p2 = p1" using pf2(7) p by simp
  ultimately show ?thesis
    using pf2 nw p by (intro exI [of _ p1] exI [of _ p2]) (cases scan; simp)
qed

text \<open>
  Claim C25.  The \<open>mismatch_types\<close> dict of the summary refines the multiset of the
  types of all issues in the results: each type maps to its multiplicity, the
  keys are exactly the types that occur, and \<open>total_mismatches\<close> is the size of
  the multiset.
\<close>

theorem processing_summary_types:
  "get_default (map_of (ps_mismatch_types (get_processing_summary r)) t) 0 = count (mset (all_types (br_results r))) t \<and>
   set (map fst (ps_mismatch_types (get_processing_summary r))) = set_mset (mset (all_types (br_results r))) \<and>
   ps_total_mismatches (get_processing_summary r) = size (mset (all_types (br_results r)))"
  using fold_summary_step [of "br_results r" _ t] by (simp add: get_processing_summary_def Let_def)

text \<open>Claim C38. 
  Across the batch and the detector: after a run from no checkpoint,
  \<open>companies_with_mismatches\<close> is the number of processed companies with at least
  one parsed document, whatever the documents say (the detector's placeholder
  issue).
\<close>

theorem batch_companies_with_mismatches:
  "ps_companies_with_mismatches (get_processing_summary (fst (process_companies env cns scan depth active use_ai None))) =
     length (filter (\<lambda>cr. 0 < cr_parsed_documents cr) (br_results (fst (process_companies env cns scan depth active use_ai None))))"
proof -
  obtain r1 saves where fo: "fold (batch_step env use_ai []) (enumerate 0 cns) (fresh_results cns scan, []) = (r1, saves)"
    by fastforce
  have ok: "\<forall>cr\<in>set (br_results r1). result_ok cr"
    using fold_batch_step [OF fo] by (simp add: fresh_results_def)
  have "filter (\<lambda>cr. res_mismatches (cr_mismatches cr) \<noteq> []) (br_results r1) =
          filter (\<lambda>cr. 0 < cr_parsed_documents cr) (br_results r1)"
    using ok by (intro filter_cong) (auto simp: result_ok_def)
  then show ?thesis
    using fold_summary_step [of "br_results r1"] process_companies_fields [where ck = None, simplified, OF fo]
    by (simp add: get_processing_summary_def Let_def)
qed

text \<open>
  A processed company has at most ten parsed documents, no more than
  its relevant filings, which are no more than its filings.
\<close>

theorem process_single_company_bounds:
  assumes "process_single_company env use_ai cn = Inr cr"
  shows "cr_parsed_documents cr \<le> 10 \<and> cr_parsed_documents cr \<le> cr_relevant_filings cr \<and>
         cr_relevant_filings cr \<le> cr_total_filings cr"
proof -
  have le: "length (concat (map (parse_filing env use_ai cn) xs)) \<le> length xs" for xs
    by (rule length_concat_le_one) (rule length_parse_filing)
  from assms show ?thesis
  proof (rule process_single_company_Inr)
    fix prof fh
    assume cr: "cr = \<lparr>cr_company_number = cn, cr_company_name = ov_company_name prof,
           cr_company_status = cp_company_status prof, cr_total_filings = length fh,
           cr_relevant_filings = length (filter_relevant_filings fh),
           cr_parsed_documents = length (concat (map (parse_filing env use_ai cn) (take 10 (filter_relevant_filings fh)))),
           cr_mismatches = detect_mismatches (dates env) (overview.truncate prof)
                             (concat (map (parse_filing env use_ai cn) (take 10 (filter_relevant_filings fh))))\<rparr>"
    have "length (take 10 (filter_relevant_filings fh)) \<le> 10"
      "length (take 10 (filter_relevant_filings fh)) \<le> length (filter_relevant_filings fh)"
      "length (filter_relevant_filings fh) \<le> length fh"
      by (simp_all add: filter_relevant_filings_def)
    with le [of "take 10 (filter_relevant_filings fh)"] show ?thesis
      by (simp add: cr)
  qed
qed

end
