(* ===== verification/Batch_Scenarios.thy ===== *)
theory Batch_Scenarios
  imports Batch_Processor Detector_Scenarios Crawl_Scenarios
begin

text \<open>
  Concrete environments for the batch processor: a registry that answers every
  profile and filing-history request (\<open>ok_env\<close>), the same registry with twelve
  incorporation filings whose documents parse (\<open>busy_env\<close>), and one whose profile
  requests fail with HTTP 503 (\<open>down_env\<close>).  They instantiate the batch theorems
  and show that an error of an earlier run stays in the results after the company
  succeeds on resumption.
\<close>

definition acme_company_profile :: "company_number \<Rightarrow> company_profile" where
  "acme_company_profile cn =
     \<lparr>ov_company_number = Some cn, ov_company_name = Some ''ACME LIMITED'', ov_previous_names = None,
      ov_date_of_creation = None, cp_company_status = Some ''active''\<rparr>"

definition ok_env :: "(string, unit) batch_env" where
  "ok_env = \<lparr>get_profile = (\<lambda>cn. Inr (acme_company_profile cn)), get_filings = (\<lambda>cn. Inr []),
             download = (\<lambda>d cn. Inr ()), parse_doc = (\<lambda>p ai. Inl ''no text''), dates = string_dates,
             scan_registry = alist_registry [] [] [] []\<rparr>"

definition incorporation_filing :: filing where
  "incorporation_filing =
     \<lparr>filing_category = Some ''incorporation'', filing_description = Some ''incorporation-company'',
      filing_document_metadata = Some ''https://document-api/document/abc'', filing_transaction_id = Some ''t1''\<rparr>"

definition busy_env :: "(string, unit) batch_env" where
  "busy_env = ok_env\<lparr>get_filings := (\<lambda>cn. Inr (replicate 12 incorporation_filing)),
                     parse_doc := (\<lambda>p ai. Inr (filed_doc ''inc.pdf'' ''ACME LIMITED''))\<rparr>"

definition down_env :: "(string, unit) batch_env" where
  "down_env = ok_env\<lparr>get_profile := (\<lambda>cn. Inl (Http_error 503 ''Service Unavailable'' (''/company/'' @ cn)))\<rparr>"

lemma ok_env_single [simp]:
  "process_single_company ok_env False cn =
     Inr \<lparr>cr_company_number = cn, cr_company_name = Some ''ACME LIMITED'', cr_company_status = Some ''active'',
          cr_total_filings = 0, cr_relevant_filings = 0, cr_parsed_documents = 0,
          cr_mismatches = detect_mismatches string_dates (overview.truncate (acme_company_profile cn)) []\<rparr>"
  by (simp add: process_single_company_def ok_env_def filter_relevant_filings_def acme_company_profile_def)

lemma incorporation_filing_facts:
  "document_id incorporation_filing = ''abc''" "is_relevant_filing incorporation_filing"
  by code_simp+

lemma concat_replicate_single: "concat (replicate n [d]) = replicate n d"
  by (induction n) auto

lemma busy_env_parsed: "process_single_company busy_env False ''A'' =
     Inr \<lparr>cr_company_number = ''A'', cr_company_name = Some ''ACME LIMITED'', cr_company_status = Some ''active'',
          cr_total_filings = 12, cr_relevant_filings = 12, cr_parsed_documents = 10,
          cr_mismatches = detect_mismatches string_dates (overview.truncate (acme_company_profile ''A''))
                            (replicate 10 (filed_doc ''inc.pdf'' ''ACME LIMITED''))\<rparr>"
  by (simp add: process_single_company_def busy_env_def ok_env_def filter_relevant_filings_def
        acme_company_profile_def parse_filing_def incorporation_filing_facts concat_replicate_single)

lemma ok_run_A: "br_processed (fst (process_companies ok_env [''A''] False 1 True False None)) = [''A'']"
  by (simp add: process_companies_def fresh_results_def Let_def)

subsection \<open>Scenarios\<close>

text \<open>
  A company whose profile request failed in a first run and succeeds
  when the run is resumed is processed, but the error of the first run stays in
  the results and in \<open>total_errors\<close>.
\<close>

theorem resume_keeps_stale_error:
  "let r = fst (process_companies down_env [''A''] False 1 True False None);
       r' = fst (process_companies ok_env (br_company_numbers r) (br_scan_network r) 1 True False (Some r))
   in br_processed r' = [''A''] \<and>
      br_errors r' = [Company_error ''A'' ''503 Server Error: Service Unavailable for url: /company/A''] \<and>
      br_total_errors r' = Some 1 \<and> ps_total_errors (get_processing_summary r') = 1"
  by code_simp

subsection \<open>The batch theorems at concrete inputs\<close>

theorem process_companies_accounts_witness:
  "''A'' \<in> set [''A''] \<and>
   (''A'' \<in> set (br_processed (fst (process_companies down_env [''A''] False 1 True False None))) \<or>
    (\<exists>msg. Company_error ''A'' msg \<in> set (br_errors (fst (process_companies down_env [''A''] False 1 True False None)))))"
  using process_companies_accounts [of "''A''" "[''A'']" down_env False 1 True False None] by simp

theorem process_companies_all_ok_witness:
  "br_processed (fst (process_companies ok_env [''A'', ''A''] False 1 True False None)) = [''A'', ''A''] \<and>
   map cr_company_number (br_results (fst (process_companies ok_env [''A'', ''A''] False 1 True False None))) = [''A'', ''A''] \<and>
   br_total_processed (fst (process_companies ok_env [''A'', ''A''] False 1 True False None)) = Some 2 \<and>
   br_errors (fst (process_companies ok_env [''A'', ''A''] False 1 True False None)) = []"
  using process_companies_all_ok [of "[''A'', ''A'']" ok_env False False 1 True] by simp

theorem resume_after_complete_run_witness:
  "\<exists>r' saves'. resume_from_checkpoint ok_env (Some (last (snd (process_companies ok_env [''A''] False 1 True False None)))) =
        Inr (r', saves') \<and> last saves' = r' \<and>
      br_processed r' = [''A''] \<and> br_network r' = None"
  using resume_after_complete_run [of ok_env "[''A'']" False 1 True False
          "fst (process_companies ok_env [''A''] False 1 True False None)"
          "snd (process_companies ok_env [''A''] False 1 True False None)"]
  by (simp add: ok_run_A) blast

theorem process_single_company_bounds_witness:
  "\<exists>cr. process_single_company busy_env False ''A'' = Inr cr \<and> cr_parsed_documents cr = 10 \<and>
     cr_relevant_filings cr = 12 \<and> cr_parsed_documents cr \<le> 10 \<and> cr_parsed_documents cr \<le> cr_relevant_filings cr \<and>
     cr_relevant_filings cr \<le> cr_total_filings cr"
  using process_single_company_bounds [OF busy_env_parsed] busy_env_parsed by simp

end
