(* ===== verification/PDF_Processor.thy ===== *)
theory PDF_Processor
  imports Name_Parser
begin

text \<open>
  \<open>PDFProcessor\<close> (\<open>src/pdf_processor.py\<close>): native text extraction with the OCR
  fallback (\<open>extract_text_from_pdf\<close>, \<open>_extract_native_text\<close>,
  \<open>_extract_with_ocr\<close>), the vision services behind \<open>extract_with_ai\<close>, the PDF
  metadata with \<open>_parse_pdf_date\<close>, \<open>analyze_document_type\<close> and \<open>clean_text\<close>.
  PyPDF2, pdf2image, Tesseract and the HTTP services are not modelled: a
  downloaded document is the record of what they report for it, an exception
  being \<open>Inl\<close> with its message.  Extraction returns the text together with the
  list of back ends it ran, in order, so that the cost of a call can be stated.
  Characters are ASCII: \<open>str.lower\<close>, \<open>str.strip\<close>, \<open>\d\<close>, \<open>\s\<close> and \<open>\b\<close> are read on
  ASCII letters, digits and blanks.
\<close>

subsection \<open>Documents and configuration\<close>

text \<open>
  A downloaded PDF as the libraries see it: its path and \<open>Path.name\<close>; PyPDF2's
  reader (an exception, or per page the result of \<open>extract_text()\<close>) and its
  document information dictionary; the pages pdf2image renders for Tesseract (an
  exception, or per page Tesseract's text or exception); the answer of the XAI
  chat endpoint for each rendered page (status code, and the message content when
  the JSON has one); the OpenAI vision call (an exception, or the content).
\<close>

record pdf_file =
  pf_path :: string
  pf_name :: string
  pf_reader :: "string + string option list"
  pf_info :: "(string \<times> string) list"
  pf_ocr :: "string + (string + string) list"
  pf_xai :: "string + (int \<times> string option) list"
  pf_openai :: "string + string"

text \<open>\<open>Config.AI_PROVIDER\<close>, \<open>Config.XAI_API_KEY\<close>, \<open>Config.OPENAI_API_KEY\<close>.\<close>

record ai_config =
  ai_provider :: string
  xai_api_key :: string
  openai_api_key :: string

text \<open>The extraction back ends, in the order a call runs them.\<close>

datatype extraction = Ex_native | Ex_ocr | Ex_ai

text \<open>The values of the metadata dictionary.\<close>

datatype meta_value = Meta_int nat | Meta_str string | Meta_date "string option"

definition is_digit :: "char \<Rightarrow> bool" where
  "is_digit c \<longleftrightarrow> 48 \<le> (of_char c :: nat) \<and> (of_char c :: nat) \<le> 57"

definition is_upper :: "char \<Rightarrow> bool" where
  "is_upper c \<longleftrightarrow> 65 \<le> (of_char c :: nat) \<and> (of_char c :: nat) \<le> 90"

subsection \<open>Text extraction (lines 34--120)\<close>

text \<open>\<open>_extract_native_text\<close>: each page's text that is truthy, followed by a newline.\<close>

definition native_page :: "string option \<Rightarrow> string" where
  "native_page pt = (if py_truthy pt then the pt @ [nl] else [])"

definition extract_native_text :: "pdf_file \<Rightarrow> string + string" where
  "extract_native_text f =
     (case pf_reader f of Inl e \<Rightarrow> Inl e | Inr pages \<Rightarrow> Inr (concat (map native_page pages)))"

text \<open>\<open>_extract_with_ocr\<close>: a page whose OCR raises is skipped.\<close>

definition ocr_page :: "nat \<times> (string + string) \<Rightarrow> string" where
  "ocr_page p =
     (case snd p of
        Inl e \<Rightarrow> []
      | Inr t \<Rightarrow> [nl] @ ''--- Page '' @ show_nat (fst p + 1) @ '' ---'' @ [nl] @ t @ [nl])"

definition extract_with_ocr :: "pdf_file \<Rightarrow> string + string" where
  "extract_with_ocr f =
     (case pf_ocr f of Inl e \<Rightarrow> Inl e | Inr pages \<Rightarrow> Inr (concat (map ocr_page (enumerate 0 pages))))"

text \<open>
  \<open>extract_text_from_pdf\<close>: the native text, replaced by the OCR text when OCR is
  enabled, the native text has fewer than 100 non-blank-bounded characters and the
  OCR text is longer.  Any exception lands in the handler, which runs OCR again
  (when enabled) and keeps the text it had if OCR raises there too.
\<close>

definition extract_text_from_pdf :: "pdf_file \<Rightarrow> bool \<Rightarrow> string \<times> extraction list" where
  "extract_text_from_pdf f use_ocr =
     (case extract_native_text f of
        Inr t \<Rightarrow>
          (if use_ocr \<and> length (py_strip t) < 100 then
             (case extract_with_ocr f of
                Inr ot \<Rightarrow> (if length t < length ot then ot else t, [Ex_native, Ex_ocr])
              | Inl e \<Rightarrow> (case extract_with_ocr f of Inr ot \<Rightarrow> ot | Inl e' \<Rightarrow> t,
                          [Ex_native, Ex_ocr, Ex_ocr]))
           else (t, [Ex_native]))
      | Inl e \<Rightarrow>
          (if use_ocr then (case extract_with_ocr f of Inr ot \<Rightarrow> ot | Inl e' \<Rightarrow> [], [Ex_native, Ex_ocr])
           else ([], [Ex_native])))"

subsection \<open>The vision services (lines 122--257)\<close>

text \<open>
  \<open>_extract_with_xai\<close>: the first three pages; an answer with status 200 adds its
  page, another status is skipped, and a 200 answer without content raises, which
  the handler turns into the empty text.
\<close>

fun xai_pages :: "nat \<Rightarrow> (int \<times> string option) list \<Rightarrow> string list option" where
  "xai_pages i [] = Some []"
| "xai_pages i (r # rs) =
     (if fst r = 200 then
        (case snd r of
           None \<Rightarrow> None
         | Some t \<Rightarrow> map_option (Cons (''--- Page '' @ show_nat (i + 1) @ '' ---'' @ [nl] @ t))
                                 (xai_pages (Suc i) rs))
      else xai_pages (Suc i) rs)"

definition extract_with_xai :: "ai_config \<Rightarrow> pdf_file \<Rightarrow> string" where
  "extract_with_xai cfg f =
     (if xai_api_key cfg = [] then []
      else (case pf_xai f of
              Inl e \<Rightarrow> []
            | Inr rs \<Rightarrow> (case xai_pages 0 (take 3 rs) of None \<Rightarrow> [] | Some ts \<Rightarrow> py_join [nl, nl] ts)))"

definition extract_with_openai :: "ai_config \<Rightarrow> pdf_file \<Rightarrow> string" where
  "extract_with_openai cfg f =
     (if openai_api_key cfg = [] then [] else (case pf_openai f of Inl e \<Rightarrow> [] | Inr t \<Rightarrow> t))"

definition extract_with_ai :: "ai_config \<Rightarrow> pdf_file \<Rightarrow> string" where
  "extract_with_ai cfg f =
     (if ai_provider cfg = ''xai'' then extract_with_xai cfg f else extract_with_openai cfg f)"

subsection \<open>Metadata (lines 265--324)\<close>

text \<open>\<open>re.search(r'D:(\d{4})(\d{2})(\d{2})(\d{2})(\d{2})(\d{2})', s)\<close>: the fourteen
  digits of the leftmost match.\<close>

definition pdf_date_at :: "string \<Rightarrow> string option" where
  "pdf_date_at s =
     (let ds = take 14 (drop 2 s)
      in if take 2 s = ''D:'' \<and> length ds = 14 \<and> list_all is_digit ds then Some ds else None)"

fun search_pdf_date :: "string \<Rightarrow> string option" where
  "search_pdf_date [] = None"
| "search_pdf_date (c # cs) =
     (case pdf_date_at (c # cs) of Some ds \<Rightarrow> Some ds | None \<Rightarrow> search_pdf_date cs)"

definition pdf_date_iso :: "string \<Rightarrow> string" where
  "pdf_date_iso ds =
     take 4 ds @ ''-'' @ take 2 (drop 4 ds) @ ''-'' @ take 2 (drop 6 ds) @ ''T'' @
     take 2 (drop 8 ds) @ '':'' @ take 2 (drop 10 ds) @ '':'' @ take 2 (drop 12 ds)"

definition parse_pdf_date :: "string \<Rightarrow> string option" where
  "parse_pdf_date s = map_option pdf_date_iso (search_pdf_date s)"

text \<open>\<open>pdf_reader.metadata.get(key, '')\<close>\<close>

definition info_get :: "pdf_file \<Rightarrow> string \<Rightarrow> string" where
  "info_get f k = get_default (map_of (pf_info f) k) []"

definition info_date :: "pdf_file \<Rightarrow> string \<Rightarrow> string \<Rightarrow> (string \<times> meta_value) list" where
  "info_date f k key = (if info_get f k = [] then [] else [(key, Meta_date (parse_pdf_date (info_get f k)))])"

definition extract_metadata :: "pdf_file \<Rightarrow> (string \<times> meta_value) list" where
  "extract_metadata f =
     (case pf_reader f of
        Inl e \<Rightarrow> []
      | Inr pages \<Rightarrow>
          [(''num_pages'', Meta_int (length pages))] @
          (if pf_info f = [] then []
           else [(''title'', Meta_str (info_get f ''/Title'')), (''author'', Meta_str (info_get f ''/Author'')),
                 (''subject'', Meta_str (info_get f ''/Subject'')), (''creator'', Meta_str (info_get f ''/Creator'')),
                 (''producer'', Meta_str (info_get f ''/Producer''))] @
                info_date f ''/CreationDate'' ''creation_date'' @ info_date f ''/ModDate'' ''modification_date''))"

subsection \<open>Document type (lines 326--355)\<close>

definition analyze_document_type :: "string \<Rightarrow> string" where
  "analyze_document_type text =
     (let l = py_lower text in
      if py_contains ''certificate of incorporation'' l then ''incorporation''
      else if py_contains ''change of name'' l \<or> py_contains ''changed its name'' l then ''name_change''
      else if py_contains ''annual accounts'' l \<or> py_contains ''financial statements'' l then ''accounts''
      else if py_contains ''confirmation statement'' l \<or> py_contains ''annual return'' l
        then ''confirmation_statement''
      else if py_contains ''re-registration'' l then ''re_registration''
      else if py_contains ''appointment'' l \<and> py_contains ''director'' l then ''director_appointment''
      else if py_contains ''resignation'' l \<and> py_contains ''director'' l then ''director_resignation''
      else if py_contains ''registered office'' l then ''address_change''
      else ''unknown'')"

definition document_types :: "string list" where
  "document_types =
     [''incorporation'', ''name_change'', ''accounts'', ''confirmation_statement'', ''re_registration'',
      ''director_appointment'', ''director_resignation'', ''address_change'', ''unknown'']"

subsection \<open>Cleaning (lines 357--383)\<close>

text \<open>\<open>re.sub(r' +', ' ', s)\<close>\<close>

fun squeeze_spaces :: "string \<Rightarrow> string" where
  "squeeze_spaces [] = []"
| "squeeze_spaces [c] = [c]"
| "squeeze_spaces (c # d # cs) =
     (if c = CHR '' '' \<and> d = CHR '' '' then squeeze_spaces (d # cs) else c # squeeze_spaces (d # cs))"

text \<open>
  \<open>re.sub(r'\n\s*\n', '\n\n', s)\<close>: at a newline the greedy \<open>\s*\<close> takes the whole
  blank run that follows and backs off to its last newline; with no newline in the
  run there is no match and the scan moves on.
\<close>

definition blank_run_tail :: "string \<Rightarrow> string" where
  "blank_run_tail run = rev (takeWhile (\<lambda>c. c \<noteq> nl) (rev run))"

function blank_lines :: "string \<Rightarrow> string" where
  "blank_lines [] = []"
| "blank_lines (c # cs) =
     (if c = nl \<and> nl \<in> set (takeWhile is_space cs)
      then [nl, nl] @ blank_lines (blank_run_tail (takeWhile is_space cs) @ dropWhile is_space cs)
      else c # blank_lines cs)"
  by pat_completeness auto

termination blank_lines
proof (relation "measure length")
  fix c cs
  have "length (blank_run_tail (takeWhile is_space cs)) \<le> length (takeWhile is_space cs)"
    unfolding blank_run_tail_def by (metis length_rev length_takeWhile_le)
  then have "length (blank_run_tail (takeWhile is_space cs) @ dropWhile is_space cs) \<le> length cs"
    by (metis add_le_mono1 length_append takeWhile_dropWhile_id)
  then show "(blank_run_tail (takeWhile is_space cs) @ dropWhile is_space cs, c # cs) \<in> measure length"
    by simp
qed simp_all

text \<open>\<open>re.sub(r'\b0\b', 'O', s)\<close>: a zero with no word character on either side.\<close>

fun zero_to_o :: "char option \<Rightarrow> string \<Rightarrow> string" where
  "zero_to_o p [] = []"
| "zero_to_o p (c # cs) =
     (if c = CHR ''0'' \<and> \<not> (case p of Some b \<Rightarrow> is_word_char b | None \<Rightarrow> False) \<and>
         \<not> (case cs of d # _ \<Rightarrow> is_word_char d | [] \<Rightarrow> False)
      then CHR ''O'' else c) # zero_to_o (Some c) cs"

text \<open>\<open>re.sub(r'l(?=[A-Z])', 'I', s)\<close>\<close>

fun l_before_upper :: "string \<Rightarrow> string" where
  "l_before_upper [] = []"
| "l_before_upper [c] = [c]"
| "l_before_upper (c # d # cs) =
     (if c = CHR ''l'' \<and> is_upper d then CHR ''I'' else c) # l_before_upper (d # cs)"

text \<open>\<open>re.sub(r'(?<=[A-Z])l(?=[A-Z])', 'I', s)\<close>\<close>

fun l_between_upper :: "char option \<Rightarrow> string \<Rightarrow> string" where
  "l_between_upper p [] = []"
| "l_between_upper p (c # cs) =
     (if c = CHR ''l'' \<and> (case p of Some b \<Rightarrow> is_upper b | None \<Rightarrow> False) \<and>
         (case cs of d # _ \<Rightarrow> is_upper d | [] \<Rightarrow> False)
      then CHR ''I'' else c) # l_between_upper (Some c) cs"

definition clean_text :: "string \<Rightarrow> string" where
  "clean_text text =
     py_strip (l_between_upper None (l_before_upper (zero_to_o None (blank_lines (squeeze_spaces text)))))"

text \<open>Where a string has its spaces: two adjacent spaces are a pair of adjacent \<open>True\<close>s.\<close>

definition space_mask :: "string \<Rightarrow> bool list" where
  "space_mask s = map (\<lambda>c. c = CHR '' '') s"

subsection \<open>Extraction\<close>

lemma extract_text_from_pdf_native_kept:
  assumes "extract_native_text f = Inr t"
  shows "length t \<le> length (fst (extract_text_from_pdf f use_ocr))"
  using assms by (auto simp: extract_text_from_pdf_def split: sum.split)

text \<open>
  Claim C29.  When the native text is short and OCR raises, the handler runs OCR a
  second time: the document is rendered and read by Tesseract twice, and the call
  returns the native text.
\<close>

theorem extract_text_ocr_retried:
  assumes "extract_native_text f = Inr t" and "length (py_strip t) < 100" and "extract_with_ocr f = Inl e"
  shows "extract_text_from_pdf f True = (t, [Ex_native, Ex_ocr, Ex_ocr])"
  using assms by (simp add: extract_text_from_pdf_def)

subsection \<open>Cleaning\<close>

lemma prefix_spaces_mask: "prefix ''  '' xs = prefix [True, True] (space_mask xs)"
  by (cases xs; cases "tl xs") (auto simp: space_mask_def)

lemma py_contains_spaces_mask: "py_contains ''  '' s = sublist [True, True] (space_mask s)"
proof (induction s)
  case Nil then show ?case by (simp add: space_mask_def)
next
  case (Cons c cs)
  then show ?case
    using prefix_spaces_mask [of "c # cs"]
    by (simp add: py_contains_sublist sublist_Cons_right space_mask_def)
qed

lemma zero_to_o_mask: "space_mask (zero_to_o p s) = space_mask s"
  by (induction p s rule: zero_to_o.induct) (simp_all add: space_mask_def)

lemma l_before_upper_mask: "space_mask (l_before_upper s) = space_mask s"
  by (induction s rule: l_before_upper.induct) (simp_all add: space_mask_def)

lemma l_between_upper_mask: "space_mask (l_between_upper p s) = space_mask s"
  by (induction p s rule: l_between_upper.induct) (simp_all add: space_mask_def)

lemma squeeze_spaces_hd: "\<exists>r. squeeze_spaces (c # cs) = c # r"
  by (induction "c # cs" arbitrary: c cs rule: squeeze_spaces.induct) auto

lemma py_contains_pair_Cons:
  "py_contains [a, b] (c # d # cs) = (c = a \<and> d = b \<or> py_contains [a, b] (d # cs))"
  by auto

lemma squeeze_spaces_no_double: "\<not> py_contains ''  '' (squeeze_spaces s)"
proof (induction s rule: squeeze_spaces.induct)
  case (3 c d cs)
  obtain r where r: "squeeze_spaces (d # cs) = d # r" using squeeze_spaces_hd by blast
  with 3 show ?case by (auto simp del: py_contains.simps simp add: py_contains_pair_Cons)
qed simp_all

lemma blank_lines_hd: "\<exists>r. blank_lines (c # cs) = c # r"
  by (cases "c = nl") auto

lemma blank_run_tail_suffix: "suffix (blank_run_tail (takeWhile P cs) @ dropWhile P cs) cs"
proof -
  have "prefix (takeWhile (\<lambda>c. c \<noteq> nl) (rev (takeWhile P cs))) (rev (takeWhile P cs))"
    by (metis takeWhile_dropWhile_id prefixI)
  then have "suffix (blank_run_tail (takeWhile P cs)) (takeWhile P cs)"
    unfolding blank_run_tail_def suffix_to_prefix by simp
  then show ?thesis by (metis suffix_append takeWhile_dropWhile_id)
qed

lemma blank_lines_no_double:
  "\<not> py_contains ''  '' s \<Longrightarrow> \<not> py_contains ''  '' (blank_lines s)"
proof (induction s rule: blank_lines.induct)
  case 1 then show ?case by simp
next
  case (2 c cs)
  show ?case
  proof (cases "c = nl \<and> nl \<in> set (takeWhile is_space cs)")
    case True
    let ?t = "blank_run_tail (takeWhile is_space cs) @ dropWhile is_space cs"
    have "sublist ?t (c # cs)"
      using suffix_imp_sublist [OF blank_run_tail_suffix [of is_space cs]] by (simp add: sublist_Cons_right)
    then have "\<not> py_contains ''  '' ?t"
      using "2.prems" by (metis py_contains_sublist sublist_order.order.trans)
    with "2.IH"(1) True have "\<not> py_contains ''  '' (blank_lines ?t)" by blast
    with True show ?thesis by (simp add: nl_def)
  next
    case False
    have "\<not> py_contains ''  '' cs" using "2.prems" by simp
    with "2.IH"(2) False have ih: "\<not> py_contains ''  '' (blank_lines cs)" by blast
    show ?thesis
    proof (cases cs)
      case Nil then show ?thesis using False by simp
    next
      case (Cons d ds)
      obtain r where r: "blank_lines (d # ds) = d # r" using blank_lines_hd by blast
      have "blank_lines (c # cs) = c # d # r" using False Cons r by simp
      with "2.prems" ih Cons r show ?thesis
        by (simp del: py_contains.simps add: py_contains_pair_Cons)
    qed
  qed
qed


lemma py_strip_sublist: "sublist (py_strip s) s"
proof -
  have "prefix (rev (dropWhile is_space (rev (dropWhile is_space s)))) (dropWhile is_space s)"
    by (metis prefix_def rev_append rev_rev_ident takeWhile_dropWhile_id)
  moreover have "suffix (dropWhile is_space s) s"
    by (metis suffix_def takeWhile_dropWhile_id)
  ultimately show ?thesis
    unfolding py_strip_def by (meson prefix_imp_sublist suffix_imp_sublist sublist_order.order.trans)
qed

text \<open>Claim C37. 
  \<open>clean_text\<close> removes multiple spaces: its result never contains two
  adjacent spaces, whatever the OCR fixes and the blank-line rule do.
\<close>

theorem clean_text_no_double_space: "\<not> py_contains ''  '' (clean_text s)"
proof -
  have "\<not> py_contains ''  '' (blank_lines (squeeze_spaces s))"
    by (rule blank_lines_no_double [OF squeeze_spaces_no_double])
  then have "\<not> py_contains ''  ''
               (l_between_upper None (l_before_upper (zero_to_o None (blank_lines (squeeze_spaces s)))))"
    by (simp only: py_contains_spaces_mask zero_to_o_mask l_before_upper_mask l_between_upper_mask) simp
  then show ?thesis
    unfolding clean_text_def by (metis py_contains_sublist py_strip_sublist sublist_order.order.trans)
qed

subsection \<open>PDF dates\<close>

lemma search_pdf_date_at_start:
  "length ds = 14 \<Longrightarrow> list_all is_digit ds \<Longrightarrow> search_pdf_date (''D:'' @ ds @ rest) = Some ds"
  by (simp add: pdf_date_at_def)

text \<open>
  A PDF date \<open>D:YYYYMMDDHHmmSS\<close> followed by anything (a time zone) is
  parsed into an ISO timestamp that carries exactly its fourteen digits, in order.
\<close>

theorem parse_pdf_date_roundtrip:
  assumes "length ds = 14" and "list_all is_digit ds"
  shows "map_option (filter is_digit) (parse_pdf_date (''D:'' @ ds @ rest)) = Some ds"
proof -
  obtain a b c d e f g h i j k l m n where ds: "ds = [a, b, c, d, e, f, g, h, i, j, k, l, m, n]"
    using assms(1) by (simp add: numeral_eq_Suc length_Suc_conv) blast
  have "filter is_digit (pdf_date_iso ds) = ds"
    using assms(2) by (simp add: ds pdf_date_iso_def is_digit_def)
  then show ?thesis using search_pdf_date_at_start [OF assms] by (simp add: parse_pdf_date_def)
qed

end
