(* ===== verification/Document_Parser.thy ===== *)
theory Document_Parser
  imports PDF_Processor Batch_Processor
begin

text \<open>
  \<open>DocumentParser\<close> (\<open>src/parsers/document_parser.py\<close>): \<open>parse_document\<close> chooses
  the extraction back ends from its three flags, cleans the text, classifies it
  and extracts names and dates; every exception of its body becomes the
  \<open>error\<close> of a result with \<open>success = False\<close>.  \<open>parse_batch\<close> and
  \<open>extract_for_mismatch_detection\<close> call it with the default flags, and the batch
  processor calls it with the flags derived from its AI toggle
  (\<open>src/core/batch_processor.py\<close>, lines 184--189).  The regular-expression scans of
  \<open>NameParser\<close> (\<open>extract_names\<close>, \<open>extract_name_changes\<close>) and \<open>DateParser\<close> (not in
  the repository) are the services of \<open>doc_services\<close>; the date scans may raise.
  The result dictionary is \<open>parse_result\<close>, which extends the detector's view
  \<open>parsed_doc\<close> by the keys the detector does not read; a key absent from the
  dictionary is \<open>None\<close>.  The timestamp \<open>parsed_at\<close> is not modelled.
\<close>

record 'e doc_services =
  names_of :: "string \<Rightarrow> string list"
  name_changes_of :: "string \<Rightarrow> name_change list"
  dates_of :: "string \<Rightarrow> string \<Rightarrow> string + 'e list"
  incorporation_date_of :: "string \<Rightarrow> string + 'e option"
  name_change_date_of :: "string \<Rightarrow> string + 'e option"
  date_iso :: "'e \<Rightarrow> string"
  ai_settings :: ai_config

record parse_result = parsed_doc +
  pr_file_path :: string
  pr_text_length :: "nat option"
  pr_metadata :: "(string \<times> meta_value) list option"
  pr_dates :: "string list option"
  pr_text_preview :: "string option option"

subsection \<open>\<open>parse_document\<close> (lines 21--109)\<close>

definition initial_result :: "pdf_file \<Rightarrow> parse_result" where
  "initial_result f =
     \<lparr>doc_success = False, doc_file_name = Some (pf_name f), doc_error = None, doc_names = None,
      doc_type = None, doc_incorporation_date = None, doc_name_changes = None, doc_name_change_date = None,
      pr_file_path = pf_path f, pr_text_length = None, pr_metadata = None, pr_dates = None,
      pr_text_preview = None\<rparr>"

text \<open>
  Lines 47--59: OCR first when both \<open>prefer_ocr\<close> and \<open>use_ocr\<close> hold; the AI
  service when the text is empty or shorter than 50 characters after stripping and
  \<open>use_ai\<close> holds; otherwise, when the text is empty, PyPDF2 without OCR.
\<close>

definition document_text ::
  "'e doc_services \<Rightarrow> pdf_file \<Rightarrow> bool \<Rightarrow> bool \<Rightarrow> bool \<Rightarrow> string \<times> extraction list" where
  "document_text svc f use_ocr use_ai prefer_ocr =
     (let (t0, tr0) = (if prefer_ocr \<and> use_ocr then extract_text_from_pdf f True else ([], []))
      in if (t0 = [] \<or> length (py_strip t0) < 50) \<and> use_ai then (extract_with_ai (ai_settings svc) f, tr0 @ [Ex_ai])
         else if t0 = [] then (let (t1, tr1) = extract_text_from_pdf f False in (t1, tr0 @ tr1))
         else (t0, tr0))"

text \<open>Lines 84--90: the date specific to the document type.\<close>

definition specific_dates :: "'e doc_services \<Rightarrow> string \<Rightarrow> string \<Rightarrow> string + 'e option \<times> 'e option" where
  "specific_dates svc ct dt =
     (if dt = ''incorporation'' then
        (case incorporation_date_of svc ct of Inl e \<Rightarrow> Inl e | Inr d \<Rightarrow> Inr (d, None))
      else if dt = ''name_change'' then
        (case name_change_date_of svc ct of Inl e \<Rightarrow> Inl e | Inr d \<Rightarrow> Inr (None, d))
      else Inr (None, None))"

text \<open>Lines 65--107: analysis of the extracted text, an exception becoming the error.\<close>

definition analyse_text :: "'e doc_services \<Rightarrow> pdf_file \<Rightarrow> string \<Rightarrow> parse_result \<Rightarrow> parse_result" where
  "analyse_text svc f text r =
     (let ct = clean_text text; dt = analyze_document_type ct; md = extract_metadata f;
          names = names_of svc ct; ncs = name_changes_of svc ct
      in case dates_of svc ct dt of
           Inl e \<Rightarrow> r\<lparr>doc_error := Some e\<rparr>
         | Inr ds \<Rightarrow>
             (case specific_dates svc ct dt of
                Inl e \<Rightarrow> r\<lparr>doc_error := Some e\<rparr>
              | Inr (inc, nc) \<Rightarrow>
                  r\<lparr>doc_success := True, doc_type := Some dt, pr_text_length := Some (length ct),
                    pr_metadata := Some md, doc_names := Some names, doc_name_changes := Some ncs,
                    pr_dates := Some (map (date_iso svc) ds),
                    doc_incorporation_date := map_option (date_iso svc) inc,
                    doc_name_change_date := map_option (date_iso svc) nc,
                    pr_text_preview := Some (if ct = [] then None else Some (take 500 ct))\<rparr>))"

definition parse_document ::
  "'e doc_services \<Rightarrow> pdf_file \<Rightarrow> bool \<Rightarrow> bool \<Rightarrow> bool \<Rightarrow> parse_result \<times> extraction list" where
  "parse_document svc f use_ocr use_ai prefer_ocr =
     (let (text, tr) = document_text svc f use_ocr use_ai prefer_ocr; r = initial_result f
      in if text = [] then (r\<lparr>doc_error := Some ''No text could be extracted from document''\<rparr>, tr)
         else (analyse_text svc f text r, tr))"

subsection \<open>The callers (lines 111--156; \<open>batch_processor.py\<close> lines 184--189)\<close>

definition parse_batch :: "'e doc_services \<Rightarrow> pdf_file list \<Rightarrow> bool \<Rightarrow> parse_result list" where
  "parse_batch svc fs use_ocr = map (\<lambda>f. fst (parse_document svc f use_ocr False True)) fs"

text \<open>A failed parse is returned whole; a successful one as the eight keys the detector needs.\<close>

definition extract_for_mismatch_detection ::
  "'e doc_services \<Rightarrow> pdf_file \<Rightarrow> parse_result + parsed_doc \<times> string list" where
  "extract_for_mismatch_detection svc f =
     (let r = fst (parse_document svc f True False True)
      in if \<not> doc_success r then Inl r
         else Inr (\<lparr>doc_success = True, doc_file_name = doc_file_name r, doc_error = None,
                    doc_names = doc_names r, doc_type = doc_type r,
                    doc_incorporation_date = doc_incorporation_date r, doc_name_changes = doc_name_changes r,
                    doc_name_change_date = doc_name_change_date r\<rparr>,
                   get_default (pr_dates r) []))"

text \<open>\<open>_process_single_company\<close>: OCR only without the AI toggle, AI only with it.\<close>

definition batch_parse :: "'e doc_services \<Rightarrow> pdf_file \<Rightarrow> bool \<Rightarrow> parse_result \<times> extraction list" where
  "batch_parse svc f use_ai = parse_document svc f (\<not> use_ai) use_ai (\<not> use_ai)"

text \<open>
  The batch environment whose documents are parsed by \<open>DocumentParser\<close>:
  \<open>parse_document\<close> never raises, and the whole result dictionary is appended.
\<close>

definition with_document_parser ::
  "('d, pdf_file) batch_env \<Rightarrow> 'e doc_services \<Rightarrow> ('d, pdf_file) batch_env" where
  "with_document_parser env svc =
     env\<lparr>parse_doc := (\<lambda>f ai. Inr (parsed_doc.truncate (fst (batch_parse svc f ai))))\<rparr>"

text \<open>
  The shape of every result: \<open>success\<close> exactly when there is no error; a
  successful result has every key of lines 93--104, a document type of
  \<open>analyze_document_type\<close>, and a specific date only for its type; a failed one has
  only the keys of lines 37--43 (and the error).
\<close>

definition parse_result_wf :: "parse_result \<Rightarrow> bool" where
  "parse_result_wf r \<longleftrightarrow>
     doc_file_name r \<noteq> None \<and> (doc_success r \<longleftrightarrow> doc_error r = None) \<and>
     (if doc_success r then
        doc_type r \<in> Some ` set document_types \<and> doc_names r \<noteq> None \<and> doc_name_changes r \<noteq> None \<and>
        pr_dates r \<noteq> None \<and> pr_metadata r \<noteq> None \<and> pr_text_length r \<noteq> None \<and> pr_text_preview r \<noteq> None \<and>
        (doc_incorporation_date r = None \<or> doc_type r = Some ''incorporation'') \<and>
        (doc_name_change_date r = None \<or> doc_type r = Some ''name_change'')
      else
        doc_type r = None \<and> doc_names r = None \<and> doc_name_changes r = None \<and> pr_dates r = None \<and>
        pr_metadata r = None \<and> pr_text_length r = None \<and> pr_text_preview r = None \<and>
        doc_incorporation_date r = None \<and> doc_name_change_date r = None)"

subsection \<open>The shape of the result\<close>

lemma analyze_document_type_range: "analyze_document_type t \<in> set document_types"
  by (simp add: analyze_document_type_def document_types_def Let_def)

lemma specific_dates_Inr:
  "specific_dates svc ct dt = Inr (inc, nc) \<Longrightarrow>
     (inc = None \<or> dt = ''incorporation'') \<and> (nc = None \<or> dt = ''name_change'')"
  by (auto simp: specific_dates_def split: if_splits sum.splits)

lemma analyse_text_wf: "parse_result_wf (analyse_text svc f text (initial_result f))"
  by (auto simp: analyse_text_def parse_result_wf_def initial_result_def Let_def analyze_document_type_range
           dest: specific_dates_Inr split: sum.split)

lemma parse_document_cases:
  "parse_document svc f use_ocr use_ai prefer_ocr =
     (if fst (document_text svc f use_ocr use_ai prefer_ocr) = []
      then ((initial_result f)\<lparr>doc_error := Some ''No text could be extracted from document''\<rparr>,
            snd (document_text svc f use_ocr use_ai prefer_ocr))
      else (analyse_text svc f (fst (document_text svc f use_ocr use_ai prefer_ocr)) (initial_result f),
            snd (document_text svc f use_ocr use_ai prefer_ocr)))"
  by (simp add: parse_document_def split: prod.split)

text \<open>
  Claim C26.  \<open>parse_document\<close> never raises: whatever the back ends and the date
  scans do, it returns a well-formed result, successful with every key, or failed
  with its error and only the initial keys.
\<close>

theorem parse_document_wf: "parse_result_wf (fst (parse_document svc f use_ocr use_ai prefer_ocr))"
  by (simp add: parse_document_cases analyse_text_wf) (simp add: parse_result_wf_def initial_result_def)

subsection \<open>Extraction cost\<close>

lemma extract_text_from_pdf_no_ai: "extract_text_from_pdf f use_ocr = (t, tr) \<Longrightarrow> Ex_ai \<notin> set tr"
  by (auto simp: extract_text_from_pdf_def split: sum.splits if_splits)

lemma document_text_ai_mode:
  "document_text svc f False True False = (extract_with_ai (ai_settings svc) f, [Ex_ai])"
  by (simp add: document_text_def)

text \<open>
  Claim C27.  The AI toggle of the batch decides the cost of a document: with it,
  exactly one AI extraction and neither PyPDF2 nor OCR; without it, never the AI
  service.
\<close>

theorem batch_parse_extractions:
  "snd (batch_parse svc f True) = [Ex_ai] \<and> Ex_ai \<notin> set (snd (batch_parse svc f False))"
proof
  show "snd (batch_parse svc f True) = [Ex_ai]"
    by (simp add: batch_parse_def parse_document_cases document_text_ai_mode)
  have "Ex_ai \<notin> set (snd (document_text svc f True False True))"
    by (auto simp: document_text_def dest: extract_text_from_pdf_no_ai split: prod.split)
  then show "Ex_ai \<notin> set (snd (batch_parse svc f False))"
    by (simp add: batch_parse_def parse_document_cases)
qed

text \<open>
  Claim C28.  In AI mode there is no fallback: when the AI service returns no text
  (no API key, a failed request), the document fails with
  \<open>No text could be extracted from document\<close>, however much text PyPDF2 would
  have read.
\<close>

theorem batch_parse_ai_no_fallback:
  assumes "extract_with_ai (ai_settings svc) f = []"
  shows "batch_parse svc f True =
           ((initial_result f)\<lparr>doc_error := Some ''No text could be extracted from document''\<rparr>, [Ex_ai])"
  using assms by (simp add: batch_parse_def parse_document_cases document_text_ai_mode)

subsection \<open>Composition with the batch\<close>

lemma parse_filing_document_parser:
  "length (parse_filing (with_document_parser env svc) ai cn fl) =
     (if document_id fl \<noteq> [] \<and> \<not> isl (download env (document_id fl) cn) then 1 else 0)"
  by (simp add: parse_filing_def with_document_parser_def Let_def split: sum.split)

lemma length_concat_map_filter:
  "(\<And>x. length (g x) = (if P x then 1 else 0)) \<Longrightarrow> length (concat (map g xs)) = length (filter P xs)"
  by (induction xs) simp_all

text \<open>Claim C40. 
  Composed with \<open>DocumentParser\<close>, the batch counts as parsed every
  document it downloaded among the first ten relevant filings, whether or not
  the parse succeeded.
\<close>

theorem document_parser_batch_counts:
  assumes "get_filings env cn = Inr fh"
    and "process_single_company (with_document_parser env svc) ai cn = Inr cr"
  shows "cr_parsed_documents cr =
           length (filter (\<lambda>fl. document_id fl \<noteq> [] \<and> \<not> isl (download env (document_id fl) cn))
                     (take 10 (filter_relevant_filings fh)))"
proof -
  have "get_filings (with_document_parser env svc) cn = Inr fh"
    using assms(1) by (simp add: with_document_parser_def)
  with assms(2) show ?thesis
    by (elim process_single_company_Inr)
       (simp add: length_concat_map_filter [OF parse_filing_document_parser])
qed

end
