(* ===== verification/Document_Scenarios.thy ===== *)
theory Document_Scenarios
  imports Document_Parser Batch_Scenarios
begin

text \<open>
  Concrete documents for the PDF processor and the document parser: a one-page
  certificate of incorporation with native text, on a machine where the OCR
  rendering fails (\<open>acme_pdf\<close>); the document services with no AI key
  (\<open>plain_services\<close>); and a batch environment downloading that document for each
  of twelve incorporation filings (\<open>pdf_env\<close>).
\<close>

definition acme_pdf :: pdf_file where
  "acme_pdf =
     \<lparr>pf_path = ''documents/A/abc.pdf'', pf_name = ''abc.pdf'',
      pf_reader = Inr [Some ''CERTIFICATE OF INCORPORATION ACME LIMITED''], pf_info = [],
      pf_ocr = Inl ''Unable to get page count. Is poppler installed?'', pf_xai = Inl ''no key'',
      pf_openai = Inl ''no key''\<rparr>"

definition plain_services :: "string doc_services" where
  "plain_services =
     \<lparr>names_of = (\<lambda>t. [''ACME LIMITED'']), name_changes_of = (\<lambda>t. []), dates_of = (\<lambda>t dt. Inr []),
      incorporation_date_of = (\<lambda>t. Inr None), name_change_date_of = (\<lambda>t. Inr None), date_iso = id,
      ai_settings = \<lparr>ai_provider = ''xai'', xai_api_key = [], openai_api_key = []\<rparr>\<rparr>"

definition pdf_env :: "(string, pdf_file) batch_env" where
  "pdf_env = \<lparr>get_profile = get_profile ok_env, get_filings = (\<lambda>cn. Inr (replicate 12 incorporation_filing)),
              download = (\<lambda>d cn. Inr acme_pdf), parse_doc = (\<lambda>p ai. Inl ''unused''), dates = string_dates,
              scan_registry = scan_registry ok_env\<rparr>"

lemma acme_native: "extract_native_text acme_pdf = Inr (''CERTIFICATE OF INCORPORATION ACME LIMITED'' @ [nl])"
  by (simp add: extract_native_text_def acme_pdf_def native_page_def nl_def)

lemma acme_ocr: "extract_with_ocr acme_pdf = Inl ''Unable to get page count. Is poppler installed?''"
  by (simp add: extract_with_ocr_def acme_pdf_def)

lemma plain_services_no_ai: "extract_with_ai (ai_settings plain_services) f = []"
  by (simp add: extract_with_ai_def extract_with_xai_def plain_services_def)

subsection \<open>Scenarios\<close>

text \<open>
  Without the AI toggle the certificate is read by PyPDF2 (after two failed OCR
  attempts) and parsed as an incorporation document naming ACME LIMITED; with the
  toggle and no AI key the same document fails.
\<close>

theorem acme_parse_modes:
  "doc_success (fst (batch_parse plain_services acme_pdf False)) \<and>
   doc_type (fst (batch_parse plain_services acme_pdf False)) = Some ''incorporation'' \<and>
   snd (batch_parse plain_services acme_pdf False) = [Ex_native, Ex_ocr, Ex_ocr] \<and>
   doc_error (fst (batch_parse plain_services acme_pdf True)) = Some ''No text could be extracted from document''"
  by code_simp

subsection \<open>The theorems at concrete inputs\<close>

theorem extract_text_ocr_retried_witness:
  "extract_text_from_pdf acme_pdf True = (''CERTIFICATE OF INCORPORATION ACME LIMITED'' @ [nl], [Ex_native, Ex_ocr, Ex_ocr])"
  by (rule extract_text_ocr_retried [OF acme_native _ acme_ocr]) (simp add: py_strip_def nl_def is_space_def)

theorem parse_pdf_date_roundtrip_witness:
  "map_option (filter is_digit) (parse_pdf_date (''D:'' @ ''20200131123456'' @ ''+01'')) = Some ''20200131123456''"
  by (rule parse_pdf_date_roundtrip) (simp_all add: is_digit_def)

theorem batch_parse_ai_no_fallback_witness:
  "batch_parse plain_services acme_pdf True =
     ((initial_result acme_pdf)\<lparr>doc_error := Some ''No text could be extracted from document''\<rparr>, [Ex_ai])"
  by (rule batch_parse_ai_no_fallback [OF plain_services_no_ai])

theorem document_parser_batch_counts_witness:
  "\<exists>cr. process_single_company (with_document_parser pdf_env plain_services) False ''A'' = Inr cr \<and>
        cr_parsed_documents cr = 10"
proof -
  obtain cr where cr: "process_single_company (with_document_parser pdf_env plain_services) False ''A'' = Inr cr"
    by (simp add: process_single_company_def with_document_parser_def pdf_env_def ok_env_def Let_def)
  have "cr_parsed_documents cr =
          length (filter (\<lambda>fl. document_id fl \<noteq> [] \<and> \<not> isl (download pdf_env (document_id fl) ''A''))
                    (take 10 (filter_relevant_filings (replicate 12 incorporation_filing))))"
    by (rule document_parser_batch_counts [OF _ cr]) (simp add: pdf_env_def)
  then have "cr_parsed_documents cr = 10"
    by (simp add: filter_relevant_filings_def incorporation_filing_facts pdf_env_def)
  with cr show ?thesis by blast
qed

end
