(* ===== verification/Csv_Exporter.thy ===== *)
theory Csv_Exporter
  imports Batch_Processor
begin

text \<open>
  \<open>CSVExporter\<close> (\<open>src/exporters/csv_exporter.py\<close>) and the CSV branch of
  \<open>cmd_export_results\<close> (\<open>src/core/cli.py\<close>, lines 75--87).  Each export builds one
  dictionary per row, in the key order the code writes them, and hands the rows to
  \<open>csv.DictWriter\<close> with the keys of the first row as field names.  The writer is
  modelled as the \<open>csv\<close> module behaves with its default \<open>excel\<close> dialect: a field is
  quoted when it holds a comma, a double quote or a line break, quotes are doubled,
  records end with CR LF, a row that is a single empty field is written \<open>""\<close>, and
  \<open>_dict_to_list\<close> raises \<open>ValueError\<close> on a key outside the field names.  An export
  returns what it writes: \<open>None\<close> when there are no rows (no file is created, but
  the path is returned all the same), the error, or the text of the file.  Output
  paths and timestamps are not modelled; \<open>str()\<close> of a float (the rounded
  confidence) and the message of the missing-names issue (lines 336--356 of
  \<open>mismatch_detector.py\<close>, which also lists the overview names) are parameters.
  \<open>csv_reader\<close> is the reading side of the module (states of \<open>_csv.c\<close>), used to
  state that every file the exports write reads back as the rows written.
\<close>

subsection \<open>Cells and the writer\<close>

datatype cell = Cell_str string | Cell_none | Cell_nat nat | Cell_float real

type_synonym csv_row = "(string \<times> cell) list"

definition cr :: char where
  "cr = CHR 0x0D"

definition dquote :: char where
  "dquote = CHR 0x22"

text \<open>\<open>str()\<close> of a value as the writer formats it; \<open>None\<close> is written as the empty field.\<close>

definition render_cell :: "(real \<Rightarrow> string) \<Rightarrow> cell \<Rightarrow> string" where
  "render_cell float_str c =
     (case c of Cell_str s \<Rightarrow> s | Cell_none \<Rightarrow> [] | Cell_nat n \<Rightarrow> show_nat n | Cell_float x \<Rightarrow> float_str x)"

definition opt_cell :: "string option \<Rightarrow> cell" where
  "opt_cell v = (case v of None \<Rightarrow> Cell_none | Some s \<Rightarrow> Cell_str s)"

definition needs_quotes :: "string \<Rightarrow> bool" where
  "needs_quotes s \<longleftrightarrow> list_ex (\<lambda>c. c = CHR '','' \<or> c = dquote \<or> c = cr \<or> c = nl) s"

definition quote_field :: "string \<Rightarrow> string" where
  "quote_field s = dquote # concat (map (\<lambda>c. if c = dquote then [c, c] else [c]) s) @ [dquote]"

definition csv_field :: "string \<Rightarrow> string" where
  "csv_field s = (if needs_quotes s then quote_field s else s)"

definition csv_line :: "string list \<Rightarrow> string" where
  "csv_line fs = (if fs = [[]] then [dquote, dquote] else py_join '','' (map csv_field fs)) @ [cr, nl]"

text \<open>\<open>DictWriter._dict_to_list\<close> with \<open>extrasaction='raise'\<close> and \<open>restval=''\<close>.\<close>

definition dict_to_list :: "string list \<Rightarrow> csv_row \<Rightarrow> py_error + cell list" where
  "dict_to_list fieldnames row =
     (if list_ex (\<lambda>k. k \<notin> set fieldnames) (map fst row) then Inl Value_error
      else Inr (map (\<lambda>k. get_default (map_of row k) (Cell_str [])) fieldnames))"

fun sequence_sum :: "('e + 'a) list \<Rightarrow> 'e + 'a list" where
  "sequence_sum [] = Inr []"
| "sequence_sum (x # xs) =
     (case x of Inl e \<Rightarrow> Inl e | Inr v \<Rightarrow> (case sequence_sum xs of Inl e \<Rightarrow> Inl e | Inr vs \<Rightarrow> Inr (v # vs)))"

text \<open>The \<open>if rows:\<close> block shared by the three exports: header, then the rows.\<close>

definition write_dict_rows :: "(real \<Rightarrow> string) \<Rightarrow> csv_row list \<Rightarrow> (py_error + string) option" where
  "write_dict_rows float_str rows =
     (if rows = [] then None
      else (let fieldnames = map fst (hd rows) in
            case sequence_sum (map (dict_to_list fieldnames) rows) of
              Inl e \<Rightarrow> Some (Inl e)
            | Inr cells \<Rightarrow>
                Some (Inr (csv_line fieldnames @ concat (map (\<lambda>cs. csv_line (map (render_cell float_str) cs)) cells)))))"

subsection \<open>\<open>export_mismatches\<close> (lines 18--83, 197--211)\<close>

definition severity_str :: "severity \<Rightarrow> string" where
  "severity_str s = (case s of Critical \<Rightarrow> ''critical'' | High \<Rightarrow> ''high'' | Medium \<Rightarrow> ''medium'' | Low \<Rightarrow> ''low'')"

fun mismatch_severity :: "mismatch \<Rightarrow> string" where
  "mismatch_severity (Name_mismatch sev _ _ _ _ _) = severity_str sev"
| "mismatch_severity (Incorporation_date_mismatch _ _ _ _) = ''high''"
| "mismatch_severity (Name_change_date_mismatch _ _ _ _ _ _) = ''medium''"
| "mismatch_severity (Multiple_name_changes _ _ _) = ''medium''"
| "mismatch_severity (Names_missing_from_overview _ _) = ''high''"

text \<open>\<open>mismatch.get('document', '')\<close>: the missing-names issue has no document key.\<close>

fun mismatch_document :: "mismatch \<Rightarrow> cell" where
  "mismatch_document (Name_mismatch _ f _ _ _ _) = opt_cell f"
| "mismatch_document (Incorporation_date_mismatch f _ _ _) = opt_cell f"
| "mismatch_document (Name_change_date_mismatch f _ _ _ _ _) = opt_cell f"
| "mismatch_document (Multiple_name_changes f _ _) = opt_cell f"
| "mismatch_document (Names_missing_from_overview _ _) = Cell_str []"

fun format_expected :: "mismatch \<Rightarrow> string" where
  "format_expected (Name_mismatch _ _ offs _ _ _) = py_join '', '' offs"
| "format_expected (Incorporation_date_mismatch _ e _ _) = e"
| "format_expected (Name_change_date_mismatch _ e _ _ _ _) = e"
| "format_expected _ = []"

fun format_found :: "mismatch \<Rightarrow> string" where
  "format_found (Name_mismatch _ _ _ n _ _) = n"
| "format_found (Incorporation_date_mismatch _ _ d _) = d"
| "format_found (Name_change_date_mismatch _ _ d _ _ _) = d"
| "format_found _ = []"

text \<open>\<open>'confidence': round(1.0 - best_similarity, 3)\<close>, only on a name mismatch.\<close>

fun mismatch_confidence :: "mismatch \<Rightarrow> cell" where
  "mismatch_confidence (Name_mismatch _ _ _ _ s _) = Cell_float (1 - s)"
| "mismatch_confidence _ = Cell_str []"

fun mismatch_message :: "(mismatch \<Rightarrow> string) \<Rightarrow> mismatch \<Rightarrow> string" where
  "mismatch_message msg (Multiple_name_changes _ n _) = ''Document contains '' @ show_nat n @ '' name changes''"
| "mismatch_message msg (Names_missing_from_overview ns g) = msg (Names_missing_from_overview ns g)"
| "mismatch_message msg _ = []"

definition mismatch_row :: "(mismatch \<Rightarrow> string) \<Rightarrow> company_result \<Rightarrow> mismatch \<Rightarrow> csv_row" where
  "mismatch_row msg c m =
     [(''Company Number'', Cell_str (cr_company_number c)), (''Company Name'', opt_cell (cr_company_name c)),
      (''Mismatch Type'', Cell_str (mismatch_type m)), (''Severity'', Cell_str (mismatch_severity m)),
      (''Document'', mismatch_document m), (''Expected'', Cell_str (format_expected m)),
      (''Found'', Cell_str (format_found m)), (''Confidence'', mismatch_confidence m),
      (''Message'', Cell_str (mismatch_message msg m))]"

definition no_mismatch_row :: "company_result \<Rightarrow> csv_row" where
  "no_mismatch_row c =
     [(''Company Number'', Cell_str (cr_company_number c)), (''Company Name'', opt_cell (cr_company_name c)),
      (''Mismatch Type'', Cell_str ''None''), (''Severity'', Cell_str ''N/A''), (''Document'', Cell_str []),
      (''Expected'', Cell_str []), (''Found'', Cell_str []), (''Confidence'', Cell_str []),
      (''Message'', Cell_str ''No mismatches detected'')]"

definition mismatch_rows :: "(mismatch \<Rightarrow> string) \<Rightarrow> company_result \<Rightarrow> csv_row list" where
  "mismatch_rows msg c =
     (if res_mismatches (cr_mismatches c) = [] then [no_mismatch_row c]
      else map (mismatch_row msg c) (res_mismatches (cr_mismatches c)))"

definition export_mismatches ::
  "(real \<Rightarrow> string) \<Rightarrow> (mismatch \<Rightarrow> string) \<Rightarrow> batch_results \<Rightarrow> (py_error + string) option" where
  "export_mismatches float_str msg br = write_dict_rows float_str (concat (map (mismatch_rows msg) (br_results br)))"

subsection \<open>\<open>export_network\<close> (lines 85--144)\<close>

definition show_int :: "int \<Rightarrow> string" where
  "show_int i = (if i < 0 then ''-'' @ show_nat (nat (- i)) else show_nat (nat i))"

definition dob_part :: "int option \<Rightarrow> string" where
  "dob_part v = (case v of None \<Rightarrow> ''?'' | Some i \<Rightarrow> show_int i)"

text \<open>The date of birth of the director's first recorded appointment, \<open>month/year\<close>.\<close>

definition dob_string :: "(officer_key \<times> director) list \<Rightarrow> officer_key \<Rightarrow> string" where
  "dob_string dirs i =
     (case map_of dirs i of
        None \<Rightarrow> ''N/A''
      | Some d \<Rightarrow>
          (case dir_appointments d of
             [] \<Rightarrow> ''N/A''
           | a # _ \<Rightarrow>
               (case apt_date_of_birth a of
                  None \<Rightarrow> ''N/A''
                | Some b \<Rightarrow> dob_part (dob_month b) @ ''/'' @ dob_part (dob_year b))))"

definition network_row :: "(officer_key \<times> director) list \<Rightarrow> connection \<Rightarrow> csv_row" where
  "network_row dirs c =
     [(''Company Number'', Cell_str (conn_company_number c)), (''Company Name'', opt_cell (conn_company_name c)),
      (''Director Name'', Cell_str (conn_director_name c)), (''Date of Birth'', Cell_str (dob_string dirs (conn_director_id c))),
      (''Role'', Cell_str (conn_role c)), (''Depth'', Cell_nat (conn_depth c))]"

definition export_network :: "(real \<Rightarrow> string) \<Rightarrow> network \<Rightarrow> (py_error + string) option" where
  "export_network float_str n = write_dict_rows float_str (map (network_row (directors n)) (connections n))"

subsection \<open>\<open>export_summary\<close> (lines 146--195)\<close>

definition summary_row :: "company_result \<Rightarrow> csv_row" where
  "summary_row c =
     [(''Company Number'', Cell_str (cr_company_number c)), (''Company Name'', opt_cell (cr_company_name c)),
      (''Company Status'', opt_cell (cr_company_status c)), (''Total Filings'', Cell_nat (cr_total_filings c)),
      (''Relevant Filings'', Cell_nat (cr_relevant_filings c)), (''Parsed Documents'', Cell_nat (cr_parsed_documents c)),
      (''Total Mismatches'', Cell_nat (total_mismatches (res_summary (cr_mismatches c)))),
      (''Name Mismatches'', Cell_nat (name_mismatches (res_summary (cr_mismatches c)))),
      (''Date Mismatches'', Cell_nat (date_mismatches (res_summary (cr_mismatches c)))),
      (''Missing Filings'', Cell_nat (missing_filings (res_summary (cr_mismatches c)))),
      (''Extra Names'', Cell_nat (extra_names (res_summary (cr_mismatches c))))]"

definition export_summary :: "(real \<Rightarrow> string) \<Rightarrow> batch_results \<Rightarrow> (py_error + string) option" where
  "export_summary float_str br = write_dict_rows float_str (map summary_row (br_results br))"

subsection \<open>The CLI's CSV export (\<open>cli.py\<close> lines 75--87)\<close>

definition export_csv ::
  "(real \<Rightarrow> string) \<Rightarrow> (mismatch \<Rightarrow> string) \<Rightarrow> batch_results \<Rightarrow> (py_error + string) option list" where
  "export_csv float_str msg br =
     [export_mismatches float_str msg br, export_summary float_str br] @
     (case br_network br of None \<Rightarrow> [] | Some n \<Rightarrow> [export_network float_str n])"

subsection \<open>Reading a CSV file back\<close>

text \<open>
  The reader's states: at the start of a record or of a field, inside an unquoted
  or a quoted field, and just after a quote inside a quoted field.  A record ends
  at CR (eating a following LF) or LF; an empty line is the empty record.
\<close>

datatype rd_state = R_record | R_field | R_unquoted | R_quoted | R_quote_seen

fun skip_lf :: "string \<Rightarrow> string" where
  "skip_lf (c # cs) = (if c = nl then cs else c # cs)"
| "skip_lf [] = []"

function (sequential) csv_scan :: "rd_state \<Rightarrow> string \<Rightarrow> string list \<Rightarrow> string \<Rightarrow> string list list" where
  "csv_scan R_record cur fs [] = []"
| "csv_scan st cur fs [] = [fs @ [cur]]"
| "csv_scan R_record cur fs (c # cs) =
     (if c = cr \<or> c = nl then [] # csv_scan R_record [] [] (if c = cr then skip_lf cs else cs)
      else if c = CHR '','' then csv_scan R_field [] (fs @ [[]]) cs
      else if c = dquote then csv_scan R_quoted [] fs cs
      else csv_scan R_unquoted [c] fs cs)"
| "csv_scan R_field cur fs (c # cs) =
     (if c = cr \<or> c = nl then (fs @ [[]]) # csv_scan R_record [] [] (if c = cr then skip_lf cs else cs)
      else if c = CHR '','' then csv_scan R_field [] (fs @ [[]]) cs
      else if c = dquote then csv_scan R_quoted [] fs cs
      else csv_scan R_unquoted [c] fs cs)"
| "csv_scan R_unquoted cur fs (c # cs) =
     (if c = cr \<or> c = nl then (fs @ [cur]) # csv_scan R_record [] [] (if c = cr then skip_lf cs else cs)
      else if c = CHR '','' then csv_scan R_field [] (fs @ [cur]) cs
      else csv_scan R_unquoted (cur @ [c]) fs cs)"
| "csv_scan R_quoted cur fs (c # cs) =
     (if c = dquote then csv_scan R_quote_seen cur fs cs else csv_scan R_quoted (cur @ [c]) fs cs)"
| "csv_scan R_quote_seen cur fs (c # cs) =
     (if c = dquote then csv_scan R_quoted (cur @ [c]) fs cs
      else if c = cr \<or> c = nl then (fs @ [cur]) # csv_scan R_record [] [] (if c = cr then skip_lf cs else cs)
      else if c = CHR '','' then csv_scan R_field [] (fs @ [cur]) cs
      else csv_scan R_unquoted (cur @ [c]) fs cs)"
  by pat_completeness auto

termination csv_scan
proof -
  have sk: "\<And>cs. length (skip_lf cs) < Suc (length cs)"
    by (case_tac cs) auto
  show ?thesis
    by (relation "measure (\<lambda>(st, cur, fs, cs). length cs)") (simp_all add: sk)
qed

definition csv_reader :: "string \<Rightarrow> string list list" where
  "csv_reader text = csv_scan R_record [] [] text"

text \<open>The field names each export writes in its header, in order.\<close>

definition mismatch_fields :: "string list" where
  "mismatch_fields = [''Company Number'', ''Company Name'', ''Mismatch Type'', ''Severity'', ''Document'',
                      ''Expected'', ''Found'', ''Confidence'', ''Message'']"

definition network_fields :: "string list" where
  "network_fields = [''Company Number'', ''Company Name'', ''Director Name'', ''Date of Birth'', ''Role'', ''Depth'']"

definition summary_fields :: "string list" where
  "summary_fields = [''Company Number'', ''Company Name'', ''Company Status'', ''Total Filings'',
                     ''Relevant Filings'', ''Parsed Documents'', ''Total Mismatches'', ''Name Mismatches'',
                     ''Date Mismatches'', ''Missing Filings'', ''Extra Names'']"

subsection \<open>The writer and the reader agree\<close>

lemma csv_chars_distinct [simp]:
  "cr \<noteq> nl" "nl \<noteq> cr" "dquote \<noteq> cr" "cr \<noteq> dquote" "dquote \<noteq> nl" "nl \<noteq> dquote"
  "CHR '','' \<noteq> cr" "cr \<noteq> CHR '',''" "CHR '','' \<noteq> nl" "nl \<noteq> CHR '',''"
  "CHR '','' \<noteq> dquote" "dquote \<noteq> CHR '',''"
  by (simp_all add: cr_def nl_def dquote_def)

lemma csv_scan_quoted_body:
  "csv_scan R_quoted cur fs (concat (map (\<lambda>c. if c = dquote then [c, c] else [c]) s) @ dquote # rest) =
   csv_scan R_quote_seen (cur @ s) fs rest"
  by (induction s arbitrary: cur) auto

lemma csv_scan_unquoted_body:
  "\<not> needs_quotes s \<Longrightarrow> csv_scan R_unquoted cur fs (s @ rest) = csv_scan R_unquoted (cur @ s) fs rest"
  by (induction s arbitrary: cur) (auto simp: needs_quotes_def)

lemma csv_scan_field_end:
  assumes "st = R_record \<or> st = R_field" and "t = CHR '','' \<or> t = cr" and "f \<noteq> [] \<or> t = CHR '','' \<or> st = R_field"
  shows "csv_scan st [] fs (csv_field f @ t # rest) =
           (if t = cr then (fs @ [f]) # csv_scan R_record [] [] (skip_lf rest)
            else csv_scan R_field [] (fs @ [f]) rest)"
proof (cases "needs_quotes f")
  case True
  then show ?thesis using assms
    by (auto simp: csv_field_def quote_field_def csv_scan_quoted_body)
next
  case False
  show ?thesis
  proof (cases f)
    case Nil
    then show ?thesis using assms by (auto simp: csv_field_def needs_quotes_def)
  next
    case (Cons c f')
    have c: "c \<noteq> CHR '','' \<and> c \<noteq> dquote \<and> c \<noteq> cr \<and> c \<noteq> nl" and f': "\<not> needs_quotes f'"
      using False Cons by (auto simp: needs_quotes_def)
    have "csv_scan st [] fs (csv_field f @ t # rest) = csv_scan R_unquoted [c] fs (f' @ t # rest)"
      using False Cons c assms(1) by (auto simp: csv_field_def)
    also have "\<dots> = csv_scan R_unquoted f fs (t # rest)"
      using csv_scan_unquoted_body [OF f'] Cons by simp
    finally show ?thesis using assms(2) by auto
  qed
qed

lemma csv_scan_join:
  "fs' \<noteq> [] \<Longrightarrow> st = R_field \<or> (st = R_record \<and> fs' \<noteq> [[]]) \<Longrightarrow>
   csv_scan st [] acc (py_join '','' (map csv_field fs') @ cr # nl # rest) = (acc @ fs') # csv_scan R_record [] [] rest"
proof (induction fs' arbitrary: st acc)
  case (Cons f gs)
  show ?case
  proof (cases gs)
    case Nil
    then show ?thesis using Cons.prems csv_scan_field_end [of st cr f acc "nl # rest"] by auto
  next
    case (Cons g gs')
    have "csv_scan st [] acc (py_join '','' (map csv_field (f # gs)) @ cr # nl # rest) =
          csv_scan R_field [] (acc @ [f]) (py_join '','' (map csv_field gs) @ cr # nl # rest)"
      using Cons.prems csv_scan_field_end [of st "CHR '',''" f acc] Cons by auto
    also have "\<dots> = (acc @ f # gs) # csv_scan R_record [] [] rest"
      using Cons.IH [of R_field "acc @ [f]"] Cons by simp
    finally show ?thesis .
  qed
qed simp

lemma csv_scan_line: "csv_scan R_record [] [] (csv_line fs @ rest) = fs # csv_scan R_record [] [] rest"
proof -
  consider "fs = []" | "fs = [[]]" | "fs \<noteq> []" "fs \<noteq> [[]]" by blast
  then show ?thesis
  proof cases
    case 3
    then show ?thesis using csv_scan_join [of fs R_record "[]" rest] by (simp add: csv_line_def)
  qed (simp_all add: csv_line_def)
qed

text \<open>
  Round trip of the CSV format: whatever the fields hold (commas,
  quotes, line breaks, empty fields, empty rows), reading back the lines the
  writer produces gives the rows that were written.
\<close>

theorem csv_reader_roundtrip: "csv_reader (concat (map csv_line rows)) = rows"
  unfolding csv_reader_def by (induction rows) (simp_all add: csv_scan_line)


subsection \<open>The exports\<close>

lemma sequence_sum_Inr: "sequence_sum (map (\<lambda>x. Inr (g x)) xs) = Inr (map g xs)"
  by (induction xs) simp_all

lemma dict_to_list_keys: "distinct (map fst r) \<Longrightarrow> dict_to_list (map fst r) r = Inr (map snd r)"
  by (auto simp: dict_to_list_def list_ex_iff map_of_is_SomeI)

lemma write_dict_rows_uniform:
  assumes "rows \<noteq> []" and "\<And>r. r \<in> set rows \<Longrightarrow> map fst r = ks" and "distinct ks"
  shows "write_dict_rows fs rows =
           Some (Inr (concat (map csv_line (ks # map (map (\<lambda>x. render_cell fs (snd x))) rows))))"
proof -
  have hd: "map fst (hd rows) = ks" using assms(1,2) by simp
  have "map (dict_to_list ks) rows = map (\<lambda>r. Inr (map snd r)) rows"
    using assms(2,3) dict_to_list_keys by (intro map_cong) auto
  then have m: "sequence_sum (map (dict_to_list ks) rows) = Inr (map (map snd) rows)"
    by (simp only: sequence_sum_Inr)
  show ?thesis
    using assms(1) by (simp add: write_dict_rows_def hd m comp_def)
qed

lemma mismatch_rows_fields: "r \<in> set (mismatch_rows msg c) \<Longrightarrow> map fst r = mismatch_fields"
  by (auto simp: mismatch_rows_def mismatch_row_def no_mismatch_row_def mismatch_fields_def split: if_splits)

lemma length_mismatch_rows: "length (mismatch_rows msg c) = max 1 (length (res_mismatches (cr_mismatches c)))"
  by (cases "res_mismatches (cr_mismatches c)") (simp_all add: mismatch_rows_def)

lemma export_mismatches_text:
  "br_results br \<noteq> [] \<Longrightarrow>
   export_mismatches fs msg br =
     Some (Inr (concat (map csv_line (mismatch_fields #
       map (map (\<lambda>x. render_cell fs (snd x))) (concat (map (mismatch_rows msg) (br_results br)))))))"
  unfolding export_mismatches_def
proof (rule write_dict_rows_uniform)
  assume "br_results br \<noteq> []"
  then show "concat (map (mismatch_rows msg) (br_results br)) \<noteq> []"
    by (cases "br_results br") (simp_all add: mismatch_rows_def)
qed (auto simp: mismatch_rows_fields mismatch_fields_def)

lemma export_summary_text:
  "br_results br \<noteq> [] \<Longrightarrow>
   export_summary fs br =
     Some (Inr (concat (map csv_line (summary_fields # map (map (\<lambda>x. render_cell fs (snd x)) \<circ> summary_row) (br_results br)))))"
  unfolding export_summary_def
  by (subst write_dict_rows_uniform) (auto simp: summary_row_def summary_fields_def)

lemma export_network_text:
  "connections n \<noteq> [] \<Longrightarrow>
   export_network fs n =
     Some (Inr (concat (map csv_line (network_fields #
       map (map (\<lambda>x. render_cell fs (snd x)) \<circ> network_row (directors n)) (connections n)))))"
  unfolding export_network_def
  by (subst write_dict_rows_uniform) (auto simp: network_row_def network_fields_def)

text \<open>
  \<open>DictWriter\<close> never raises in the exports: every row of an export has
  exactly the keys of its first row, so \<open>export_mismatches\<close>, \<open>export_summary\<close> and
  \<open>export_network\<close> either write nothing or write a whole file.
\<close>

theorem csv_exports_never_raise:
  "export_mismatches fs msg br \<noteq> Some (Inl e) \<and> export_summary fs br \<noteq> Some (Inl e) \<and>
   export_network fs n \<noteq> Some (Inl e)"
proof (intro conjI)
  show "export_mismatches fs msg br \<noteq> Some (Inl e)"
    by (cases "br_results br = []") (simp_all add: export_mismatches_text, simp add: export_mismatches_def write_dict_rows_def)
  show "export_summary fs br \<noteq> Some (Inl e)"
    by (cases "br_results br = []") (simp_all add: export_summary_text, simp add: export_summary_def write_dict_rows_def)
  show "export_network fs n \<noteq> Some (Inl e)"
    by (cases "connections n = []") (simp_all add: export_network_text, simp add: export_network_def write_dict_rows_def)
qed

text \<open>
  The mismatch CSV reads back as its header followed by one row per
  issue, and one \<open>No mismatches detected\<close> row per company without issues, in the
  order of the results.
\<close>

theorem export_mismatches_readback:
  assumes "export_mismatches fs msg br = Some (Inr t)"
  shows "csv_reader t = mismatch_fields #
           map (map (\<lambda>x. render_cell fs (snd x))) (concat (map (mismatch_rows msg) (br_results br))) \<and>
         length (csv_reader t) = Suc (sum_list (map (\<lambda>c. max 1 (length (res_mismatches (cr_mismatches c)))) (br_results br)))"
proof -
  have ne: "br_results br \<noteq> []"
    using assms by (auto simp: export_mismatches_def write_dict_rows_def)
  have "t = concat (map csv_line (mismatch_fields #
              map (map (\<lambda>x. render_cell fs (snd x))) (concat (map (mismatch_rows msg) (br_results br)))))"
    using assms export_mismatches_text [OF ne, of fs msg] by simp
  then have rd: "csv_reader t = mismatch_fields #
              map (map (\<lambda>x. render_cell fs (snd x))) (concat (map (mismatch_rows msg) (br_results br)))"
    by (simp only: csv_reader_roundtrip)
  then show ?thesis by (simp add: length_concat comp_def length_mismatch_rows)
qed

text \<open>
  With no company results neither the mismatch nor the summary file is created,
  although \<open>cmd_export_results\<close> prints a path for each.
\<close>

lemma export_csv_no_results:
  "br_results br = [] \<Longrightarrow>
   export_csv fs msg br = [None, None] @ (case br_network br of None \<Rightarrow> [] | Some n \<Rightarrow> [export_network fs n])"
  by (simp add: export_csv_def export_mismatches_def export_summary_def write_dict_rows_def)

end
