(* ===== verification/Export_Scenarios.thy ===== *)
theory Export_Scenarios
  imports Csv_Exporter Detector_Scenarios
begin

text \<open>
  A batch result for the CSV exporter: one company whose registered name holds a
  comma, with a name mismatch and a document with two name changes, and one
  company without issues.  Floats are printed with three decimals as
  \<open>round(x, 3)\<close> gives them for this input.
\<close>

definition comma_company :: company_result where
  "comma_company =
     \<lparr>cr_company_number = ''01234567'', cr_company_name = Some ''ACME, LIMITED'', cr_company_status = Some ''active'',
      cr_total_filings = 3, cr_relevant_filings = 2, cr_parsed_documents = 2,
      cr_mismatches = \<lparr>res_company_number = Some ''01234567'', res_company_name = Some ''ACME, LIMITED'',
        res_mismatches =
          [Name_mismatch High (Some ''z.pdf'') [''ACME, LIMITED''] ''ZETA WIDGETS LIMITED'' (9 / 16) (Some ''ACME, LIMITED''),
           Multiple_name_changes (Some ''n.pdf'') 2 [(Some ''A'', Some ''B''), (Some ''B'', Some ''C'')]],
        res_warnings = [],
        res_summary = \<lparr>total_mismatches = 2, name_mismatches = 1, date_mismatches = 0, missing_filings = 0,
                       extra_names = 1\<rparr>\<rparr>\<rparr>"

definition clean_company :: company_result where
  "clean_company =
     \<lparr>cr_company_number = ''07654321'', cr_company_name = None, cr_company_status = Some ''active'',
      cr_total_filings = 0, cr_relevant_filings = 0, cr_parsed_documents = 0,
      cr_mismatches = \<lparr>res_company_number = Some ''07654321'', res_company_name = None, res_mismatches = [],
        res_warnings = [],
        res_summary = \<lparr>total_mismatches = 0, name_mismatches = 0, date_mismatches = 0, missing_filings = 0,
                       extra_names = 0\<rparr>\<rparr>\<rparr>"

definition two_results :: batch_results where
  "two_results =
     \<lparr>br_company_numbers = [''01234567'', ''07654321''], br_scan_network = False,
      br_processed = [''01234567'', ''07654321''], br_results = [comma_company, clean_company], br_network = None,
      br_errors = [], br_total_processed = Some 2, br_total_errors = Some 0\<rparr>"

definition three_decimals :: "real \<Rightarrow> string" where
  "three_decimals x = (if x = 7 / 16 then ''0.438'' else ''0.0'')"

subsection \<open>Scenarios\<close>

text \<open>
  The first mismatch row of the export: the comma in the company name and in the
  expected names is quoted, and the row reads back with its nine fields.
\<close>

theorem comma_row_quoted:
  "csv_line (map (\<lambda>x. render_cell three_decimals (snd x)) (hd (mismatch_rows (\<lambda>m. []) comma_company))) =
     ''01234567,\"ACME, LIMITED\",name_mismatch,high,z.pdf,\"ACME, LIMITED\",ZETA WIDGETS LIMITED,0.438,'' @ [cr, nl]"
  by (simp add: mismatch_rows_def comma_company_def mismatch_row_def opt_cell_def render_cell_def severity_str_def
      three_decimals_def csv_line_def csv_field_def needs_quotes_def quote_field_def dquote_def cr_def nl_def)

subsection \<open>The exporter theorems at a concrete input\<close>

theorem export_mismatches_readback_witness:
  "\<exists>t. export_mismatches three_decimals (\<lambda>m. []) two_results = Some (Inr t) \<and> length (csv_reader t) = 4"
proof -
  have ne: "br_results two_results \<noteq> []" by (simp add: two_results_def)
  obtain t where t: "export_mismatches three_decimals (\<lambda>m. []) two_results = Some (Inr t)"
    using export_mismatches_text [OF ne] by blast
  have "length (csv_reader t) =
          Suc (sum_list (map (\<lambda>c. max 1 (length (res_mismatches (cr_mismatches c)))) (br_results two_results)))"
    using export_mismatches_readback [OF t] by blast
  then have "length (csv_reader t) = 4"
    by (simp add: two_results_def comma_company_def clean_company_def)
  with t show ?thesis by blast
qed

end
