(* ===== verification/GitHub_Storage.thy ===== *)
theory GitHub_Storage
  imports Prelude "HOL-Library.Char_ord" "HOL-Library.List_Lexorder"
begin

text \<open>
  \<open>GitHubStorage\<close> (\<open>src/core/github_storage.py\<close>) keeps scan results as JSON files
  of a GitHub repository: \<open>results/<company>/<folder>/latest.json\<close> and an archive
  copy \<open>results/<company>/<folder>/<timestamp>.json\<close> per push.  The repository is
  modelled as the contents API serves it: an association list from paths to files,
  each with the SHA the server gave its current version (a counter here: every
  write gets a fresh one), and a connectivity flag (offline, every request raises).
  \<open>gh_serve\<close> answers one request as GitHub does: a file or a directory listing for
  a read, and for a write: 401 without a token, 201 creating a file when no SHA is
  sent, 200 replacing it when the SHA sent is the current one, 422 when a file
  exists and no SHA is sent (or a SHA is sent for a missing file), 409 on a stale
  SHA.  Each method of the class is a function of the repository; a write returns
  the repository after it.  \<open>json.dumps\<close>, \<open>response.json()\<close> and \<open>str()\<close> are the
  record \<open>codec\<close>; the clock readings of \<open>push_company_data\<close> are inputs.
\<close>

subsection \<open>JSON values, the repository and the server\<close>

datatype json = JNull | JBool bool | JInt int | JStr string | JList "json list" | JObj "(string \<times> json) list"

type_synonym json_obj = "(string \<times> json) list"

record codec =
  dumps :: "json \<Rightarrow> string"
  loads :: "string \<Rightarrow> json option"
  py_str :: "json \<Rightarrow> string"

record gh_file =
  gf_content :: string
  gf_sha :: nat

record gh_repo =
  repo_files :: "(string \<times> gh_file) list"
  repo_next_sha :: nat
  repo_online :: bool
  repo_commits :: "string list"

datatype gh_item_type = Item_file | Item_dir

record gh_item =
  item_name :: string
  item_type :: gh_item_type
  item_download_url :: "string option"
  item_size :: nat

datatype gh_body = Body_file gh_file | Body_dir "gh_item list" | Body_raw string | Body_message string

record gh_response =
  status :: int
  body :: gh_body

text \<open>A request: a read through the contents API or the raw host, or a write of a
  file's content with the SHA it replaces, a commit message, and whether the
  session carries a token.\<close>

datatype gh_request =
    Get_contents string
  | Get_raw string
  | Put_contents string string "nat option" string bool

definition repo_owner :: string where
  "repo_owner = ''Signal-Watch''"

definition repo_name :: string where
  "repo_name = ''signal-watch''"

definition raw_base_url :: string where
  "raw_base_url = ''https://raw.githubusercontent.com/'' @ repo_owner @ ''/'' @ repo_name @ ''/main''"

definition is_under :: "string \<Rightarrow> string \<Rightarrow> bool" where
  "is_under dir p \<longleftrightarrow> prefix (dir @ ''/'') p"

definition child_name :: "string \<Rightarrow> string \<Rightarrow> string" where
  "child_name dir p = takeWhile (\<lambda>c. c \<noteq> CHR ''/'') (drop (Suc (length dir)) p)"

definition dir_listing :: "gh_repo \<Rightarrow> string \<Rightarrow> gh_item list" where
  "dir_listing repo dir =
     map (\<lambda>n. case map_of (repo_files repo) (dir @ ''/'' @ n) of
                Some f \<Rightarrow> \<lparr>item_name = n, item_type = Item_file,
                           item_download_url = Some (raw_base_url @ ''/'' @ dir @ ''/'' @ n),
                           item_size = length (gf_content f)\<rparr>
              | None \<Rightarrow> \<lparr>item_name = n, item_type = Item_dir, item_download_url = None, item_size = 0\<rparr>)
         (remdups (map (child_name dir) (filter (is_under dir) (map fst (repo_files repo)))))"

definition gh_write :: "gh_repo \<Rightarrow> string \<Rightarrow> string \<Rightarrow> string \<Rightarrow> gh_file \<times> gh_repo" where
  "gh_write repo p c msg =
     (let f = \<lparr>gf_content = c, gf_sha = repo_next_sha repo\<rparr>
      in (f, repo\<lparr>repo_files := AList.update p f (repo_files repo), repo_next_sha := Suc (repo_next_sha repo),
                  repo_commits := repo_commits repo @ [msg]\<rparr>))"

definition gh_answer :: "int \<Rightarrow> gh_body \<Rightarrow> string + gh_response" where
  "gh_answer s b = Inr \<lparr>status = s, body = b\<rparr>"

definition gh_serve :: "gh_repo \<Rightarrow> gh_request \<Rightarrow> (string + gh_response) \<times> gh_repo" where
  "gh_serve repo rq =
     (if \<not> repo_online repo then (Inl ''ConnectionError'', repo)
      else case rq of
        Get_contents p \<Rightarrow>
          (case map_of (repo_files repo) p of
             Some f \<Rightarrow> (gh_answer 200 (Body_file f), repo)
           | None \<Rightarrow> if list_ex (is_under p) (map fst (repo_files repo))
                     then (gh_answer 200 (Body_dir (dir_listing repo p)), repo)
                     else (gh_answer 404 (Body_message ''Not Found''), repo))
      | Get_raw p \<Rightarrow>
          (case map_of (repo_files repo) p of
             Some f \<Rightarrow> (gh_answer 200 (Body_raw (gf_content f)), repo)
           | None \<Rightarrow> (gh_answer 404 (Body_message ''404: Not Found''), repo))
      | Put_contents p c sha msg auth \<Rightarrow>
          (if \<not> auth then (gh_answer 401 (Body_message ''Requires authentication''), repo)
           else case map_of (repo_files repo) p of
             Some f \<Rightarrow>
               (if sha = Some (gf_sha f) then (let (f', r') = gh_write repo p c msg in (gh_answer 200 (Body_file f'), r'))
                else if sha = None then (gh_answer 422 (Body_message ''sha wasn't supplied''), repo)
                else (gh_answer 409 (Body_message ''does not match''), repo))
           | None \<Rightarrow>
               (if sha = None then (let (f', r') = gh_write repo p c msg in (gh_answer 201 (Body_file f'), r'))
                else (gh_answer 422 (Body_message ''sha is not valid''), repo))))"

subsection \<open>The client (lines 17--255)\<close>

record gh_storage =
  gh_token :: "string option"

text \<open>Line 29 parses as \<open>(github_token or Config.GITHUB_TOKEN) if hasattr(...) else None\<close>;
  \<open>Config\<close> has \<open>GITHUB_TOKEN\<close>, so a falsy argument falls back to the configuration.\<close>

definition gh_init :: "string option \<Rightarrow> string option \<Rightarrow> gh_storage" where
  "gh_init tok config_tok = \<lparr>gh_token = (if py_truthy tok then tok else config_tok)\<rparr>"

definition results_dir :: "string \<Rightarrow> string \<Rightarrow> string" where
  "results_dir cn folder = ''results/'' @ cn @ ''/'' @ folder"

definition latest_path :: "string \<Rightarrow> string \<Rightarrow> string" where
  "latest_path cn folder = results_dir cn folder @ ''/latest.json''"

definition check_company_exists :: "gh_repo \<Rightarrow> string \<Rightarrow> string \<Rightarrow> bool" where
  "check_company_exists repo cn folder =
     (case fst (gh_serve repo (Get_contents (latest_path cn folder))) of
        Inl e \<Rightarrow> False
      | Inr r \<Rightarrow> status r = 200)"

text \<open>\<open>response.json()\<close> raising is \<open>loads\<close> returning \<open>None\<close>; the handler returns \<open>None\<close>.\<close>

definition get_company_data :: "codec \<Rightarrow> gh_repo \<Rightarrow> string \<Rightarrow> string \<Rightarrow> json option" where
  "get_company_data cd repo cn folder =
     (case fst (gh_serve repo (Get_raw (latest_path cn folder))) of
        Inl e \<Rightarrow> None
      | Inr r \<Rightarrow>
          (if status r = 200 then (case body r of Body_raw c \<Rightarrow> loads cd c | _ \<Rightarrow> None) else None))"

text \<open>\<open>_get_file_sha\<close>: \<open>.get('sha')\<close> on a directory listing raises, and the bare
  \<open>except\<close> returns \<open>None\<close>.\<close>

definition get_file_sha :: "gh_storage \<Rightarrow> gh_repo \<Rightarrow> string \<Rightarrow> nat option" where
  "get_file_sha st repo p =
     (case fst (gh_serve repo (Get_contents p)) of
        Inl e \<Rightarrow> None
      | Inr r \<Rightarrow> (if status r = 200 then (case body r of Body_file f \<Rightarrow> Some (gf_sha f) | _ \<Rightarrow> None) else None))"

definition folder_of :: "codec \<Rightarrow> json_obj \<Rightarrow> string" where
  "folder_of cd results =
     (case map_of results ''_folder_type'' of None \<Rightarrow> ''Directors'' | Some (JStr s) \<Rightarrow> s | Some v \<Rightarrow> py_str cd v)"

definition scan_metadata :: "string \<Rightarrow> string \<Rightarrow> string \<Rightarrow> json" where
  "scan_metadata cn now_iso ts =
     JObj [(''company_number'', JStr cn), (''scanned_at'', JStr now_iso), (''scan_timestamp'', JStr ts),
           (''version'', JStr ''1.0'')]"

text \<open>
  \<open>push_company_data\<close>: without a token nothing happens; otherwise the caller's
  dictionary gains \<open>_metadata\<close>, \<open>latest.json\<close> is written with the SHA read just
  before, and on 200 or 201 the archive copy is written without a SHA, its answer
  ignored.  An exception of either write makes the call return \<open>False\<close>.
  The result is the returned flag, the caller's dictionary after the call, and the
  repository.
\<close>

definition push_company_data ::
  "codec \<Rightarrow> gh_storage \<Rightarrow> string \<Rightarrow> string \<Rightarrow> gh_repo \<Rightarrow> string \<Rightarrow> json_obj \<Rightarrow> bool \<times> json_obj \<times> gh_repo" where
  "push_company_data cd st ts now_iso repo cn results =
     (if \<not> py_truthy (gh_token st) then (False, results, repo)
      else
        (let folder = folder_of cd results;
             fp = latest_path cn folder;
             ap = results_dir cn folder @ ''/'' @ ts @ ''.json'';
             results' = AList.update ''_metadata'' (scan_metadata cn now_iso ts) results;
             content = dumps cd (JObj results');
             sha = get_file_sha st repo fp;
             (r1, repo1) = gh_serve repo (Put_contents fp content sha (''Add scan results for company '' @ cn) True)
         in case r1 of
              Inl e \<Rightarrow> (False, results', repo1)
            | Inr resp \<Rightarrow>
                (if status resp = 200 \<or> status resp = 201 then
                   (let (r2, repo2) = gh_serve repo1
                          (Put_contents ap content None (''Archive scan results for company '' @ cn @ '' - '' @ ts) True)
                    in (case r2 of Inl e \<Rightarrow> False | Inr _ \<Rightarrow> True, results', repo2))
                 else (False, results', repo1))))"

definition list_available_companies :: "gh_repo \<Rightarrow> string list" where
  "list_available_companies repo =
     (case fst (gh_serve repo (Get_contents ''results'')) of
        Inl e \<Rightarrow> []
      | Inr r \<Rightarrow>
          (if status r = 200 then
             (case body r of Body_dir items \<Rightarrow> map item_name (filter (\<lambda>i. item_type i = Item_dir) items) | _ \<Rightarrow> [])
           else []))"

record scan_entry =
  se_filename :: string
  se_timestamp :: string
  se_download_url :: "string option"
  se_size :: nat

text \<open>\<open>str.replace(old, new)\<close>: every occurrence, left to right.\<close>

fun py_replace :: "string \<Rightarrow> string \<Rightarrow> string \<Rightarrow> string" where
  "py_replace old new [] = []"
| "py_replace old new (c # cs) =
     (if old \<noteq> [] \<and> take (length old) (c # cs) = old
      then new @ py_replace old new (drop (length old - 1) cs)
      else c # py_replace old new cs)"

definition history_entry :: "gh_item \<Rightarrow> scan_entry" where
  "history_entry i =
     \<lparr>se_filename = item_name i, se_timestamp = py_replace ''.json'' [] (item_name i),
      se_download_url = item_download_url i, se_size = item_size i\<rparr>"

text \<open>\<open>sorted(..., key=timestamp, reverse=True)\<close>: newest first, ties in listing order.\<close>

definition get_company_history :: "gh_repo \<Rightarrow> string \<Rightarrow> scan_entry list" where
  "get_company_history repo cn =
     (case fst (gh_serve repo (Get_contents (''results/'' @ cn))) of
        Inl e \<Rightarrow> []
      | Inr r \<Rightarrow>
          (if status r = 200 then
             (case body r of
                Body_dir items \<Rightarrow>
                  rev (sort_key se_timestamp (rev (map history_entry
                    (filter (\<lambda>i. suffix ''.json'' (item_name i) \<and> item_name i \<noteq> ''latest.json'') items))))
              | _ \<Rightarrow> [])
           else []))"

text \<open>\<open>push_file_to_github\<close>: the local file is its content, \<open>None\<close> when \<open>open\<close> raises.\<close>

definition push_file_to_github ::
  "gh_storage \<Rightarrow> gh_repo \<Rightarrow> string \<Rightarrow> string option \<Rightarrow> string \<Rightarrow> bool \<times> gh_repo" where
  "push_file_to_github st repo p local msg =
     (if \<not> py_truthy (gh_token st) then (False, repo)
      else case local of
        None \<Rightarrow> (False, repo)
      | Some c \<Rightarrow>
          (let (r, repo') = gh_serve repo (Put_contents p c (get_file_sha st repo p) msg True)
           in (case r of Inl e \<Rightarrow> False | Inr resp \<Rightarrow> status resp = 200 \<or> status resp = 201, repo')))"

subsection \<open>Reachable repositories\<close>

text \<open>A path segment is a non-empty name without a slash.  \<open>gh_pushed\<close> is the set of
  repositories reachable from an empty one by \<open>push_company_data\<close> calls (company
  number, folder and timestamp path segments, the folder not ending in \<open>.json\<close>)
  and by the network going up or down.  \<open>layout_ok\<close> is the shape every stored
  path then has: \<open>results/<company>/<folder>/<name>\<close>.\<close>


definition path_segment :: "string \<Rightarrow> bool" where
  "path_segment s \<longleftrightarrow> s \<noteq> [] \<and> CHR ''/'' \<notin> set s"

inductive gh_pushed :: "codec \<Rightarrow> gh_repo \<Rightarrow> bool" for cd where
  empty: "repo_files repo = [] \<Longrightarrow> gh_pushed cd repo"
| network: "gh_pushed cd repo \<Longrightarrow> gh_pushed cd (repo\<lparr>repo_online := b\<rparr>)"
| push: "gh_pushed cd repo \<Longrightarrow> path_segment cn \<Longrightarrow> path_segment (folder_of cd results) \<Longrightarrow>
         \<not> suffix ''.json'' (folder_of cd results) \<Longrightarrow> path_segment ts \<Longrightarrow>
         gh_pushed cd (snd (snd (push_company_data cd st ts now repo cn results)))"

definition layout_ok :: "string \<Rightarrow> bool" where
  "layout_ok p \<longleftrightarrow> (\<exists>a b n. p = results_dir a b @ ''/'' @ n \<and> path_segment a \<and> path_segment b \<and>
                         path_segment n \<and> \<not> suffix ''.json'' b)"



text \<open>The serialised content both writes of \<open>push_company_data\<close> send.\<close>

abbreviation push_content :: "codec \<Rightarrow> string \<Rightarrow> string \<Rightarrow> string \<Rightarrow> json_obj \<Rightarrow> string" where
  "push_content cd ts now cn results \<equiv> dumps cd (JObj (AList.update ''_metadata'' (scan_metadata cn now ts) results))"


subsection \<open>Properties of the storage\<close>

lemma gh_serve_online: "repo_online (snd (gh_serve repo rq)) = repo_online repo"
  by (auto simp: gh_serve_def gh_write_def Let_def split: gh_request.split option.split prod.split)

lemma gh_serve_get [simp]:
  "snd (gh_serve repo (Get_contents p)) = repo" "snd (gh_serve repo (Get_raw p)) = repo"
  by (auto simp: gh_serve_def split: option.split)

lemma gh_write_files: "map_of (repo_files (snd (gh_write repo p c m))) q =
    (if q = p then Some \<lparr>gf_content = c, gf_sha = repo_next_sha repo\<rparr> else map_of (repo_files repo) q)"
  by (simp add: gh_write_def Let_def update_conv')

lemma gh_serve_put_cases:
  "snd (gh_serve repo (Put_contents p c sha m a)) = repo \<or>
   snd (gh_serve repo (Put_contents p c sha m a)) = snd (gh_write repo p c m)"
  by (auto simp: gh_serve_def Let_def split: option.split prod.split)

lemma gh_serve_put_other:
  "q \<noteq> p \<Longrightarrow> map_of (repo_files (snd (gh_serve repo (Put_contents p c sha m a)))) q = map_of (repo_files repo) q"
  using gh_serve_put_cases [of repo p c sha m a] by (auto simp: gh_write_files)

lemma gh_serve_put_none_existing:
  "map_of (repo_files repo) p = Some f \<Longrightarrow> snd (gh_serve repo (Put_contents p c None m a)) = repo"
  by (simp add: gh_serve_def)

lemma gh_serve_put_ok:
  assumes "gh_serve repo (Put_contents p c sha m a) = (Inr resp, r')" and "status resp = 200 \<or> status resp = 201"
  shows "map_of (repo_files r') p = Some \<lparr>gf_content = c, gf_sha = repo_next_sha repo\<rparr>"
  using assms
  by (auto simp: gh_serve_def gh_answer_def gh_write_def Let_def update_conv'
           split: option.splits if_splits prod.splits)

lemma get_file_sha_current:
  "repo_online repo \<Longrightarrow> get_file_sha st repo p = map_option gf_sha (map_of (repo_files repo) p)"
  by (auto simp: get_file_sha_def gh_serve_def gh_answer_def split: option.split)

lemma gh_serve_put_current:
  assumes "repo_online repo"
  shows "gh_serve repo (Put_contents p c (map_option gf_sha (map_of (repo_files repo) p)) m True) =
           (gh_answer (if map_of (repo_files repo) p = None then 201 else 200)
              (Body_file \<lparr>gf_content = c, gf_sha = repo_next_sha repo\<rparr>), snd (gh_write repo p c m))"
  using assms by (auto simp: gh_serve_def gh_write_def Let_def split: option.split)

text \<open>Claim C30. Push then read back: when \<open>push_company_data\<close> reports success and the
  codec reads its own output back, \<open>get_company_data\<close> for the same company and folder
  returns the pushed dictionary (with its \<open>_metadata\<close>) and \<open>check_company_exists\<close> holds.\<close>

theorem push_then_get:
  assumes push: "push_company_data cd st ts now repo cn results = (True, results', repo')"
    and codec: "loads cd (dumps cd (JObj results')) = Some (JObj results')"
  shows "get_company_data cd repo' cn (folder_of cd results) = Some (JObj results') \<and>
         check_company_exists repo' cn (folder_of cd results)"
proof -
  let ?fp = "latest_path cn (folder_of cd results)"
  let ?ap = "results_dir cn (folder_of cd results) @ ''/'' @ ts @ ''.json''"
  let ?c = "dumps cd (JObj (AList.update ''_metadata'' (scan_metadata cn now ts) results))"
  obtain r1 repo1 where s1: "gh_serve repo (Put_contents ?fp ?c (get_file_sha st repo ?fp)
                               (''Add scan results for company '' @ cn) True) = (r1, repo1)"
    by fastforce
  obtain r2 repo2 where s2: "gh_serve repo1 (Put_contents ?ap ?c None
                               (''Archive scan results for company '' @ cn @ '' - '' @ ts) True) = (r2, repo2)"
    by fastforce
  from push s1 s2 obtain resp where tok: "py_truthy (gh_token st)" and r1: "r1 = Inr resp"
    and ok: "status resp = 200 \<or> status resp = 201" and rs: "results' = AList.update ''_metadata'' (scan_metadata cn now ts) results"
    and r2: "\<exists>x. r2 = Inr x" and rp: "repo' = repo2"
    by (auto simp: push_company_data_def Let_def split: if_splits sum.splits)
  have f1: "map_of (repo_files repo1) ?fp = Some \<lparr>gf_content = ?c, gf_sha = repo_next_sha repo\<rparr>"
    using gh_serve_put_ok [OF s1 [unfolded r1] ok] .
  have f2: "map_of (repo_files repo2) ?fp = map_of (repo_files repo1) ?fp"
  proof (cases "?ap = ?fp")
    case True
    then have "map_of (repo_files repo1) ?ap = Some \<lparr>gf_content = ?c, gf_sha = repo_next_sha repo\<rparr>"
      using f1 by simp
    from gh_serve_put_none_existing [OF this] s2 have "repo2 = repo1" by (metis snd_conv)
    then show ?thesis by simp
  next
    case False
    with gh_serve_put_other [of ?fp ?ap repo1] s2 show ?thesis by (metis snd_conv)
  qed
  have "repo_online repo"
    using s1 r1 by (auto simp: gh_serve_def split: if_splits)
  then have "repo_online repo2"
    using gh_serve_online [of repo] gh_serve_online [of repo1] s1 s2 by (metis snd_conv)
  then show ?thesis
    using f1 f2 codec rp rs
    by (simp add: get_company_data_def check_company_exists_def gh_serve_def gh_answer_def)
qed


lemma gh_serve_put_none_conflict:
  "repo_online repo \<Longrightarrow> map_of (repo_files repo) p = Some f \<Longrightarrow>
   gh_serve repo (Put_contents p c None m True) = (gh_answer 422 (Body_message ''sha wasn't supplied''), repo)"
  by (simp add: gh_serve_def)

lemma archive_path_ne_latest:
  "ts \<noteq> ''latest'' \<Longrightarrow> results_dir cn f @ ''/'' @ ts @ ''.json'' \<noteq> latest_path cn f"
proof
  assume "results_dir cn f @ ''/'' @ ts @ ''.json'' = latest_path cn f" and ne: "ts \<noteq> ''latest''"
  then have "ts @ ''.json'' = ''latest'' @ ''.json''" by (simp add: latest_path_def)
  with ne show False by simp
qed

text \<open>Claim C31. A second push with the timestamp of an existing archive reports success
  although the archive write is refused (422, no SHA sent) and the archive keeps its
  old content: the answer of the archive \<open>PUT\<close> is never checked.\<close>

theorem push_archive_not_replaced:
  assumes tok: "py_truthy (gh_token st)" and on: "repo_online repo"
    and arch: "map_of (repo_files repo) (results_dir cn (folder_of cd results) @ ''/'' @ ts @ ''.json'') = Some a"
    and ts: "ts \<noteq> ''latest''"
  shows "\<exists>results' repo'. push_company_data cd st ts now repo cn results = (True, results', repo') \<and>
           map_of (repo_files repo') (results_dir cn (folder_of cd results) @ ''/'' @ ts @ ''.json'') = Some a"
proof -
  let ?fp = "latest_path cn (folder_of cd results)"
  let ?ap = "results_dir cn (folder_of cd results) @ ''/'' @ ts @ ''.json''"
  let ?c = "dumps cd (JObj (AList.update ''_metadata'' (scan_metadata cn now ts) results))"
  let ?repo1 = "snd (gh_write repo ?fp ?c (''Add scan results for company '' @ cn))"
  have ne: "?ap \<noteq> ?fp" by (rule archive_path_ne_latest [OF ts])
  have a1: "map_of (repo_files ?repo1) ?ap = Some a" using arch ne by (simp add: gh_write_files)
  have on1: "repo_online ?repo1" using on by (simp add: gh_write_def Let_def)
  have "push_company_data cd st ts now repo cn results =
          (True, AList.update ''_metadata'' (scan_metadata cn now ts) results, ?repo1)"
    using tok on gh_serve_put_none_conflict [OF on1 a1]
    by (simp add: push_company_data_def Let_def get_file_sha_current gh_serve_put_current gh_answer_def)
  with a1 show ?thesis by blast
qed


lemma gh_serve_put_keys:
  "set (map fst (repo_files (snd (gh_serve repo (Put_contents p c sha m a))))) \<subseteq>
     insert p (set (map fst (repo_files repo)))"
  using gh_serve_put_cases [of repo p c sha m a] by (elim disjE) (auto simp: gh_write_def Let_def dom_update)

lemma push_company_data_repo:
  fixes cd st ts now repo cn results
  defines "fp \<equiv> latest_path cn (folder_of cd results)"
    and "ap \<equiv> results_dir cn (folder_of cd results) @ ''/'' @ ts @ ''.json''"
    and "c \<equiv> push_content cd ts now cn results"
  defines "r1 \<equiv> snd (gh_serve repo (Put_contents fp c (get_file_sha st repo fp) (''Add scan results for company '' @ cn) True))"
  shows "snd (snd (push_company_data cd st ts now repo cn results)) \<in>
           {repo, r1, snd (gh_serve r1 (Put_contents ap c None (''Archive scan results for company '' @ cn @ '' - '' @ ts) True))}"
proof -
  obtain x1 repo1 where s1: "gh_serve repo (Put_contents fp c (get_file_sha st repo fp) (''Add scan results for company '' @ cn) True) = (x1, repo1)"
    by fastforce
  obtain x2 repo2 where s2: "gh_serve repo1 (Put_contents ap c None (''Archive scan results for company '' @ cn @ '' - '' @ ts) True) = (x2, repo2)"
    by fastforce
  have "snd (snd (push_company_data cd st ts now repo cn results)) \<in> {repo, repo1, repo2}"
    using s1 s2 unfolding push_company_data_def Let_def fp_def ap_def c_def
    by (simp split: sum.split)
  then show ?thesis using s1 s2 by (simp add: r1_def)
qed

lemma keys_chain:
  fixes k :: "gh_repo \<Rightarrow> string set"
  assumes "x \<in> {a, b, c}" "k b \<subseteq> insert p (k a)" "k c \<subseteq> insert q (k b)"
  shows "k x \<subseteq> {p, q} \<union> k a"
  using assms by auto

lemma push_company_data_keys:
  "set (map fst (repo_files (snd (snd (push_company_data cd st ts now repo cn results))))) \<subseteq>
     {latest_path cn (folder_of cd results), results_dir cn (folder_of cd results) @ ''/'' @ ts @ ''.json''} \<union>
     set (map fst (repo_files repo))"
proof -
  let ?fp = "latest_path cn (folder_of cd results)"
  let ?ap = "results_dir cn (folder_of cd results) @ ''/'' @ ts @ ''.json''"
  let ?r1 = "snd (gh_serve repo (Put_contents ?fp (push_content cd ts now cn results)
               (get_file_sha st repo ?fp) (''Add scan results for company '' @ cn) True))"
  have k1: "set (map fst (repo_files ?r1)) \<subseteq> insert ?fp (set (map fst (repo_files repo)))"
    by (rule gh_serve_put_keys)
  have k2: "set (map fst (repo_files (snd (gh_serve ?r1 (Put_contents ?ap (push_content cd ts now cn results) None
              (''Archive scan results for company '' @ cn @ '' - '' @ ts) True)))))
            \<subseteq> insert ?ap (set (map fst (repo_files ?r1)))"
    by (rule gh_serve_put_keys)
  show ?thesis
    by (rule keys_chain [OF push_company_data_repo [of cd st ts now repo cn results] k1 k2])
qed

lemma reachable_layout: "gh_pushed cd repo \<Longrightarrow> \<forall>p\<in>set (map fst (repo_files repo)). layout_ok p"
proof (induction rule: gh_pushed.induct)
  case (push repo cn results ts st now)
  have "path_segment ''latest.json''" "path_segment (ts @ ''.json'')"
    using push.hyps(5) by (auto simp: path_segment_def)
  then have "layout_ok (results_dir cn (folder_of cd results) @ ''/'' @ ''latest.json'')"
            "layout_ok (results_dir cn (folder_of cd results) @ ''/'' @ ts @ ''.json'')"
    using push.hyps(2-4) unfolding layout_ok_def by blast+
  then have "layout_ok (latest_path cn (folder_of cd results))"
            "layout_ok (results_dir cn (folder_of cd results) @ ''/'' @ ts @ ''.json'')"
    by (simp_all add: latest_path_def)
  with push.IH push_company_data_keys [of cd st ts now repo cn results] show ?case by blast
qed simp_all

lemma takeWhile_segment: "CHR ''/'' \<notin> set a \<Longrightarrow> takeWhile (\<lambda>c. c \<noteq> CHR ''/'') (a @ CHR ''/'' # r) = a"
  by (induction a) auto

lemma segment_prefix_eq:
  assumes "CHR ''/'' \<notin> set a" "CHR ''/'' \<notin> set c" "prefix (c @ ''/'') (a @ ''/'' @ r)"
  shows "c = a"
proof -
  obtain t where "a @ ''/'' @ r = c @ ''/'' @ t" using assms(3) by (auto simp: prefix_def)
  then have "takeWhile (\<lambda>x. x \<noteq> CHR ''/'') (a @ CHR ''/'' # r) = takeWhile (\<lambda>x. x \<noteq> CHR ''/'') (c @ CHR ''/'' # t)"
    by simp
  with assms(1,2) show ?thesis by (simp add: takeWhile_segment)
qed

lemma layout_child_name:
  assumes lay: "layout_ok p" and cn: "CHR ''/'' \<notin> set cn" and under: "is_under (''results/'' @ cn) p"
  shows "\<not> suffix ''.json'' (child_name (''results/'' @ cn) p)"
proof -
  obtain a b n where p: "p = results_dir a b @ ''/'' @ n" and a: "path_segment a" and b: "path_segment b"
    and nj: "\<not> suffix ''.json'' b"
    using lay unfolding layout_ok_def by blast
  have "prefix (cn @ ''/'') (a @ ''/'' @ (b @ ''/'' @ n))"
    using under by (simp add: p is_under_def results_dir_def)
  then have "cn = a" using a cn by (simp add: path_segment_def segment_prefix_eq)
  then have "child_name (''results/'' @ cn) p = b"
    using b by (simp add: p child_name_def results_dir_def path_segment_def takeWhile_segment)
  with nj show ?thesis by simp
qed

lemma dir_listing_names:
  "i \<in> set (dir_listing repo d) \<Longrightarrow> \<exists>p\<in>set (map fst (repo_files repo)). is_under d p \<and> item_name i = child_name d p"
  by (auto simp: dir_listing_def split: option.split_asm)

text \<open>Claim C32. On every repository written only by \<open>push_company_data\<close>,
  \<open>get_company_history\<close> of a company number without a slash is empty: it lists
  \<open>results/<company>\<close>, whose entries are the folder directories, never the
  \<open>.json\<close> archives one level below.\<close>

theorem get_company_history_empty:
  assumes "gh_pushed cd repo" and "CHR ''/'' \<notin> set cn"
  shows "get_company_history repo cn = []"
proof -
  have "\<forall>i\<in>set (dir_listing repo (''results/'' @ cn)). \<not> suffix ''.json'' (item_name i)"
    using reachable_layout [OF assms(1)] layout_child_name [OF _ assms(2)] dir_listing_names by metis
  then show ?thesis
    by (auto simp: get_company_history_def gh_serve_def gh_answer_def filter_empty_conv
             split: option.split)
qed

end
