(* ===== verification/Storage_Scenarios.thy ===== *)
theory Storage_Scenarios
  imports GitHub_Storage
begin

text \<open>
  Concrete runs of \<open>GitHubStorage\<close> on an empty, online repository: one push of a
  scan of company \<open>01234567\<close> with a codec that reads back what it wrote, then a
  second push with the same timestamp.  They are the witnesses of the storage
  properties of \<open>GitHub_Storage\<close>.
\<close>

definition scan_ts :: string where "scan_ts = ''20240101_120000''"

definition stored_results :: json_obj where
  "stored_results = [(''_metadata'', scan_metadata ''01234567'' ''2024-01-01T12:00:00'' scan_ts)]"

definition store_codec :: codec where
  "store_codec = \<lparr>dumps = (\<lambda>v. if v = JObj stored_results then ''{stored}'' else ''{other}''),
                  loads = (\<lambda>s. if s = ''{stored}'' then Some (JObj stored_results) else None),
                  py_str = (\<lambda>v. ''?'')\<rparr>"

definition empty_repo :: gh_repo where
  "empty_repo = \<lparr>repo_files = [], repo_next_sha = 1, repo_online = True, repo_commits = []\<rparr>"

definition token_storage :: gh_storage where
  "token_storage = gh_init (Some ''ghp_example'') None"

definition pushed_repo :: gh_repo where
  "pushed_repo = snd (snd (push_company_data store_codec token_storage scan_ts ''2024-01-01T12:00:00''
                    empty_repo ''01234567'' []))"

definition archive_file :: gh_file where
  "archive_file = \<lparr>gf_content = ''{stored}'', gf_sha = 2\<rparr>"

lemma first_push:
  "push_company_data store_codec token_storage scan_ts ''2024-01-01T12:00:00'' empty_repo ''01234567'' [] =
     (True, stored_results, pushed_repo)"
  by (simp add: pushed_repo_def push_company_data_def token_storage_def gh_init_def empty_repo_def
      store_codec_def stored_results_def Let_def get_file_sha_def gh_serve_def gh_answer_def gh_write_def
      folder_of_def latest_path_def results_dir_def)

lemma pushed_repo_files:
  "map_of (repo_files pushed_repo) ''results/01234567/Directors/20240101_120000.json'' = Some archive_file"
  by (simp add: pushed_repo_def push_company_data_def token_storage_def gh_init_def empty_repo_def
      store_codec_def stored_results_def Let_def get_file_sha_def gh_serve_def gh_answer_def gh_write_def
      folder_of_def latest_path_def results_dir_def scan_ts_def archive_file_def)

theorem push_then_get_witness:
  "get_company_data store_codec pushed_repo ''01234567'' ''Directors'' = Some (JObj stored_results) \<and>
   check_company_exists pushed_repo ''01234567'' ''Directors''"
  using push_then_get [OF first_push] by (simp add: store_codec_def folder_of_def)

theorem push_archive_not_replaced_witness:
  "fst (push_company_data store_codec token_storage scan_ts ''2024-01-01T13:00:00'' pushed_repo ''01234567'' []) \<and>
   map_of (repo_files (snd (snd (push_company_data store_codec token_storage scan_ts ''2024-01-01T13:00:00''
     pushed_repo ''01234567'' [])))) ''results/01234567/Directors/20240101_120000.json'' = Some archive_file"
proof -
  have "repo_online pushed_repo" using first_push gh_serve_online
    by (simp add: pushed_repo_def push_company_data_def token_storage_def gh_init_def empty_repo_def
      store_codec_def stored_results_def Let_def get_file_sha_def gh_serve_def gh_answer_def gh_write_def)
  from push_archive_not_replaced [of token_storage pushed_repo "''01234567''" store_codec "[]" scan_ts archive_file
         "''2024-01-01T13:00:00''", OF _ this]
  show ?thesis using pushed_repo_files
    by (auto simp: token_storage_def gh_init_def folder_of_def results_dir_def scan_ts_def)
qed

theorem get_company_history_empty_witness:
  "get_company_history pushed_repo ''01234567'' = [] \<and>
   map_of (repo_files pushed_repo) ''results/01234567/Directors/20240101_120000.json'' = Some archive_file"
proof -
  have "gh_pushed store_codec pushed_repo" unfolding pushed_repo_def
    by (rule gh_pushed.push) (auto intro: gh_pushed.empty simp: empty_repo_def path_segment_def folder_of_def scan_ts_def suffix_to_prefix)
  from get_company_history_empty [OF this] pushed_repo_files show ?thesis by simp
qed

end
