(* ===== verification/Py_Regex.thy ===== *)
theory Py_Regex
  imports Prelude
begin

text \<open>
  The part of Python's \<open>re\<close> module that \<open>NameParser\<close> uses: a pattern is a term of
  \<open>rx\<close> (character classes, sequence, alternation, bounded and unbounded greedy
  repetition, capturing groups, the anchors \<open>^\<close> and \<open>$\<close>), matched from a position
  of the subject string under the flags \<open>IGNORECASE\<close> and \<open>MULTILINE\<close>.
  \<open>rx_run\<close> is the backtracking matcher as \<open>sre\<close> runs it: continuation passing,
  alternatives and repetition counts tried in priority order (greedy: more
  iterations first), the first success wins and carries the groups of the path
  that reached it.  Two references describe it: \<open>rx_all\<close>, the list of every match
  end with its groups in priority order, and \<open>rx_sem\<close>, the positional semantics
  (sequence as relation composition, repetition as relation powers).  Under
  \<open>IGNORECASE\<close> a class accepts a character when it accepts the character or its
  ASCII upper or lower case, so \<open>[A-Z]\<close> accepts every ASCII letter.  An unbounded
  repetition stops after \<open>length s + 1\<close> iterations: for a body that always
  consumes a character (every pattern of the program) no match is lost.
\<close>

record re_flags =
  re_ignorecase :: bool
  re_multiline :: bool

datatype rx = RChar "char \<Rightarrow> bool" | RSeq rx rx | RAlt rx rx | RRep rx nat "nat option"
  | RGroup nat rx | RBol | REol | REmpty

type_synonym caps = "nat \<Rightarrow> (nat \<times> nat) option"

definition char_ok :: "re_flags \<Rightarrow> (char \<Rightarrow> bool) \<Rightarrow> char \<Rightarrow> bool" where
  "char_ok fl p ch \<longleftrightarrow> p ch \<or> (re_ignorecase fl \<and> (p (py_lower_char ch) \<or> p (py_upper_char ch)))"

definition at_bol :: "re_flags \<Rightarrow> string \<Rightarrow> nat \<Rightarrow> bool" where
  "at_bol fl s i \<longleftrightarrow> i = 0 \<or> (re_multiline fl \<and> 0 < i \<and> i \<le> length s \<and> s ! (i - 1) = nl)"

definition at_eol :: "re_flags \<Rightarrow> string \<Rightarrow> nat \<Rightarrow> bool" where
  "at_eol fl s i \<longleftrightarrow> i = length s \<or> (i < length s \<and> s ! i = nl \<and> (re_multiline fl \<or> Suc i = length s))"

definition rep_bound :: "string \<Rightarrow> nat option \<Rightarrow> nat" where
  "rep_bound s hi = (case hi of None \<Rightarrow> Suc (length s) | Some h \<Rightarrow> h)"

subsection \<open>Pattern syntax\<close>

fun rx_lit :: "string \<Rightarrow> rx" where
  "rx_lit [] = REmpty"
| "rx_lit (c # cs) = RSeq (RChar (\<lambda>x. x = c)) (rx_lit cs)"

fun rx_alts :: "rx list \<Rightarrow> rx" where
  "rx_alts [] = RChar (\<lambda>x. False)"
| "rx_alts [r] = r"
| "rx_alts (r # rs) = RAlt r (rx_alts rs)"

fun rx_seqs :: "rx list \<Rightarrow> rx" where
  "rx_seqs [] = REmpty"
| "rx_seqs [r] = r"
| "rx_seqs (r # rs) = RSeq r (rx_seqs rs)"

subsection \<open>The positional semantics\<close>

primrec rx_sem :: "re_flags \<Rightarrow> string \<Rightarrow> rx \<Rightarrow> nat \<Rightarrow> nat \<Rightarrow> bool" where
  "rx_sem fl s (RChar p) = (\<lambda>i j. i < length s \<and> char_ok fl p (s ! i) \<and> j = Suc i)"
| "rx_sem fl s (RSeq a b) = rx_sem fl s a OO rx_sem fl s b"
| "rx_sem fl s (RAlt a b) = (\<lambda>i j. rx_sem fl s a i j \<or> rx_sem fl s b i j)"
| "rx_sem fl s (RRep a lo hi) =
     (\<lambda>i j. \<exists>k. lo \<le> k \<and> (case hi of None \<Rightarrow> True | Some h \<Rightarrow> k \<le> h) \<and> (rx_sem fl s a ^^ k) i j)"
| "rx_sem fl s (RGroup g a) = rx_sem fl s a"
| "rx_sem fl s RBol = (\<lambda>i j. j = i \<and> i \<le> length s \<and> at_bol fl s i)"
| "rx_sem fl s REol = (\<lambda>i j. j = i \<and> i \<le> length s \<and> at_eol fl s i)"
| "rx_sem fl s REmpty = (\<lambda>i j. j = i \<and> i \<le> length s)"

text \<open>A body that matches only non-empty strings, and patterns whose unbounded
  repetitions have such bodies.\<close>

fun consuming :: "rx \<Rightarrow> bool" where
  "consuming (RChar p) = True"
| "consuming (RSeq a b) = (consuming a \<or> consuming b)"
| "consuming (RAlt a b) = (consuming a \<and> consuming b)"
| "consuming (RRep a lo hi) = (0 < lo \<and> consuming a)"
| "consuming (RGroup g a) = consuming a"
| "consuming _ = False"

fun rx_wf :: "rx \<Rightarrow> bool" where
  "rx_wf (RSeq a b) = (rx_wf a \<and> rx_wf b)"
| "rx_wf (RAlt a b) = (rx_wf a \<and> rx_wf b)"
| "rx_wf (RRep a lo hi) = (rx_wf a \<and> (hi \<noteq> None \<or> consuming a))"
| "rx_wf (RGroup g a) = rx_wf a"
| "rx_wf _ = True"

subsection \<open>Every match in priority order\<close>

fun rep_all :: "(nat \<Rightarrow> caps \<Rightarrow> (nat \<times> caps) list) \<Rightarrow> nat \<Rightarrow> nat \<Rightarrow> nat \<Rightarrow> caps \<Rightarrow> (nat \<times> caps) list" where
  "rep_all f lo 0 i c = (if lo = 0 then [(i, c)] else [])"
| "rep_all f lo (Suc n) i c =
     concat (map (\<lambda>(j, c'). rep_all f (lo - 1) n j c') (f i c)) @ (if lo = 0 then [(i, c)] else [])"

fun rx_all :: "re_flags \<Rightarrow> string \<Rightarrow> rx \<Rightarrow> nat \<Rightarrow> caps \<Rightarrow> (nat \<times> caps) list" where
  "rx_all fl s (RChar p) i c = (if i < length s \<and> char_ok fl p (s ! i) then [(Suc i, c)] else [])"
| "rx_all fl s (RSeq a b) i c = concat (map (\<lambda>(j, c'). rx_all fl s b j c') (rx_all fl s a i c))"
| "rx_all fl s (RAlt a b) i c = rx_all fl s a i c @ rx_all fl s b i c"
| "rx_all fl s (RRep a lo hi) i c = rep_all (\<lambda>j c'. rx_all fl s a j c') lo (rep_bound s hi) i c"
| "rx_all fl s (RGroup g a) i c = map (\<lambda>(j, c'). (j, c'(g \<mapsto> (i, j)))) (rx_all fl s a i c)"
| "rx_all fl s RBol i c = (if i \<le> length s \<and> at_bol fl s i then [(i, c)] else [])"
| "rx_all fl s REol i c = (if i \<le> length s \<and> at_eol fl s i then [(i, c)] else [])"
| "rx_all fl s REmpty i c = (if i \<le> length s then [(i, c)] else [])"

text \<open>The first success of a continuation over a list of candidates.\<close>

fun first_some :: "('a \<Rightarrow> 'b option) \<Rightarrow> 'a list \<Rightarrow> 'b option" where
  "first_some f [] = None"
| "first_some f (x # xs) = (case f x of None \<Rightarrow> first_some f xs | r \<Rightarrow> r)"

subsection \<open>The backtracking matcher\<close>

function (sequential) rx_run :: "re_flags \<Rightarrow> string \<Rightarrow> rx \<Rightarrow> (nat \<Rightarrow> caps \<Rightarrow> 'r option) \<Rightarrow> nat \<Rightarrow> caps \<Rightarrow> 'r option"
  and rx_rep :: "re_flags \<Rightarrow> string \<Rightarrow> rx \<Rightarrow> nat \<Rightarrow> nat \<Rightarrow> (nat \<Rightarrow> caps \<Rightarrow> 'r option) \<Rightarrow> nat \<Rightarrow> caps \<Rightarrow> 'r option"
where
  "rx_run fl s (RChar p) k i c = (if i < length s \<and> char_ok fl p (s ! i) then k (Suc i) c else None)"
| "rx_run fl s (RSeq a b) k i c = rx_run fl s a (\<lambda>j c'. rx_run fl s b k j c') i c"
| "rx_run fl s (RAlt a b) k i c = (case rx_run fl s a k i c of None \<Rightarrow> rx_run fl s b k i c | r \<Rightarrow> r)"
| "rx_run fl s (RRep a lo hi) k i c = rx_rep fl s a lo (rep_bound s hi) k i c"
| "rx_run fl s (RGroup g a) k i c = rx_run fl s a (\<lambda>j c'. k j (c'(g \<mapsto> (i, j)))) i c"
| "rx_run fl s RBol k i c = (if i \<le> length s \<and> at_bol fl s i then k i c else None)"
| "rx_run fl s REol k i c = (if i \<le> length s \<and> at_eol fl s i then k i c else None)"
| "rx_run fl s REmpty k i c = (if i \<le> length s then k i c else None)"
| "rx_rep fl s a lo 0 k i c = (if lo = 0 then k i c else None)"
| "rx_rep fl s a lo (Suc n) k i c =
     (case rx_run fl s a (\<lambda>j c'. rx_rep fl s a (lo - 1) n k j c') i c of
        None \<Rightarrow> (if lo = 0 then k i c else None)
      | r \<Rightarrow> r)"
  by pat_completeness auto
termination
  by (relation "inv_image (less_than <*lex*> less_than)
       (\<lambda>x. case x of Inl (fl, s, r, k, i, c) \<Rightarrow> (size r, 0)
                    | Inr (fl, s, a, lo, n, k, i, c) \<Rightarrow> (size a, Suc n))") auto

text \<open>\<open>re.finditer\<close>: from each start position in turn, the first match; the search
  resumes at its end (one further on after an empty match).\<close>

definition rx_match_at :: "re_flags \<Rightarrow> rx \<Rightarrow> string \<Rightarrow> nat \<Rightarrow> (nat \<times> caps) option" where
  "rx_match_at fl r s i = rx_run fl s r (\<lambda>j c. Some (j, c)) i Map.empty"

function rx_finditer :: "re_flags \<Rightarrow> rx \<Rightarrow> string \<Rightarrow> nat \<Rightarrow> (nat \<times> nat \<times> caps) list" where
  "rx_finditer fl r s i =
     (if length s < i then []
      else case rx_match_at fl r s i of
        None \<Rightarrow> rx_finditer fl r s (Suc i)
      | Some (j, c) \<Rightarrow> (i, j, c) # rx_finditer fl r s (max j (Suc i)))"
  by pat_completeness auto
termination
  by (relation "measure (\<lambda>(fl, r, s, i). Suc (length s) - i)") auto

definition rx_search :: "re_flags \<Rightarrow> rx \<Rightarrow> string \<Rightarrow> (nat \<times> nat \<times> caps) option" where
  "rx_search fl r s = (case rx_finditer fl r s 0 of [] \<Rightarrow> None | m # ms \<Rightarrow> Some m)"

text \<open>\<open>match.group(g)\<close> of a group that took part in the match.\<close>

definition rx_group :: "string \<Rightarrow> caps \<Rightarrow> nat \<Rightarrow> string" where
  "rx_group s c g = (case c g of Some (a, b) \<Rightarrow> take (b - a) (drop a s) | None \<Rightarrow> [])"

declare rx_finditer.simps [simp del]

subsection \<open>The backtracking matcher finds the first match of the priority list\<close>

lemma first_some_append:
  "first_some f (xs @ ys) = (case first_some f xs of None \<Rightarrow> first_some f ys | r \<Rightarrow> r)"
  by (induction xs) (auto split: option.split)

lemma first_some_concat_map:
  "first_some f (concat (map g xs)) = first_some (\<lambda>x. first_some f (g x)) xs"
  by (induction xs) (auto simp: first_some_append split: option.split)

lemma first_some_map: "first_some f (map g xs) = first_some (\<lambda>x. f (g x)) xs"
  by (induction xs) (auto split: option.split)

lemma rx_run_first_all:
  "rx_run fl s r k i c = first_some (\<lambda>(j, c'). k j c') (rx_all fl s r i c)"
  "rx_rep fl s a lo n k i c = first_some (\<lambda>(j, c'). k j c') (rep_all (\<lambda>j c'. rx_all fl s a j c') lo n i c)"
proof (induction fl s r k i c and fl s a lo n k i c rule: rx_run_rx_rep.induct)
  case (2 fl s a b k i c)
  have "rx_run fl s b k = (\<lambda>j c'. first_some (\<lambda>(j, c'). k j c') (rx_all fl s b j c'))"
    using 2(1) by (intro ext)
  then show ?case
    using 2(2) by (simp add: first_some_concat_map split_def)
next
  case (3 fl s a b k i c)
  then show ?case
    by (simp add: first_some_append split: option.split)
next
  case (5 fl s g a k i c)
  then show ?case
    by (simp add: first_some_map split_def)
next
  case (10 fl s a lo n k i c)
  have "rx_rep fl s a (lo - 1) n k =
          (\<lambda>j c'. first_some (\<lambda>(j, c'). k j c') (rep_all (\<lambda>j c'. rx_all fl s a j c') (lo - 1) n j c'))"
    using 10(1) by (intro ext)
  then show ?case
    using 10(2) by (simp add: first_some_append first_some_concat_map split_def split: option.split)
qed (simp_all split: option.split)

subsection \<open>The list of matches is the positional semantics\<close>

text \<open>For a pattern whose unbounded repetitions consume, a position \<open>j\<close> ends some
  match from \<open>i\<close> exactly when the semantics relates \<open>i\<close> and \<open>j\<close>: the iteration bound
  of \<open>rx_all\<close> loses nothing.\<close>

lemma relpowp_mono_le:
  assumes "\<And>i j. R i j \<Longrightarrow> (i::nat) \<le> j" "(R ^^ k) i j"
  shows "i \<le> j"
  using assms(2)
proof (induction k arbitrary: j)
  case (Suc k)
  then obtain b where "(R ^^ k) i b" "R b j" by auto
  with Suc.IH assms(1) [of b j] show ?case by fastforce
qed simp

lemma relpowp_length:
  assumes "\<And>i j. R i j \<Longrightarrow> i \<le> length s \<Longrightarrow> j \<le> length s" "(R ^^ k) i j" "i \<le> length s"
  shows "j \<le> length s"
  using assms(2) by (induction k arbitrary: j) (auto dest: assms(1) intro: assms(3))

lemma relpowp_strict:
  assumes "\<And>i j. R i j \<Longrightarrow> (i::nat) < j" "(R ^^ k) i j"
  shows "i + k \<le> j"
  using assms(2)
proof (induction k arbitrary: j)
  case (Suc k)
  then obtain b where "(R ^^ k) i b" "R b j" by auto
  with Suc.IH assms(1) [of b j] show ?case by fastforce
qed simp

lemma rx_sem_mono: "rx_sem fl s r i j \<Longrightarrow> i \<le> j"
proof (induction r arbitrary: i j)
  case (RRep a lo hi)
  then show ?case by (auto intro: relpowp_mono_le [of "rx_sem fl s a"])
qed (fastforce)+

lemma rx_sem_length: "rx_sem fl s r i j \<Longrightarrow> i \<le> length s \<Longrightarrow> j \<le> length s"
proof (induction r arbitrary: i j)
  case (RRep a lo hi)
  then show ?case by (auto intro: relpowp_length [of "rx_sem fl s a"])
qed (fastforce)+

lemma rx_sem_consuming: "consuming r \<Longrightarrow> rx_sem fl s r i j \<Longrightarrow> i < j"
proof (induction r arbitrary: i j)
  case (RSeq a b)
  then obtain m where m: "rx_sem fl s a i m" "rx_sem fl s b m j" by auto
  have "i \<le> m" "m \<le> j" using rx_sem_mono m by blast+
  moreover have "consuming a \<Longrightarrow> i < m" "consuming b \<Longrightarrow> m < j" using RSeq.IH m by blast+
  ultimately show ?case using RSeq.prems(1) by auto
next
  case (RRep a lo hi)
  then obtain k where "lo \<le> k" "(rx_sem fl s a ^^ k) i j" by auto
  with RRep show ?case using relpowp_strict [of "rx_sem fl s a" k i j] by auto
qed auto

lemma rep_all_ends:
  assumes f: "\<And>i c j. i \<le> length s \<Longrightarrow> (\<exists>c'. (j, c') \<in> set (f i c)) \<longleftrightarrow> R i j"
    and len: "\<And>i j. R i j \<Longrightarrow> i \<le> length s \<Longrightarrow> j \<le> length s"
    and i: "i \<le> length s"
  shows "(\<exists>c'. (j, c') \<in> set (rep_all f lo n i c)) \<longleftrightarrow> (\<exists>k. lo \<le> k \<and> k \<le> n \<and> (R ^^ k) i j)"
  using i
proof (induction n arbitrary: lo i c)
  case 0
  then show ?case by auto
next
  case (Suc n)
  have step: "(\<exists>c1 c'. (m, c1) \<in> set (f i c) \<and> (j, c') \<in> set (rep_all f (lo - 1) n m c1)) \<longleftrightarrow>
              R i m \<and> (\<exists>k. lo - 1 \<le> k \<and> k \<le> n \<and> (R ^^ k) m j)" for m
  proof
    assume "\<exists>c1 c'. (m, c1) \<in> set (f i c) \<and> (j, c') \<in> set (rep_all f (lo - 1) n m c1)"
    then obtain c1 c' where m: "(m, c1) \<in> set (f i c)" "(j, c') \<in> set (rep_all f (lo - 1) n m c1)" by blast
    then have "R i m" using f [OF Suc.prems] by blast
    with m Suc.IH [of m "lo - 1" c1] len Suc.prems show "R i m \<and> (\<exists>k. lo - 1 \<le> k \<and> k \<le> n \<and> (R ^^ k) m j)"
      by blast
  next
    assume "R i m \<and> (\<exists>k. lo - 1 \<le> k \<and> k \<le> n \<and> (R ^^ k) m j)"
    then obtain c1 where "(m, c1) \<in> set (f i c)" and r: "\<exists>k. lo - 1 \<le> k \<and> k \<le> n \<and> (R ^^ k) m j"
      using f [OF Suc.prems] by blast
    moreover have "m \<le> length s" using \<open>R i m \<and> _\<close> len Suc.prems by blast
    ultimately show "\<exists>c1 c'. (m, c1) \<in> set (f i c) \<and> (j, c') \<in> set (rep_all f (lo - 1) n m c1)"
      using Suc.IH [of m "lo - 1" c1] by blast
  qed
  have "(\<exists>k. lo \<le> k \<and> k \<le> Suc n \<and> (R ^^ k) i j) \<longleftrightarrow>
        (lo = 0 \<and> j = i) \<or> (\<exists>m. R i m \<and> (\<exists>k. lo - 1 \<le> k \<and> k \<le> n \<and> (R ^^ k) m j))"
  proof
    assume "\<exists>k. lo \<le> k \<and> k \<le> Suc n \<and> (R ^^ k) i j"
    then obtain k where k: "lo \<le> k" "k \<le> Suc n" "(R ^^ k) i j" by blast
    show "(lo = 0 \<and> j = i) \<or> (\<exists>m. R i m \<and> (\<exists>k. lo - 1 \<le> k \<and> k \<le> n \<and> (R ^^ k) m j))"
    proof (cases k)
      case 0
      with k show ?thesis by simp
    next
      case (Suc k')
      with k have "(R ^^ Suc k') i j" by simp
      then obtain m where "R i m" "(R ^^ k') m j" by (metis relpowp_Suc_D2)
      with k Suc show ?thesis by auto
    qed
  next
    assume "(lo = 0 \<and> j = i) \<or> (\<exists>m. R i m \<and> (\<exists>k. lo - 1 \<le> k \<and> k \<le> n \<and> (R ^^ k) m j))"
    then show "\<exists>k. lo \<le> k \<and> k \<le> Suc n \<and> (R ^^ k) i j"
    proof
      assume "lo = 0 \<and> j = i"
      then show ?thesis by (intro exI [of _ 0]) simp
    next
      assume "\<exists>m. R i m \<and> (\<exists>k. lo - 1 \<le> k \<and> k \<le> n \<and> (R ^^ k) m j)"
      then obtain m k where "R i m" "lo - 1 \<le> k" "k \<le> n" "(R ^^ k) m j" by blast
      moreover from this have "(R ^^ Suc k) i j" by (intro relpowp_Suc_I2)
      ultimately show ?thesis by (intro exI [of _ "Suc k"]) simp
    qed
  qed
  moreover have "(\<exists>c'. (j, c') \<in> set (rep_all f lo (Suc n) i c)) \<longleftrightarrow>
      (lo = 0 \<and> j = i) \<or> (\<exists>m c1 c'. (m, c1) \<in> set (f i c) \<and> (j, c') \<in> set (rep_all f (lo - 1) n m c1))"
    by force
  ultimately show ?case using step by blast
qed

lemma ends_map_caps:
  "(\<exists>c'. (j, c') \<in> set (map (\<lambda>(j, c'). (j, h j c')) xs)) \<longleftrightarrow> (\<exists>c'. (j, c') \<in> set xs)"
  by force

theorem rx_all_sem:
  "rx_wf r \<Longrightarrow> i \<le> length s \<Longrightarrow> (\<exists>c'. (j, c') \<in> set (rx_all fl s r i c)) \<longleftrightarrow> rx_sem fl s r i j"
proof (induction r arbitrary: i j c)
  case (RSeq a b)
  have "(\<exists>c'. (j, c') \<in> set (rx_all fl s (RSeq a b) i c)) \<longleftrightarrow>
        (\<exists>m c1. (m, c1) \<in> set (rx_all fl s a i c) \<and> (\<exists>c'. (j, c') \<in> set (rx_all fl s b m c1)))"
    by auto
  also have "\<dots> \<longleftrightarrow> (\<exists>m. rx_sem fl s a i m \<and> rx_sem fl s b m j)"
    using RSeq.IH RSeq.prems rx_sem_length by simp blast
  finally show ?case by auto
next
  case (RRep a lo hi)
  have ends: "(\<exists>c'. (j, c') \<in> set (rx_all fl s (RRep a lo hi) i c)) \<longleftrightarrow>
              (\<exists>k. lo \<le> k \<and> k \<le> rep_bound s hi \<and> (rx_sem fl s a ^^ k) i j)"
    using rep_all_ends [of s "\<lambda>j c'. rx_all fl s a j c'" "rx_sem fl s a", OF _ rx_sem_length RRep.prems(2)]
      RRep.IH RRep.prems(1) by simp
  show ?case
  proof (cases hi)
    case None
    then have strict: "\<And>i j. rx_sem fl s a i j \<Longrightarrow> i < j" using RRep.prems(1) rx_sem_consuming by auto
    have "k \<le> rep_bound s hi" if k: "(rx_sem fl s a ^^ k) i j" for k
    proof -
      have "j \<le> length s"
        by (rule relpowp_length [of "rx_sem fl s a" s k i j]) (auto intro: rx_sem_length k RRep.prems(2))
      then show ?thesis using relpowp_strict [of "rx_sem fl s a" k i j, OF strict k] None
        by (simp add: rep_bound_def)
    qed
    with ends None show ?thesis by auto
  next
    case (Some h)
    with ends show ?thesis by (simp add: rep_bound_def)
  qed
next
  case (RAlt a b)
  then show ?case by (simp add: ex_disj_distrib)
next
  case (RGroup g a)
  then show ?case by (simp only: rx_all.simps rx_sem.simps ends_map_caps rx_wf.simps)
qed auto

subsection \<open>Search\<close>

lemma first_some_Some: "first_some Some xs = (case xs of [] \<Rightarrow> None | x # _ \<Rightarrow> Some x)"
  by (cases xs) auto

lemma rx_match_at_all:
  "rx_match_at fl r s i = (case rx_all fl s r i Map.empty of [] \<Rightarrow> None | x # _ \<Rightarrow> Some x)"
proof -
  have "(\<lambda>(j, c'). Some (j, c')) = (Some :: nat \<times> caps \<Rightarrow> _)" by auto
  then show ?thesis by (simp add: rx_match_at_def rx_run_first_all first_some_Some)
qed

lemma rx_finditer_first:
  "rx_finditer fl r s i = (a, j, c) # ms \<Longrightarrow>
     i \<le> a \<and> a \<le> length s \<and> rx_match_at fl r s a = Some (j, c) \<and>
     (\<forall>a'. i \<le> a' \<and> a' < a \<longrightarrow> rx_match_at fl r s a' = None)"
proof (induction fl r s i rule: rx_finditer.induct)
  case (1 fl r s i)
  have i: "\<not> length s < i"
  proof
    assume "length s < i"
    then have "rx_finditer fl r s i = []" by (simp add: rx_finditer.simps [of fl r s i])
    with "1.prems" show False by simp
  qed
  show ?case
  proof (cases "rx_match_at fl r s i")
    case None
    with "1.prems" i have "rx_finditer fl r s (Suc i) = (a, j, c) # ms"
      by (simp add: rx_finditer.simps [of fl r s i])
    then have IH: "Suc i \<le> a \<and> a \<le> length s \<and> rx_match_at fl r s a = Some (j, c) \<and>
                   (\<forall>a'. Suc i \<le> a' \<and> a' < a \<longrightarrow> rx_match_at fl r s a' = None)"
      by (rule "1.IH"(1) [OF i None])
    have "rx_match_at fl r s a' = None" if "i \<le> a'" "a' < a" for a'
      using IH None that by (cases "a' = i") auto
    with IH show ?thesis by auto
  next
    case (Some m)
    obtain j' c' where m: "m = (j', c')" by fastforce
    with Some "1.prems" i show ?thesis by (auto simp: rx_finditer.simps [of fl r s i])
  qed
qed

theorem rx_search_leftmost:
  assumes "rx_wf r" "rx_search fl r s = Some (a, j, c)"
  shows "rx_sem fl s r a j \<and> (\<forall>a' j'. a' < a \<longrightarrow> \<not> rx_sem fl s r a' j')"
proof -
  obtain ms where first: "rx_finditer fl r s 0 = (a, j, c) # ms"
    using assms(2) by (auto simp: rx_search_def split: list.splits)
  note f = rx_finditer_first [OF first]
  then obtain rest where "rx_all fl s r a Map.empty = (j, c) # rest"
    by (auto simp: rx_match_at_all split: list.splits)
  then have "rx_sem fl s r a j" using rx_all_sem [OF assms(1), where i = a and j = j and c = Map.empty and fl = fl and s = s] f by auto
  moreover have "\<not> rx_sem fl s r a' j'" if "a' < a" for a' j'
  proof -
    have "rx_match_at fl r s a' = None" using f that by simp
    then have "rx_all fl s r a' Map.empty = []" by (simp add: rx_match_at_all split: list.splits)
    then show ?thesis using rx_all_sem [OF assms(1), where i = a' and j = j' and c = Map.empty and fl = fl and s = s] f that by auto
  qed
  ultimately show ?thesis by blast
qed

end
