(* ===== verification/Name_Scan.thy ===== *)
theory Name_Scan
  imports Name_Parser Py_Regex
begin

text \<open>
  The regular-expression scans of \<open>NameParser\<close> (\<open>src/parsers/name_parser.py\<close>):
  the four \<open>NAME_PATTERNS\<close> run by \<open>extract_names\<close> with \<open>IGNORECASE | MULTILINE\<close>,
  the \<open>Name of Company\<close> field of \<open>_extract_from_sections\<close> (no flags), and the two
  patterns of \<open>extract_name_changes\<close> (\<open>IGNORECASE\<close>), each written as an \<open>rx\<close>
  term of \<open>Py_Regex\<close> and run by its matcher.  \<open>extract_names\<close> returns
  \<open>list(names)\<close> of a Python set, whose order is the hash order of the strings:
  the model keeps the order of first insertion, and the properties speak only of
  the set of names.
\<close>

subsection \<open>Character classes and patterns (lines 24--36, 76--79, 257, 275)\<close>

definition is_upper_az :: "char \<Rightarrow> bool" where
  "is_upper_az c \<longleftrightarrow> 65 \<le> (of_char c :: nat) \<and> (of_char c :: nat) \<le> 90"

text \<open>\<open>[A-Z\s&\'-]\<close>\<close>

definition is_name_char :: "char \<Rightarrow> bool" where
  "is_name_char c \<longleftrightarrow> is_upper_az c \<or> is_space c \<or> c = CHR ''&'' \<or> c = CHR 0x27 \<or> c = CHR ''-''"

text \<open>\<open>[:\s]\<close>\<close>

definition is_colon_space :: "char \<Rightarrow> bool" where
  "is_colon_space c \<longleftrightarrow> c = CHR '':'' \<or> is_space c"

definition rx_words :: "string list \<Rightarrow> rx" where
  "rx_words ws = rx_alts (map rx_lit ws)"

definition name_patterns :: "rx list" where
  "name_patterns =
     [rx_seqs [rx_words [''company name'', ''name of company'', ''corporate name''],
               RRep (RChar is_colon_space) 1 None,
               RGroup 1 (rx_seqs [RChar is_upper_az, RRep (RChar is_name_char) 1 None,
                                  RRep (rx_words [''LIMITED'', ''LTD'', ''PLC'', ''LLP'', ''CIC'', ''CHARITY'']) 0 (Some 1)])],
      rx_seqs [rx_alts [RSeq (rx_lit ''changed its name '') (rx_words [''to'', ''from'']),
                        rx_lit ''new name'', rx_lit ''former name'', rx_lit ''previous name''],
               RRep (RChar is_colon_space) 1 None,
               RGroup 1 (rx_seqs [RChar is_upper_az, RRep (RChar is_name_char) 1 None,
                                  RRep (rx_words [''LIMITED'', ''LTD'', ''PLC'', ''LLP'']) 0 (Some 1)])],
      rx_seqs [RBol,
               RGroup 1 (rx_seqs [RChar is_upper_az, RRep (RChar is_name_char) 8 None,
                                  rx_words [''LIMITED'', ''LTD'', ''PLC'', ''LLP'']]),
               RAlt (RChar is_space) REol],
      rx_seqs [rx_lit ''company'', RRep (RChar is_colon_space) 1 None,
               RGroup 1 (rx_seqs [RChar is_upper_az, RRep (RChar is_name_char) 5 None,
                                  rx_words [''LIMITED'', ''LTD'', ''PLC'', ''LLP'', ''CIC'']])]]"

definition section_pattern :: rx where
  "section_pattern =
     rx_seqs [RAlt (rx_seqs [rx_lit ''Name of '', RChar (\<lambda>x. x = CHR ''C'' \<or> x = CHR ''c''), rx_lit ''ompany''])
                   (rx_seqs [rx_lit ''Company '', RChar (\<lambda>x. x = CHR ''N'' \<or> x = CHR ''n''), rx_lit ''ame'']),
              RRep (RChar is_colon_space) 0 None, RRep (RChar (\<lambda>x. x = nl)) 0 (Some 1),
              RRep (RChar is_space) 0 None,
              RGroup 1 (RSeq (RChar is_upper_az) (RRep (RChar (\<lambda>x. x \<noteq> nl)) 5 (Some 100)))]"

definition name_run :: rx where
  "name_run = RSeq (RChar is_upper_az) (RRep (RChar (\<lambda>x. x \<noteq> nl)) 10 (Some 100))"

definition change_patterns :: "rx list" where
  "change_patterns =
     [rx_seqs [rx_lit ''changed its name from'', RRep (RChar is_space) 1 None, RGroup 1 name_run,
               RRep (RChar is_space) 1 None, rx_lit ''to'', RRep (RChar is_space) 1 None, RGroup 2 name_run],
      rx_seqs [rx_lit ''former name'', RRep (RChar is_colon_space) 1 None, RGroup 1 name_run,
               RRep (RChar is_space) 1 None, rx_lit ''new name'', RRep (RChar is_colon_space) 1 None,
               RGroup 2 name_run]]"

definition names_flags :: re_flags where
  "names_flags = \<lparr>re_ignorecase = True, re_multiline = True\<rparr>"

definition changes_flags :: re_flags where
  "changes_flags = \<lparr>re_ignorecase = True, re_multiline = False\<rparr>"

definition plain_flags :: re_flags where
  "plain_flags = \<lparr>re_ignorecase = False, re_multiline = False\<rparr>"

subsection \<open>The scans\<close>

definition pattern_names :: "rx \<Rightarrow> string \<Rightarrow> string list" where
  "pattern_names p text =
     concat (map (\<lambda>(a, j, c). let name = py_strip (rx_group text c 1) in
                               if is_valid_name name then [normalize_name name] else [])
                 (rx_finditer names_flags p text 0))"

definition extract_from_sections :: "string \<Rightarrow> string list" where
  "extract_from_sections text =
     (case rx_search plain_flags section_pattern text of
        None \<Rightarrow> []
      | Some (a, j, c) \<Rightarrow> name_from_field name_suffixes (py_strip (rx_group text c 1)))"

definition extract_names :: "string \<Rightarrow> string list" where
  "extract_names text =
     remdups (concat (map (\<lambda>p. pattern_names p text) name_patterns) @ extract_from_sections text)"

definition change_pairs :: "rx \<Rightarrow> string \<Rightarrow> (string \<times> string) list" where
  "change_pairs p text =
     concat (map (\<lambda>(a, j, c).
                    case (extract_name_with_suffix (py_strip (rx_group text c 1)),
                          extract_name_with_suffix (py_strip (rx_group text c 2))) of
                      (Some old, Some new) \<Rightarrow>
                        if old \<noteq> [] \<and> new \<noteq> [] then [(normalize_name old, normalize_name new)] else []
                    | _ \<Rightarrow> [])
                 (rx_finditer changes_flags p text 0))"

definition extract_name_changes :: "string \<Rightarrow> (string \<times> string) list" where
  "extract_name_changes text = concat (map (\<lambda>p. change_pairs p text) change_patterns)"

subsection \<open>Soundness of the scans\<close>

lemma sublist_rx_group: "sublist (rx_group s c g) s"
  using sublist_order.order.trans [OF sublist_take sublist_drop]
  by (auto simp: rx_group_def split: option.split)

lemma sublist_py_strip: "sublist (py_strip s) s"
proof -
  have "sublist (dropWhile is_space (rev (dropWhile is_space s))) (rev (dropWhile is_space s))"
    by (rule suffix_imp_sublist [OF suffix_dropWhile])
  then have "sublist (py_strip s) (dropWhile is_space s)"
    using sublist_rev [of "dropWhile is_space (rev (dropWhile is_space s))" "rev (dropWhile is_space s)"]
    by (simp add: py_strip_def)
  then show ?thesis
    using suffix_imp_sublist [OF suffix_dropWhile] sublist_order.order.trans by blast
qed

lemma extract_with_suffixes_valid:
  "extract_with_suffixes sfxs t = Some n \<Longrightarrow> is_valid_name n \<and> prefix n t"
proof (induction sfxs t rule: extract_with_suffixes.induct)
  case (2 sfx sfxs t)
  show ?case
  proof (cases "py_find (py_upper t) sfx")
    case None
    with 2 show ?thesis by simp
  next
    case (Some idx)
    show ?thesis
    proof (cases "is_valid_name (take (idx + length sfx) t)")
      case True
      with Some "2.prems" have "n = take (idx + length sfx) t" by simp
      with True show ?thesis by (simp add: take_is_prefix)
    next
      case False
      with Some 2 show ?thesis by simp
    qed
  qed
qed simp

lemma extract_name_with_suffix_valid:
  "extract_name_with_suffix t = Some n \<Longrightarrow> is_valid_name n \<and> sublist n t"
  using extract_with_suffixes_valid [of suffixes_by_length t n]
  by (auto simp: extract_name_with_suffix_def intro: prefix_imp_sublist)

lemma name_from_field_valid:
  "n \<in> set (name_from_field sfxs pn) \<Longrightarrow> \<exists>m. sublist m pn \<and> is_valid_name m \<and> normalize_name m = n"
  by (induction sfxs pn rule: name_from_field.induct)
     (auto simp: Let_def intro: prefix_imp_sublist take_is_prefix split: option.splits if_splits)

lemma pattern_names_sound:
  "n \<in> set (pattern_names p text) \<Longrightarrow> \<exists>m. sublist m text \<and> is_valid_name m \<and> normalize_name m = n"
  using sublist_order.order.trans [OF sublist_py_strip sublist_rx_group]
  by (fastforce simp: pattern_names_def Let_def split: if_splits)

lemma extract_from_sections_sound:
  "n \<in> set (extract_from_sections text) \<Longrightarrow> \<exists>m. sublist m text \<and> is_valid_name m \<and> normalize_name m = n"
proof -
  assume n: "n \<in> set (extract_from_sections text)"
  then obtain x where x: "rx_search plain_flags section_pattern text = Some x"
    by (cases "rx_search plain_flags section_pattern text") (simp_all add: extract_from_sections_def)
  obtain a j c where "x = (a, j, c)" by (cases x) auto
  with x n have "n \<in> set (name_from_field name_suffixes (py_strip (rx_group text c 1)))"
    by (simp add: extract_from_sections_def)
  then obtain m where "sublist m (py_strip (rx_group text c 1))" "is_valid_name m" "normalize_name m = n"
    using name_from_field_valid by blast
  then show ?thesis
    using sublist_order.order.trans [OF sublist_py_strip sublist_rx_group] sublist_order.order.trans by blast
qed

text \<open>Claim C33. Every name \<open>extract_names\<close> returns is the normalisation of a piece of
  the text that \<open>_is_valid_name\<close> accepts: the scan never invents a name, and never
  returns one the validity test rejected.\<close>

theorem extract_names_sound:
  "n \<in> set (extract_names text) \<Longrightarrow> \<exists>m. sublist m text \<and> is_valid_name m \<and> normalize_name m = n"
  using pattern_names_sound extract_from_sections_sound by (auto simp: extract_names_def)

lemma change_pairs_mem:
  assumes "(old, new) \<in> set (change_pairs p text)"
  shows "\<exists>c mo mn. extract_name_with_suffix (py_strip (rx_group text c 1)) = Some mo \<and>
                  extract_name_with_suffix (py_strip (rx_group text c 2)) = Some mn \<and>
                  old = normalize_name mo \<and> new = normalize_name mn"
proof -
  obtain a j c where "(old, new) \<in> set
      (case (extract_name_with_suffix (py_strip (rx_group text c 1)),
             extract_name_with_suffix (py_strip (rx_group text c 2))) of
         (Some old, Some new) \<Rightarrow> if old \<noteq> [] \<and> new \<noteq> [] then [(normalize_name old, normalize_name new)] else []
       | _ \<Rightarrow> [])"
    using assms unfolding change_pairs_def set_concat set_map by fastforce
  then show ?thesis
    by (cases "extract_name_with_suffix (py_strip (rx_group text c 1))";
        cases "extract_name_with_suffix (py_strip (rx_group text c 2))") (auto split: if_split_asm)
qed

text \<open>Every pair \<open>extract_name_changes\<close> returns is made of the normalisations of two
  valid pieces of the text.\<close>

lemma extract_name_changes_sound:
  assumes "(old, new) \<in> set (extract_name_changes text)"
  shows "\<exists>mo mn. sublist mo text \<and> sublist mn text \<and> is_valid_name mo \<and> is_valid_name mn \<and>
                 normalize_name mo = old \<and> normalize_name mn = new"
proof -
  obtain p where "(old, new) \<in> set (change_pairs p text)"
    using assms by (auto simp: extract_name_changes_def)
  then obtain c mo mn where mo: "extract_name_with_suffix (py_strip (rx_group text c 1)) = Some mo"
    and mn: "extract_name_with_suffix (py_strip (rx_group text c 2)) = Some mn"
    and "old = normalize_name mo" "new = normalize_name mn"
    using change_pairs_mem by blast
  moreover have "sublist mo text" "sublist mn text" "is_valid_name mo" "is_valid_name mn"
    using extract_name_with_suffix_valid [OF mo] extract_name_with_suffix_valid [OF mn]
      sublist_order.order.trans [OF _ sublist_order.order.trans [OF sublist_py_strip sublist_rx_group]] by blast+
  ultimately show ?thesis by blast
qed

end
