(* ===== verification/Name_Scenarios.thy ===== *)
theory Name_Scenarios
  imports Name_Scan
begin

text \<open>
  Concrete texts run through the scans of \<open>Name_Scan\<close>, evaluated by \<open>code_simp\<close>:
  a certificate line that every scan reads, a label in lower case followed by a
  second line, and a change-of-name sentence with and without a trailing clause.
\<close>

definition certificate_text :: string where
  "certificate_text = ''Certificate'' @ [nl] @ ''Company name: ACME WIDGETS LIMITED'' @ [nl] @ ''Registered in England''"

definition two_line_text :: string where
  "two_line_text = ''The company name: Acme Widgets Limited'' @ [nl] @ ''registered in England and Wales''"

definition change_text :: string where
  "change_text = ''The company changed its name from ALPHA TRADING LIMITED to BETA HOLDINGS LIMITED''"

definition change_text_clause :: string where
  "change_text_clause = change_text @ '' pursuant to a special resolution''"

lemma certificate_names: "extract_names certificate_text = [''ACME WIDGETS LIMITED'']"
  by code_simp

theorem extract_names_sound_witness:
  "\<exists>m. sublist m certificate_text \<and> is_valid_name m \<and> normalize_name m = ''ACME WIDGETS LIMITED''"
  using extract_names_sound [of "''ACME WIDGETS LIMITED''" certificate_text] certificate_names by simp

text \<open>A name on a line labelled \<open>company name:\<close> in lower case is lost when
  another line of words follows: under \<open>IGNORECASE\<close> the class \<open>[A-Z\s&\'-]\<close> accepts
  lower-case letters and the newline, so the first pattern captures both lines,
  \<open>_is_valid_name\<close> rejects the capture for the word \<open>REGISTERED\<close>, no other pattern
  applies, and the case-sensitive field search needs \<open>Company\<close>.  The valid name
  is in the text and \<open>extract_names\<close> returns nothing.\<close>

theorem extract_names_misses_two_line_name:
  "sublist ''Acme Widgets Limited'' two_line_text \<and> is_valid_name ''Acme Widgets Limited'' \<and>
   extract_names two_line_text = []"
proof -
  have "sublist ''Acme Widgets Limited'' two_line_text"
    unfolding two_line_text_def sublist_def
    by (rule exI [of _ "''The company name: ''"], rule exI [of _ "[nl] @ ''registered in England and Wales''"]) simp
  moreover have "is_valid_name ''Acme Widgets Limited''" by code_simp
  moreover have "extract_names two_line_text = []" by code_simp
  ultimately show ?thesis by blast
qed

text \<open>A change of name is dropped when the sentence goes on with a further
  \<open>to\<close>: the greedy first group of \<open>changed its name from ... to ...\<close> backs off only
  to the last \<open> to \<close> followed by ten characters, so the second group is the
  trailing clause, which holds no suffix.  Without the clause the change is found.\<close>

theorem name_change_lost_after_clause:
  "extract_name_changes change_text = [(''ALPHA TRADING LIMITED'', ''BETA HOLDINGS LIMITED'')] \<and>
   extract_name_changes change_text_clause = []"
proof -
  have "extract_name_changes change_text = [(''ALPHA TRADING LIMITED'', ''BETA HOLDINGS LIMITED'')]"
    by code_simp
  moreover have "extract_name_changes change_text_clause = []" by code_simp
  ultimately show ?thesis by blast
qed

end
