(* ===== verification/App_Config.thy ===== *)
theory App_Config
  imports Rate_Limiter Api_Client GitHub_Storage PDF_Processor Name_Parser
begin

text \<open>
  \<open>Config\<close> (\<open>src/core/config.py\<close>): the class body is evaluated once, at import,
  over the process environment after \<open>load_dotenv()\<close>.  The environment is an
  association list (the first binding of a name is its value); \<open>load_dotenv\<close>
  adds the bindings of the \<open>.env\<close> file that the environment does not already
  have, the last line of the file winning for a repeated name.  \<open>int(...)\<close> of a
  set variable is \<open>py_int\<close> (white space stripped, an optional sign, decimal
  digits with single underscores between them), which raises \<open>ValueError\<close> otherwise;
  the first failing setting, in the order of the class body, is the import
  error.  Directories are strings: \<open>BASE_DIR\<close> is a parameter and \<open>Path\<close>
  normalisation is not modelled.  The constants of the class (\<open>MAX_RETRIES\<close>,
  \<open>CH_BASE_URL\<close>, ...) are the definitions the component theories already use.
\<close>

type_synonym environ = "(string \<times> string) list"

definition load_dotenv :: "environ \<Rightarrow> environ \<Rightarrow> environ" where
  "load_dotenv dotenv env = env @ rev dotenv"

record py_config =
  cfg_ch_api_key :: string
  cfg_openai_api_key :: string
  cfg_xai_api_key :: string
  cfg_opencorporates_api_key :: string
  cfg_rate_limit_requests :: int
  cfg_rate_limit_period :: int
  cfg_flask_secret_key :: string
  cfg_flask_debug :: bool
  cfg_flask_host :: string
  cfg_flask_port :: int
  cfg_data_dir :: string
  cfg_cache_dir :: string
  cfg_exports_dir :: string
  cfg_templates_dir :: string
  cfg_static_dir :: string
  cfg_github_token :: "string option"
  cfg_ai_provider :: string
  cfg_xai_model :: string

text \<open>\<open>os.getenv(name, default)\<close> for a string setting.\<close>

definition str_setting :: "environ \<Rightarrow> string \<Rightarrow> string \<Rightarrow> string" where
  "str_setting env k d = get_default (map_of env k) d"

text \<open>\<open>int(os.getenv(name, default))\<close>: the default is an \<open>int\<close> already.\<close>

definition int_setting :: "environ \<Rightarrow> string \<Rightarrow> int \<Rightarrow> py_error + int" where
  "int_setting env k d =
     (case map_of env k of
        None \<Rightarrow> Inr d
      | Some s \<Rightarrow> (case py_int s of None \<Rightarrow> Inl Value_error | Some n \<Rightarrow> Inr n))"

definition int_setting_names :: "string list" where
  "int_setting_names = [''RATE_LIMIT_REQUESTS'', ''RATE_LIMIT_PERIOD'', ''FLASK_PORT'']"

definition load_config :: "string \<Rightarrow> environ \<Rightarrow> py_error + py_config" where
  "load_config base env =
     (case int_setting env ''RATE_LIMIT_REQUESTS'' 600 of
        Inl e \<Rightarrow> Inl e
      | Inr rl_requests \<Rightarrow>
     (case int_setting env ''RATE_LIMIT_PERIOD'' 300 of
        Inl e \<Rightarrow> Inl e
      | Inr rl_period \<Rightarrow>
     (case int_setting env ''FLASK_PORT'' 5000 of
        Inl e \<Rightarrow> Inl e
      | Inr port \<Rightarrow>
        Inr \<lparr>cfg_ch_api_key = str_setting env ''COMPANIES_HOUSE_API_KEY'' [],
             cfg_openai_api_key = str_setting env ''OPENAI_API_KEY'' [],
             cfg_xai_api_key = str_setting env ''XAI_API_KEY'' [],
             cfg_opencorporates_api_key = str_setting env ''OPENCORPORATES_API_KEY'' [],
             cfg_rate_limit_requests = rl_requests, cfg_rate_limit_period = rl_period,
             cfg_flask_secret_key = str_setting env ''FLASK_SECRET_KEY'' ''dev-secret-key-change-in-production'',
             cfg_flask_debug = (py_lower (str_setting env ''FLASK_DEBUG'' ''False'') = ''true''),
             cfg_flask_host = str_setting env ''FLASK_HOST'' ''0.0.0.0'',
             cfg_flask_port = port,
             cfg_data_dir = str_setting env ''DATA_DIR'' (base @ ''/data''),
             cfg_cache_dir = str_setting env ''CACHE_DIR'' (base @ ''/cache''),
             cfg_exports_dir = str_setting env ''EXPORTS_DIR'' (base @ ''/exports''),
             cfg_templates_dir = base @ ''/templates'', cfg_static_dir = base @ ''/static'',
             cfg_github_token = map_of env ''GITHUB_TOKEN'',
             cfg_ai_provider = str_setting env ''AI_PROVIDER'' ''xai'',
             cfg_xai_model = str_setting env ''XAI_MODEL'' ''grok-2-vision-1212''\<rparr>)))"

definition validate_api_key :: "py_config \<Rightarrow> py_error + bool" where
  "validate_api_key cfg = (if cfg_ch_api_key cfg = [] then Inl Value_error else Inr True)"

subsection \<open>\<open>ensure_directories\<close> (lines 63--67)\<close>

text \<open>The file system is the list of existing directories; \<open>mkdir(parents=True,
  exist_ok=True)\<close> adds the directory and every ancestor of it.\<close>

definition dir_prefixes :: "string \<Rightarrow> string list" where
  "dir_prefixes d =
     (let parts = py_split CHR ''/'' d
      in filter (\<lambda>p. p \<noteq> []) (map (\<lambda>n. py_join ''/'' (take n parts)) [1..<Suc (length parts)]))"

definition mkdir_p :: "string \<Rightarrow> string list \<Rightarrow> string list" where
  "mkdir_p d fs = fold List.insert (dir_prefixes d) fs"

definition ensure_directories :: "py_config \<Rightarrow> string list \<Rightarrow> string list" where
  "ensure_directories cfg fs = fold mkdir_p [cfg_data_dir cfg, cfg_cache_dir cfg, cfg_exports_dir cfg] fs"

subsection \<open>The settings the components read\<close>

text \<open>\<open>RateLimiter.__init__\<close> (\<open>src/core/rate_limiter.py\<close> lines 14--25) over the
  configuration that was loaded: \<open>max_requests or Config.RATE_LIMIT_REQUESTS\<close>.\<close>

definition config_limiter :: "py_config \<Rightarrow> int option \<Rightarrow> real option \<Rightarrow> rate_limiter" where
  "config_limiter cfg m p =
     \<lparr>max_requests = (case m of Some x \<Rightarrow> if x \<noteq> 0 then x else cfg_rate_limit_requests cfg
                                | None \<Rightarrow> cfg_rate_limit_requests cfg),
      period = (case p of Some x \<Rightarrow> if x \<noteq> 0 then x else of_int (cfg_rate_limit_period cfg)
                          | None \<Rightarrow> of_int (cfg_rate_limit_period cfg)),
      requests = []\<rparr>"

definition config_ai :: "py_config \<Rightarrow> ai_config" where
  "config_ai cfg =
     \<lparr>ai_provider = cfg_ai_provider cfg, xai_api_key = cfg_xai_api_key cfg,
      openai_api_key = cfg_openai_api_key cfg\<rparr>"

definition config_storage :: "py_config \<Rightarrow> string option \<Rightarrow> gh_storage" where
  "config_storage cfg tok = gh_init tok (cfg_github_token cfg)"

subsection \<open>Properties\<close>

lemma int_setting_Inl: "(\<exists>e. int_setting env k d = Inl e) \<longleftrightarrow> (\<exists>s. map_of env k = Some s \<and> py_int s = None)"
  by (auto simp: int_setting_def split: option.splits)


text \<open>The import of \<open>Config\<close> fails exactly when one of the integer settings is
  set to a string \<open>int()\<close> rejects.\<close>

lemma load_config_error_iff:
  "(\<exists>e. load_config base env = Inl e) \<longleftrightarrow>
     (\<exists>k\<in>set int_setting_names. \<exists>s. map_of env k = Some s \<and> py_int s = None)"
proof -
  have "(\<exists>e. load_config base env = Inl e) \<longleftrightarrow>
          (\<exists>e. int_setting env ''RATE_LIMIT_REQUESTS'' 600 = Inl e) \<or>
          (\<exists>e. int_setting env ''RATE_LIMIT_PERIOD'' 300 = Inl e) \<or>
          (\<exists>e. int_setting env ''FLASK_PORT'' 5000 = Inl e)"
    unfolding load_config_def by (auto split: sum.splits)
  then show ?thesis by (simp add: int_setting_Inl int_setting_names_def)
qed

lemma load_config_Inr_fields:
  assumes "load_config base env = Inr cfg"
  shows "int_setting env ''RATE_LIMIT_REQUESTS'' 600 = Inr (cfg_rate_limit_requests cfg)"
    "int_setting env ''RATE_LIMIT_PERIOD'' 300 = Inr (cfg_rate_limit_period cfg)"
    "cfg_ch_api_key cfg = str_setting env ''COMPANIES_HOUSE_API_KEY'' []"
    "cfg_github_token cfg = map_of env ''GITHUB_TOKEN''"
  using assms by (auto simp: load_config_def split: sum.splits)

text \<open>With the rate-limit variables unset, the limiter built over the loaded
  configuration is the one \<open>Rate_Limiter\<close> models with the defaults.\<close>

lemma config_limiter_default:
  assumes "load_config base env = Inr cfg"
    and "map_of env ''RATE_LIMIT_REQUESTS'' = None" "map_of env ''RATE_LIMIT_PERIOD'' = None"
  shows "config_limiter cfg m p = new_rate_limiter m p"
  using load_config_Inr_fields(1,2) [OF assms(1)] assms(2,3)
  by (simp add: int_setting_def config_limiter_def new_rate_limiter_def config_rate_limit_requests_def
                config_rate_limit_period_def split: option.split)

text \<open>Claim C35. \<open>Config\<close> accepts \<open>RATE_LIMIT_REQUESTS=0\<close> (or a negative value), and a
  limiter built over it without an explicit limit (\<open>max_requests or Config...\<close>)
  then raises \<open>IndexError\<close> on its first \<open>acquire\<close>: the deque is empty and at the
  limit, and \<open>self.requests[0]\<close> is read.  The error surfaces at the first registry
  call, not when the configuration is loaded.\<close>

theorem zero_rate_limit_acquire_fails:
  assumes "load_config base env = Inr cfg" "cfg_rate_limit_requests cfg \<le> 0"
  shows "acquire (config_limiter cfg None p) now delta = Inl Index_error"
  using assms(2) by (simp add: acquire_def config_limiter_def)

lemma dir_in_prefixes: "d \<noteq> [] \<Longrightarrow> d \<in> set (dir_prefixes d)"
proof -
  assume d: "d \<noteq> []"
  let ?parts = "py_split CHR ''/'' d"
  have eq: "py_join ''/'' (take (length ?parts) ?parts) = d" using py_join_split [of "CHR ''/''" d] by simp
  have "length ?parts \<in> set [1..<Suc (length ?parts)]" by (cases ?parts) auto
  then have "py_join ''/'' (take (length ?parts) ?parts) \<in> set (map (\<lambda>n. py_join ''/'' (take n ?parts)) [1..<Suc (length ?parts)])"
    by (simp only: set_map) (rule imageI)
  with eq d show ?thesis by (simp add: dir_prefixes_def Let_def)
qed

lemma set_mkdir_p: "set (mkdir_p d fs) = set fs \<union> set (dir_prefixes d)"
proof -
  have "set (fold List.insert xs fs) = set fs \<union> set xs" for xs by (induction xs arbitrary: fs) auto
  then show ?thesis by (simp add: mkdir_p_def)
qed

lemma ensure_directories_creates:
  "set (ensure_directories cfg fs) =
     set fs \<union> set (dir_prefixes (cfg_data_dir cfg)) \<union> set (dir_prefixes (cfg_cache_dir cfg)) \<union>
     set (dir_prefixes (cfg_exports_dir cfg))"
  by (simp add: ensure_directories_def set_mkdir_p Un_assoc)

end
