(* ===== verification/Reports.thy ===== *)
theory Reports
  imports Csv_Exporter Network_Analysis
begin

text \<open>
  The two text reports: \<open>NetworkScanner.generate_network_report\<close>
  (\<open>src/network_scanner.py\<close> lines 309--365) and \<open>MismatchDetector.generate_report\<close>
  (\<open>src/mismatch_detector.py\<close> lines 367--427).  Each builds a list of lines and
  joins it with newlines; an f-string of \<open>None\<close> prints \<open>None\<close>.  The \<open>checked_at\<close>
  timestamp of a detector result and the message text of the missing-names issue
  are parameters, as in \<open>Csv_Exporter\<close>.
\<close>

definition rule_line :: "char \<Rightarrow> string" where
  "rule_line c = replicate 80 c"

definition py_str_opt :: "string option \<Rightarrow> string" where
  "py_str_opt v = (case v of None \<Rightarrow> ''None'' | Some s \<Rightarrow> s)"

subsection \<open>\<open>generate_network_report\<close>\<close>

definition shared_company_line :: "shared_company \<Rightarrow> string" where
  "shared_company_line c =
     ''    - '' @ py_str_opt (sc_company_name c) @ '' ('' @ sc_company_number c @ '') as '' @ sc_role c"

definition director_lines :: "shared_director \<Rightarrow> string list" where
  "director_lines d =
     [nl # sd_director_name d, ''  Companies: '' @ show_nat (sd_company_count d)] @
     map shared_company_line (take 5 (sd_companies d))"

definition cluster_company_line :: "network \<Rightarrow> company_number \<Rightarrow> string" where
  "cluster_company_line n cn =
     ''  - '' @ py_str_opt (case map_of (companies n) cn of None \<Rightarrow> None | Some node \<Rightarrow> node_name node) @
     '' ('' @ cn @ '')''"

definition cluster_lines :: "network \<Rightarrow> nat \<times> company_number list \<Rightarrow> string list" where
  "cluster_lines n ic =
     (nl # ''Cluster '' @ show_nat (fst ic) @ '' ('' @ show_nat (length (snd ic)) @ '' companies):'') #
     map (cluster_company_line n) (take 10 (snd ic))"

definition network_report_lines :: "network \<Rightarrow> string list" where
  "network_report_lines n =
     (let stats = statistics n; shared = find_shared_directors n; clusters = find_company_clusters n in
      [rule_line CHR ''='', ''DIRECTOR NETWORK ANALYSIS'', rule_line CHR ''='',
       ''Seed Companies: '' @ py_join '', '' (seed_companies n), ''Max Depth: '' @ show_int (net_max_depth n), [],
       ''STATISTICS'', rule_line CHR ''-'',
       ''Total Companies: '' @ show_nat (total_companies stats), ''Total Directors: '' @ show_nat (total_directors stats),
       ''Total Connections: '' @ show_nat (total_connections stats), ''Depth Reached: '' @ show_nat (depth_reached stats),
       []] @
      (if shared = [] then []
       else [''TOP SHARED DIRECTORS'', rule_line CHR ''-''] @ concat (map director_lines (take 10 shared))) @
      [[]] @
      (if clusters = [] then []
       else [''COMPANY CLUSTERS'', rule_line CHR ''-''] @ concat (map (cluster_lines n) (enumerate 1 (take 5 clusters)))) @
      [[], rule_line CHR ''=''])"

definition generate_network_report :: "network \<Rightarrow> string" where
  "generate_network_report n = py_join [nl] (network_report_lines n)"

subsection \<open>\<open>generate_report\<close>\<close>

text \<open>\<open>mismatch.get('document', 'N/A')\<close>\<close>

fun report_document :: "mismatch \<Rightarrow> string" where
  "report_document (Names_missing_from_overview _ _) = ''N/A''"
| "report_document (Name_mismatch _ f _ _ _ _) = py_str_opt f"
| "report_document (Incorporation_date_mismatch f _ _ _) = py_str_opt f"
| "report_document (Name_change_date_mismatch f _ _ _ _ _) = py_str_opt f"
| "report_document (Multiple_name_changes f _ _) = py_str_opt f"

text \<open>The lines of one issue: the keys it has decide the lines (lines 403--418).\<close>

fun issue_detail_lines :: "(mismatch \<Rightarrow> string) \<Rightarrow> mismatch \<Rightarrow> string list" where
  "issue_detail_lines msg (Name_mismatch _ _ offs found _ _) =
     [''  Expected: '' @ py_join '', '' offs, ''  Found: '' @ found]"
| "issue_detail_lines msg (Incorporation_date_mismatch _ e f d) =
     [''  Expected Date: '' @ e, ''  Found Date: '' @ f, ''  Difference: '' @ show_int d @ '' days'']"
| "issue_detail_lines msg (Name_change_date_mismatch _ e f d _ _) =
     [''  Expected Date: '' @ e, ''  Found Date: '' @ f, ''  Difference: '' @ show_int d @ '' days'']"
| "issue_detail_lines msg m = [''  '' @ mismatch_message msg m]"

definition issue_lines :: "(mismatch \<Rightarrow> string) \<Rightarrow> mismatch \<Rightarrow> string list" where
  "issue_lines msg m =
     [nl # ''['' @ py_upper (mismatch_severity m) @ ''] '' @ mismatch_type m,
      ''  Document: '' @ report_document m] @ issue_detail_lines msg m"

definition mismatch_report_lines :: "(mismatch \<Rightarrow> string) \<Rightarrow> string \<Rightarrow> mismatch_result \<Rightarrow> string list" where
  "mismatch_report_lines msg checked_at r =
     (let s = res_summary r in
      [rule_line CHR ''='', ''MISMATCH DETECTION REPORT'', rule_line CHR ''='',
       ''Company: '' @ py_str_opt (res_company_name r), ''Company Number: '' @ py_str_opt (res_company_number r),
       ''Checked: '' @ checked_at, [],
       ''SUMMARY'', rule_line CHR ''-'',
       ''Total Mismatches: '' @ show_nat (total_mismatches s),
       ''  - Name Mismatches: '' @ show_nat (name_mismatches s),
       ''  - Date Mismatches: '' @ show_nat (date_mismatches s),
       ''  - Missing Filings: '' @ show_nat (missing_filings s),
       ''  - Extra Names: '' @ show_nat (extra_names s), []] @
      (if res_mismatches r = [] then [''No mismatches detected. All data appears consistent.'']
       else [''DETECTED ISSUES'', rule_line CHR ''-''] @ concat (map (issue_lines msg) (res_mismatches r))) @
      [[], rule_line CHR ''=''])"

definition generate_report :: "(mismatch \<Rightarrow> string) \<Rightarrow> string \<Rightarrow> mismatch_result \<Rightarrow> string" where
  "generate_report msg checked_at r = py_join [nl] (mismatch_report_lines msg checked_at r)"

subsection \<open>Properties\<close>

lemma director_lines_length: "length (director_lines d) \<le> 7"
  by (simp add: director_lines_def)

lemma cluster_lines_length: "length (cluster_lines n ic) \<le> 11"
  by (simp add: cluster_lines_def)

text \<open>The slices \<open>shared[:10]\<close>, \<open>companies[:5]\<close>, \<open>clusters[:5]\<close> and
  \<open>cluster[:10]\<close> bound the network report: at most 145 lines, whatever the size of
  the snapshot.\<close>

lemma network_report_bound: "length (network_report_lines n) \<le> 145"
proof -
  let ?ds = "take 10 (find_shared_directors n)"
  let ?cs = "enumerate 1 (take 5 (find_company_clusters n))"
  have "length (concat (map director_lines ?ds)) \<le> 7 * length ?ds"
    by (rule length_concat_map_le) (rule director_lines_length)
  also have "\<dots> \<le> 70" by simp
  finally have d: "length (concat (map director_lines ?ds)) \<le> 70" .
  have "length (concat (map (cluster_lines n) ?cs)) \<le> 11 * length ?cs"
    by (rule length_concat_map_le) (rule cluster_lines_length)
  also have "\<dots> \<le> 55" by simp
  finally have c: "length (concat (map (cluster_lines n) ?cs)) \<le> 55" .
  show ?thesis using d c by (simp add: network_report_lines_def Let_def)
qed

end
