(* ===== verification/Cli.thy ===== *)
theory Cli
  imports App_Config Reports
begin

text \<open>
  \<open>src/core/cli.py\<close>: the sub-commands after \<open>argparse\<close> (whose parsing is not
  modelled: a command is the parsed namespace), composed with the models of the
  components they call.  The collaborators form one environment: the batch
  environment of \<open>BatchProcessor\<close>, the registry \<open>NetworkScanner\<close> reads, the
  HTTP server of the search, and the JSON files \<open>json.load\<close> reads (absent: the
  \<open>open\<close> raises \<open>FileNotFoundError\<close>).  The printing is not modelled; the outcome
  of a command is what it computes and writes.  \<open>JSONExporter\<close> and
  \<open>HTMLExporter\<close> are not in the repository: their branches are outcomes without
  content.  A run starts with the import of \<open>Config\<close> (which may raise) and the
  check of the API key.
\<close>

record ('d, 'p, 'a) cli_env =
  ce_batch :: "('d, 'p) batch_env"
  ce_registry :: registry
  ce_search :: "'a page server"
  ce_files :: "string \<Rightarrow> batch_results option"
  ce_float_str :: "real \<Rightarrow> string"
  ce_message :: "mismatch \<Rightarrow> string"
  ce_clock :: real

record scan_args =
  sa_company :: "string option"
  sa_companies :: "string option"
  sa_expand_network :: bool
  sa_max_depth :: int
  sa_export :: "string option"

datatype cli_command =
    Cmd_scan scan_args
  | Cmd_export string string
  | Cmd_resume string
  | Cmd_network string int int
  | Cmd_search string
  | Cmd_none

datatype export_outcome =
    Csv_exported "(py_error + string) option list"
  | Exporter_missing string

datatype 'a cli_outcome =
    Import_error py_error
  | Config_error py_error
  | No_companies
  | Scanned batch_results processing_summary "string \<times> batch_results" "export_outcome option"
  | Exported export_outcome
  | File_not_found string
  | Resumed "string + batch_results \<times> batch_results list"
  | Network_scanned network string "string \<times> network"
  | Searched "api_error + 'a list"
  | Help

subsection \<open>The commands (lines 14--172)\<close>

text \<open>\<open>[c.strip() for c in s.split(',')]\<close>\<close>

definition parse_company_list :: "string \<Rightarrow> company_number list" where
  "parse_company_list s = map py_strip (py_split CHR '','' s)"

definition scan_targets :: "scan_args \<Rightarrow> company_number list option" where
  "scan_targets a =
     (if py_truthy (sa_companies a) then Some (parse_company_list (the (sa_companies a)))
      else if py_truthy (sa_company a) then Some [the (sa_company a)]
      else None)"

definition cmd_export_results :: "('d, 'p, 'a) cli_env \<Rightarrow> batch_results \<Rightarrow> string \<Rightarrow> export_outcome" where
  "cmd_export_results ce r fmt =
     (if fmt = ''csv'' then Csv_exported (export_csv (ce_float_str ce) (ce_message ce) r)
      else Exporter_missing fmt)"

definition cmd_scan :: "('d, 'p, 'a) cli_env \<Rightarrow> py_config \<Rightarrow> scan_args \<Rightarrow> 'a cli_outcome" where
  "cmd_scan ce cfg a =
     (case scan_targets a of
        None \<Rightarrow> No_companies
      | Some cns \<Rightarrow>
          (let r = fst (process_companies (ce_batch ce) cns (sa_expand_network a) (sa_max_depth a) True False None)
           in Scanned r (get_processing_summary r) (cfg_data_dir cfg @ ''/latest_results.json'', r)
                (map_option (cmd_export_results ce r) (sa_export a))))"

definition cmd_export :: "('d, 'p, 'a) cli_env \<Rightarrow> string \<Rightarrow> string \<Rightarrow> 'a cli_outcome" where
  "cmd_export ce path fmt =
     (case ce_files ce path of None \<Rightarrow> File_not_found path | Some r \<Rightarrow> Exported (cmd_export_results ce r fmt))"

definition cmd_resume :: "('d, 'p, 'a) cli_env \<Rightarrow> string \<Rightarrow> 'a cli_outcome" where
  "cmd_resume ce path = Resumed (resume_from_checkpoint (ce_batch ce) (ce_files ce path))"

definition cmd_network :: "('d, 'p, 'a) cli_env \<Rightarrow> py_config \<Rightarrow> string \<Rightarrow> int \<Rightarrow> int \<Rightarrow> 'a cli_outcome" where
  "cmd_network ce cfg s depth maxc =
     (let n = scan_network \<lparr>max_depth = depth, max_companies = maxc, active_only = True\<rparr> (ce_registry ce)
                (parse_company_list s)
      in Network_scanned n (generate_network_report n) (cfg_data_dir cfg @ ''/network_results.json'', n))"

definition cmd_search :: "('d, 'p, 'a) cli_env \<Rightarrow> string \<Rightarrow> 'a cli_outcome" where
  "cmd_search ce q =
     Searched (map_sum id (take 10) (fst (get_company_search_api (ce_search ce) q 20 (new_client (ce_clock ce) 0))))"

subsection \<open>\<open>main\<close> (lines 174--240)\<close>

definition cli_main :: "('d, 'p, 'a) cli_env \<Rightarrow> py_config \<Rightarrow> cli_command \<Rightarrow> 'a cli_outcome" where
  "cli_main ce cfg cmd =
     (case validate_api_key cfg of
        Inl e \<Rightarrow> Config_error e
      | Inr _ \<Rightarrow>
          (case cmd of
             Cmd_scan a \<Rightarrow> cmd_scan ce cfg a
           | Cmd_export path fmt \<Rightarrow> cmd_export ce path fmt
           | Cmd_resume path \<Rightarrow> cmd_resume ce path
           | Cmd_network s depth maxc \<Rightarrow> cmd_network ce cfg s depth maxc
           | Cmd_search q \<Rightarrow> cmd_search ce q
           | Cmd_none \<Rightarrow> Help))"

text \<open>A run of the program: the import of \<open>Config\<close> over the environment, then \<open>main\<close>.\<close>

definition run_cli :: "('d, 'p, 'a) cli_env \<Rightarrow> string \<Rightarrow> environ \<Rightarrow> cli_command \<Rightarrow> 'a cli_outcome" where
  "run_cli ce base env cmd = (case load_config base env of Inl e \<Rightarrow> Import_error e | Inr cfg \<Rightarrow> cli_main ce cfg cmd)"

subsection \<open>Properties\<close>

lemma run_cli_main:
  "load_config base env = Inr cfg \<Longrightarrow> run_cli ce base env cmd = cli_main ce cfg cmd"
  by (simp add: run_cli_def)

lemma cli_main_scan:
  "cli_main ce cfg (Cmd_scan a) = Scanned r summ out ex \<Longrightarrow>
     validate_api_key cfg = Inr True \<and> scan_targets a \<noteq> None \<and>
     r = fst (process_companies (ce_batch ce) (the (scan_targets a)) (sa_expand_network a) (sa_max_depth a) True False None)"
  by (auto simp: cli_main_def cmd_scan_def validate_api_key_def Let_def split: if_splits option.splits)

text \<open>\<open>scan --companies s\<close> runs the batch over the comma-separated entries of
  \<open>s\<close>, each stripped, in order and empty entries included, and every one of them
  ends up processed or with an error recorded: the CLI composed with
  \<open>process_companies\<close>.\<close>

theorem cli_scan_accounts:
  assumes run: "run_cli ce base env (Cmd_scan a) = Scanned r summ out ex"
    and arg: "sa_companies a = Some s" "s \<noteq> []"
  shows "br_company_numbers r = parse_company_list s \<and>
         (\<forall>cn\<in>set (parse_company_list s).
            cn \<in> set (br_processed r) \<or> (\<exists>msg. Company_error cn msg \<in> set (br_errors r)))"
proof -
  obtain cfg where cfg: "load_config base env = Inr cfg"
    using run by (cases "load_config base env") (simp_all add: run_cli_def)
  have t: "scan_targets a = Some (parse_company_list s)" using arg by (simp add: scan_targets_def)
  have r: "r = fst (process_companies (ce_batch ce) (parse_company_list s) (sa_expand_network a) (sa_max_depth a) True False None)"
    using cli_main_scan [OF run [unfolded run_cli_main [OF cfg]]] t by simp
  show ?thesis
    unfolding r using process_companies_numbers process_companies_accounted by blast
qed

text \<open>Claim C34. A trailing comma in \<open>--companies\<close> makes the batch scan an empty
  company number: \<open>s.split(',')\<close> ends with an empty entry, \<open>strip\<close> keeps it and
  nothing filters it out (\<open>cli.py\<close> line 20), so whatever the other entries, the
  results list the empty number last and account for it as processed or failed.\<close>

theorem cli_trailing_comma_scans_empty:
  assumes run: "run_cli ce base env (Cmd_scan a) = Scanned r summ out ex"
    and arg: "sa_companies a = Some (s @ '','')"
  shows "br_company_numbers r = parse_company_list s @ [[]] \<and>
         ([] \<in> set (br_processed r) \<or> (\<exists>msg. Company_error [] msg \<in> set (br_errors r)))"
proof -
  have p: "parse_company_list (s @ '','') = parse_company_list s @ [[]]"
    using py_split_snoc [of "CHR '',''" s] by (simp add: parse_company_list_def py_strip_def)
  from cli_scan_accounts [OF run arg] p show ?thesis by simp
qed

text \<open>Without \<open>COMPANIES_HOUSE_API_KEY\<close> no command runs, \<open>export\<close> of a saved file
  and the help included.\<close>

lemma cli_requires_api_key:
  assumes "load_config base env = Inr cfg" "map_of env ''COMPANIES_HOUSE_API_KEY'' \<in> {None, Some []}"
  shows "run_cli ce base env cmd = Config_error Value_error"
proof -
  have "cfg_ch_api_key cfg = []" using assms load_config_Inr_fields(3) [OF assms(1)] by (auto simp: str_setting_def)
  then show ?thesis using assms(1) by (simp add: run_cli_def cli_main_def validate_api_key_def)
qed

end
