(* ===== verification/Cli_Scenarios.thy ===== *)
theory Cli_Scenarios
  imports Cli Batch_Scenarios
begin

text \<open>
  Concrete runs of the command line: the registry environment \<open>ok_env\<close> of
  \<open>Batch_Scenarios\<close> behind the batch, an environment with an API key, a
  \<open>scan --companies "01234567,"\<close> whose trailing comma adds an empty entry, and a
  configuration with \<open>RATE_LIMIT_REQUESTS=0\<close>.
\<close>

definition demo_cli_env :: "(string, unit, unit) cli_env" where
  "demo_cli_env =
     \<lparr>ce_batch = ok_env, ce_registry = alist_registry [] [] [] [],
      ce_search = (\<lambda>n rq. (Response 200 ''OK'' None \<lparr>page_items = Some [], page_total_results = Some 0,
                                                   page_total_count = None\<rparr>, 0)),
      ce_files = (\<lambda>p. None), ce_float_str = (\<lambda>x. ''0.0''), ce_message = (\<lambda>m. []), ce_clock = 0\<rparr>"

definition key_env :: environ where
  "key_env = [(''COMPANIES_HOUSE_API_KEY'', ''ch-key'')]"

definition trailing_args :: scan_args where
  "trailing_args =
     \<lparr>sa_company = None, sa_companies = Some ''01234567,'', sa_expand_network = False, sa_max_depth = 2,
      sa_export = None\<rparr>"

definition trailing_result :: batch_results where
  "trailing_result = fst (process_companies ok_env [''01234567'', []] False 2 True False None)"

definition zero_limit_env :: environ where
  "zero_limit_env = [(''RATE_LIMIT_REQUESTS'', ''0'')] @ key_env"

lemma parse_trailing: "parse_company_list ''01234567,'' = [''01234567'', []]"
  by (simp add: parse_company_list_def py_strip_def is_space_def)

lemma key_env_config: "\<exists>cfg. load_config ''/app'' key_env = Inr cfg \<and> cfg_ch_api_key cfg = ''ch-key''"
  by (simp add: load_config_def int_setting_def key_env_def str_setting_def)

lemma trailing_run:
  "run_cli demo_cli_env ''/app'' key_env (Cmd_scan trailing_args) =
     Scanned trailing_result (get_processing_summary trailing_result)
       (''/app/data/latest_results.json'', trailing_result) None"
proof -
  obtain cfg where cfg: "load_config ''/app'' key_env = Inr cfg" "cfg_ch_api_key cfg = ''ch-key''"
    using key_env_config by blast
  have "cfg_data_dir cfg = ''/app/data''"
    using cfg(1) by (auto simp: load_config_def int_setting_def key_env_def str_setting_def)
  with cfg show ?thesis
    by (simp add: run_cli_def cli_main_def validate_api_key_def cmd_scan_def scan_targets_def trailing_args_def
        parse_trailing demo_cli_env_def trailing_result_def Let_def)
qed

theorem cli_scan_accounts_witness:
  "br_company_numbers trailing_result = [''01234567'', []] \<and>
   (''01234567'' \<in> set (br_processed trailing_result) \<or>
      (\<exists>msg. Company_error ''01234567'' msg \<in> set (br_errors trailing_result))) \<and>
   ([] \<in> set (br_processed trailing_result) \<or> (\<exists>msg. Company_error [] msg \<in> set (br_errors trailing_result)))"
  using cli_scan_accounts [OF trailing_run, of "''01234567,''"] by (simp add: trailing_args_def parse_trailing)

text \<open>The trailing comma at a concrete run: the registry is asked for the empty number.\<close>

theorem trailing_comma_run:
  "run_cli demo_cli_env ''/app'' key_env (Cmd_scan trailing_args) =
     Scanned trailing_result (get_processing_summary trailing_result)
       (''/app/data/latest_results.json'', trailing_result) None \<and>
   br_processed trailing_result = [''01234567'', []] \<and>
   map cr_company_number (br_results trailing_result) = [''01234567'', []]"
proof -
  have "br_processed trailing_result = [''01234567'', []] \<and>
        map cr_company_number (br_results trailing_result) = [''01234567'', []]"
    by (simp add: trailing_result_def process_companies_def fresh_results_def Let_def)
  with trailing_run show ?thesis by simp
qed

theorem cli_trailing_comma_scans_empty_witness:
  "br_company_numbers trailing_result = [''01234567'', []] \<and>
   ([] \<in> set (br_processed trailing_result) \<or> (\<exists>msg. Company_error [] msg \<in> set (br_errors trailing_result)))"
  using cli_trailing_comma_scans_empty [OF trailing_run, of "''01234567''"]
  by (simp add: trailing_args_def parse_company_list_def py_strip_def is_space_def)

theorem zero_rate_limit_acquire_fails_witness:
  "\<exists>cfg. load_config ''/app'' zero_limit_env = Inr cfg \<and> cfg_rate_limit_requests cfg = 0 \<and>
         acquire (config_limiter cfg None None) 100 0 = Inl Index_error"
proof -
  obtain cfg where cfg: "load_config ''/app'' zero_limit_env = Inr cfg" "cfg_rate_limit_requests cfg = 0"
    by (simp add: load_config_def int_setting_def zero_limit_env_def key_env_def str_setting_def py_strip_def
        is_space_def py_int_unfold)
  then show ?thesis using zero_rate_limit_acquire_fails [OF cfg(1)] by auto
qed

end
