(* ===== verification/Document_Download.thy ===== *)
theory Document_Download
  imports App_Config
begin

text \<open>
  The two file-level methods of \<open>CompaniesHouseClient\<close> (\<open>src/api_client.py\<close>):
  \<open>get_document_metadata\<close> (lines 146--160) and \<open>download_document\<close> (lines
  162--197).  The local disk is a record of the directories that exist and the
  files with their contents; a path is the string \<open>pathlib\<close> prints for it (no
  normalisation).  \<open>Config.DATA_DIR\<close> is read from the configuration record, and
  the document body (\<open>response.content\<close>) is the server's body for the request.
\<close>

record disk =
  disk_dirs :: "string list"
  disk_files :: "string \<Rightarrow> string option"

definition ch_document_url :: string where
  "ch_document_url = ''https://document-api.company-information.service.gov.uk''"

text \<open>\<open>Path.parent\<close> of a printed path: everything before the last separator, \<open>.\<close> for a bare name.\<close>

definition path_parent :: "string \<Rightarrow> string" where
  "path_parent p =
     (if CHR ''/'' \<in> set p then rev (tl (dropWhile (\<lambda>ch. ch \<noteq> CHR ''/'') (rev p))) else ''.'')"

definition get_document_metadata ::
  "'b server \<Rightarrow> string \<Rightarrow> string \<Rightarrow> client_state \<Rightarrow> (api_error + 'b) \<times> client_state" where
  "get_document_metadata srv cn tid c =
     (case make_request srv (ch_base_url @ ''/company/'' @ cn @ ''/filing-history/'' @ tid, []) c of
        (Inl e, c') \<Rightarrow> (Inl e, c')
      | (Inr (code, b), c') \<Rightarrow> (Inr b, c'))"

text \<open>
  Lines 176--183: without an \<open>output_path\<close>, a non-empty company number names a
  folder of \<open>DATA_DIR\<close>, which is created at once (before the existence test);
  otherwise the file lies in \<open>DATA_DIR\<close> itself.
\<close>

definition download_target :: "py_config \<Rightarrow> string \<Rightarrow> string option \<Rightarrow> string option \<Rightarrow> disk \<Rightarrow> string \<times> disk" where
  "download_target cfg doc out cn d =
     (case out of
        Some p \<Rightarrow> (p, d)
      | None \<Rightarrow>
          (case cn of
             Some n \<Rightarrow>
               if n \<noteq> [] then
                 (let dir = cfg_data_dir cfg @ ''/'' @ n
                  in (dir @ ''/'' @ doc @ ''.pdf'', d\<lparr>disk_dirs := mkdir_p dir (disk_dirs d)\<rparr>))
               else (cfg_data_dir cfg @ ''/'' @ doc @ ''.pdf'', d)
           | None \<Rightarrow> (cfg_data_dir cfg @ ''/'' @ doc @ ''.pdf'', d)))"

definition document_content_url :: "string \<Rightarrow> string" where
  "document_content_url doc = ch_document_url @ ''/document/'' @ doc @ ''/content''"

definition download_document ::
  "py_config \<Rightarrow> string server \<Rightarrow> string \<Rightarrow> string option \<Rightarrow> string option \<Rightarrow>
   client_state \<Rightarrow> disk \<Rightarrow> (api_error + string) \<times> client_state \<times> disk" where
  "download_document cfg srv doc out cn c d =
     (let (p, d1) = download_target cfg doc out cn d
      in if disk_files d1 p \<noteq> None then (Inr p, c, d1)
         else
           (case make_request srv (document_content_url doc, []) c of
              (Inl e, c') \<Rightarrow> (Inl e, c', d1)
            | (Inr (code, content), c') \<Rightarrow>
                (Inr p, c', d1\<lparr>disk_dirs := mkdir_p (path_parent p) (disk_dirs d1),
                              disk_files := (disk_files d1)(p \<mapsto> content)\<rparr>)))"

subsection \<open>Properties\<close>

lemma download_target_files: "disk_files (snd (download_target cfg doc out cn d)) = disk_files d"
  by (simp add: download_target_def Let_def split: option.split)

lemma mkdir_p_present: "set (dir_prefixes x) \<subseteq> set fs \<Longrightarrow> mkdir_p x fs = fs"
proof -
  have "set xs \<subseteq> set fs \<Longrightarrow> fold List.insert xs fs = fs" for xs by (induction xs) auto
  then show "set (dir_prefixes x) \<subseteq> set fs \<Longrightarrow> mkdir_p x fs = fs" by (simp add: mkdir_p_def)
qed

text \<open>Once the folders of a target exist, computing the target again changes nothing.\<close>

lemma download_target_stable:
  "download_target cfg doc out cn d = (p, d1) \<Longrightarrow> set (disk_dirs d1) \<subseteq> set (disk_dirs d2) \<Longrightarrow>
   download_target cfg doc out cn d2 = (p, d2)"
  by (auto simp: download_target_def Let_def set_mkdir_p mkdir_p_present split: option.splits if_splits)

lemma download_target_dirs:
  "download_target cfg doc out cn d = (p, d1) \<Longrightarrow> set (disk_dirs d) \<subseteq> set (disk_dirs d1)"
  by (auto simp: download_target_def Let_def set_mkdir_p split: option.splits if_splits)

lemma download_document_cases:
  assumes "download_target cfg doc out cn d = (p, d1)"
  shows "download_document cfg srv doc out cn c d =
           (if disk_files d1 p \<noteq> None then (Inr p, c, d1)
            else (case make_request srv (document_content_url doc, []) c of
              (Inl e, c') \<Rightarrow> (Inl e, c', d1)
            | (Inr (code, content), c') \<Rightarrow>
                (Inr p, c', d1\<lparr>disk_dirs := mkdir_p (path_parent p) (disk_dirs d1),
                              disk_files := (disk_files d1)(p \<mapsto> content)\<rparr>)))"
  using assms by (simp add: download_document_def)

text \<open>
  After a successful download, the file is on disk at the returned path and its folders exist.
\<close>

lemma download_document_Inr:
  assumes "download_document cfg srv doc out cn c d = (Inr p, c', d')"
  shows "disk_files d' p \<noteq> None \<and> fst (download_target cfg doc out cn d) = p \<and>
         set (disk_dirs (snd (download_target cfg doc out cn d))) \<subseteq> set (disk_dirs d')"
proof -
  obtain q d1 where t: "download_target cfg doc out cn d = (q, d1)" by fastforce
  show ?thesis
    using assms
    by (auto simp: download_document_cases [OF t] set_mkdir_p t
             split: if_splits prod.splits sum.splits)
qed

text \<open>Claim C36. 
  A second call with the same arguments, after a successful one, makes no
  request and changes nothing: the cached file is returned.
\<close>

lemma download_document_again:
  assumes "download_document cfg srv doc out cn c d = (Inr p, c', d')"
  shows "download_document cfg srv doc out cn c' d' = (Inr p, c', d')"
proof -
  obtain q d1 where t: "download_target cfg doc out cn d = (q, d1)" by fastforce
  from download_document_Inr [OF assms] t have
    "disk_files d' p \<noteq> None" "q = p" "set (disk_dirs d1) \<subseteq> set (disk_dirs d')" by auto
  moreover from t this(2,3) have "download_target cfg doc out cn d' = (p, d')"
    by (auto intro: download_target_stable)
  ultimately show ?thesis by (simp add: download_document_cases)
qed

text \<open>
  A download the server refuses writes no file; a fresh download stores a body the
  server sent for the document's content URL.
\<close>

lemma download_document_Inl_files:
  assumes "download_document cfg srv doc out cn c d = (Inl e, c', d')"
  shows "disk_files d' = disk_files d"
proof -
  obtain q d1 where t: "download_target cfg doc out cn d = (q, d1)" by fastforce
  have "disk_files d1 = disk_files d" using download_target_files [of cfg doc out cn d] t by simp
  with assms show ?thesis by (auto simp: download_document_cases [OF t] split: if_splits prod.splits sum.splits)
qed

lemma download_document_body:
  assumes "download_document cfg srv doc out cn c d = (Inr p, c', d')" "disk_files d p = None"
  shows "\<exists>n code reason hdr b. disk_files d' p = Some b \<and>
           fst (srv n (document_content_url doc, [])) = Response code reason hdr b"
proof -
  obtain q d1 where t: "download_target cfg doc out cn d = (q, d1)" by fastforce
  have f: "disk_files d1 = disk_files d" using download_target_files [of cfg doc out cn d] t by simp
  show ?thesis
    using assms(1)
    by (auto simp: download_document_cases [OF t] f assms(2) split: if_splits prod.splits sum.splits
             dest!: make_request_Inr) blast
qed

end
