(* ===== verification/Download_Scenarios.thy ===== *)
theory Download_Scenarios
  imports Document_Download Client_Scenarios
begin

text \<open>
  A concrete download: a configuration with \<open>DATA_DIR = /app/data\<close>, a document
  service that answers every request with the same PDF, and an empty disk.
\<close>

definition dl_config :: py_config where
  "dl_config =
     \<lparr>cfg_ch_api_key = ''ch-key'', cfg_openai_api_key = [], cfg_xai_api_key = [],
      cfg_opencorporates_api_key = [], cfg_rate_limit_requests = 600, cfg_rate_limit_period = 300,
      cfg_flask_secret_key = [], cfg_flask_debug = False, cfg_flask_host = ''0.0.0.0'',
      cfg_flask_port = 5000, cfg_data_dir = ''/app/data'', cfg_cache_dir = ''/app/cache'',
      cfg_exports_dir = ''/app/exports'', cfg_templates_dir = ''/app/templates'',
      cfg_static_dir = ''/app/static'', cfg_github_token = None, cfg_ai_provider = ''xai'',
      cfg_xai_model = ''grok-2-vision-1212''\<rparr>"

definition pdf_server :: "string server" where
  "pdf_server n rq = (Response 200 ''OK'' None ''%PDF-1.4'', 1)"

definition empty_disk :: disk where
  "empty_disk = \<lparr>disk_dirs = [], disk_files = Map.empty\<rparr>"

lemma first_download:
  "\<exists>c1 d1. download_document dl_config pdf_server ''DOC1'' None (Some ''AA111111'') fresh empty_disk =
             (Inr ''/app/data/AA111111/DOC1.pdf'', c1, d1) \<and>
           disk_files d1 ''/app/data/AA111111/DOC1.pdf'' = Some ''%PDF-1.4''"
proof -
  have p: "fst (pdf_server (sent fresh) (document_content_url ''DOC1'', [])) = Response 200 ''OK'' None ''%PDF-1.4''"
    by (simp add: pdf_server_def)
  obtain c1 where c1: "make_request pdf_server (document_content_url ''DOC1'', []) fresh = (Inr (200, ''%PDF-1.4''), c1)"
    using make_request_ok [where srv = pdf_server and c = fresh and rq = "(document_content_url ''DOC1'', [])", OF p]
    by (auto simp: http_error_status_def)
  show ?thesis
    by (simp add: download_document_def download_target_def dl_config_def empty_disk_def c1)
qed

theorem download_document_again_witness:
  "\<exists>c1 d1. download_document dl_config pdf_server ''DOC1'' None (Some ''AA111111'') c1 d1 =
             (Inr ''/app/data/AA111111/DOC1.pdf'', c1, d1) \<and>
           disk_files d1 ''/app/data/AA111111/DOC1.pdf'' = Some ''%PDF-1.4''"
proof -
  obtain c1 d1 where first:
      "download_document dl_config pdf_server ''DOC1'' None (Some ''AA111111'') fresh empty_disk =
         (Inr ''/app/data/AA111111/DOC1.pdf'', c1, d1)"
      "disk_files d1 ''/app/data/AA111111/DOC1.pdf'' = Some ''%PDF-1.4''"
    using first_download by blast
  show ?thesis using download_document_again [OF first(1)] first(2) by blast
qed

end
