(* ===== verification/Spec2Isabelle.thy ===== *)
theory Spec2Isabelle
  imports Rate_Limiter Crawl_Scenarios Client_Scenarios Detector_Scenarios Batch_Scenarios Document_Scenarios
    Export_Scenarios Storage_Scenarios Name_Scenarios Cli_Scenarios Download_Scenarios
begin

text \<open>
  \<^bold>\<open>SignalWatch: a verification library for the director-network crawler, its
  registry access layer, the document pipeline, the mismatch detector, the batch
  processor, the CSV exporter, the reports, the GitHub result store, the
  configuration and the command line.\<close>

  \<^bold>\<open>The program.\<close>  SignalWatch (\<open>src/\<close>) reads the Companies House registry.  The
  director-network crawler \<open>NetworkScanner.scan_network\<close> (\<open>src/network_scanner.py\<close>)
  expands breadth-first from seed companies through shared officers, bounded by a
  depth and a number of companies, and records companies, directors and
  connections into a snapshot; two analyses read the snapshot
  (\<open>find_shared_directors\<close>, \<open>find_company_clusters\<close>).  Every registry call goes
  through \<open>CompaniesHouseClient._make_request\<close> (\<open>src/api_client.py\<close>: retries,
  back-off, HTTP 429) and the shared gate \<open>RateLimiter\<close>
  (\<open>src/core/rate_limiter.py\<close>).  The mismatch detector
  (\<open>src/mismatch_detector.py\<close>) compares the names and dates parsed from filing
  documents with the official record, using \<open>NameParser\<close>
  (\<open>src/parsers/name_parser.py\<close>).  \<open>BatchProcessor\<close>
  (\<open>src/core/batch_processor.py\<close>) runs the client and the detector over a list of
  companies with a checkpoint file, optionally runs the crawler, and summarises;
  the documents it downloads are read by \<open>DocumentParser\<close>
  (\<open>src/parsers/document_parser.py\<close>) on top of \<open>PDFProcessor\<close>
  (\<open>src/pdf_processor.py\<close>: PyPDF2, OCR and vision-AI extraction, cleaning and
  classification).  \<open>CSVExporter\<close> (\<open>src/exporters/csv_exporter.py\<close>) writes the
  batch results and the snapshot as CSV files for \<open>cli.py\<close>; \<open>GitHubStorage\<close>
  (\<open>src/core/github_storage.py\<close>) keeps scan results as JSON files of a GitHub
  repository through its contents API.  \<open>Config\<close> (\<open>src/config.py\<close>) reads the
  environment after \<open>load_dotenv\<close>, and \<open>cli.py\<close> validates the API key and
  dispatches to the scan, export, resume, network and search commands, which
  compose the components above; the detector and the scanner also print their
  results as text reports.

  \<^bold>\<open>Library layout\<close> (each theory opens with what it models):
  \<^item> \<open>Prelude\<close>: Python built-ins (\<open>in\<close> on strings, \<open>upper\<close>, \<open>lower\<close>, \<open>split\<close>,
    \<open>xs[-2]\<close>, truthiness, \<open>dict.get\<close> defaults) and shared list lemmas.
  \<^item> \<open>Rate_Limiter\<close>: the limiter record and its four operations; the clock is an
    input and lock-serialised callers are a sequence of calls.  Proved: the
    invariant \<open>rl_inv\<close>, the sliding-window contract, and the over-admission at the
    window boundary.
  \<^item> \<open>Registry\<close>, \<open>Scanner_Step\<close>, \<open>Network_Scanner\<close>: the registry answers as a record
    of four functions (their errors as \<open>api_error\<close> values), one definition per
    phase of the loop body of \<open>scan_network\<close>, and the loop as a \<open>function\<close>
    terminating by a lexicographic measure (remaining company budget, frontier).
    The reachable states are an inductive set; invariants proved by rule induction
    give the size and depth caps, the visited set, breadth-first order, the
    statistics, the provenance of every company, that an inactive company is fetched
    again for each of its frontier entries, that corporate officers are never
    searched, that officer lists are fetched at most once, and (liveness) that every
    seed has its profile requested unless the company budget runs out.
  \<^item> \<open>Network_Analysis\<close>: the ranking of shared directors and the clusters (the
    recursive DFS with its stack made explicit, terminating by a measure);
    clusters are non-singleton, connected, disjoint and complete.
  \<^item> \<open>Api_Client\<close>: \<open>_make_request\<close> against an abstract HTTP server (a function
    from the attempt number and request to a response and a latency), the trace of
    sends and sleeps, and every endpoint.  The pagination loops are
    \<open>partial_function (option)\<close>, so a loop that never ends is \<open>None\<close>, and their
    termination is proved as such: \<open>get_officers\<close> when the reported totals are
    bounded, \<open>search_officers\<close> for every server (at most
    \<open>(199 + ipp) div ipp + 1\<close> pages), \<open>search_companies\<close> for every server.  Proved:
    at most three round trips per call, the retry and error behaviour, and that any
    sequence of calls from a fresh client keeps 600 requests per 300 seconds.
    \<open>int()\<close> follows CPython's grammar for \<open>str\<close> (white space stripped, a sign,
    digits with single underscores between them).  Since \<open>get_officers\<close> drops its
    paging parameters, against every server that answers by the request it
    returns its first page once per page the total calls for.
  \<^item> \<open>Document_Download\<close>: \<open>get_document_metadata\<close> and \<open>download_document\<close>
    over a disk of directories and files.  Proved: a successful download leaves the
    file at the returned path, a refused one writes no file, a fresh file holds a
    body the server sent for the content URL, and a repeated call makes no request
    and changes nothing.
  \<^item> \<open>Name_Parser\<close>: normalisation, suffix removal, the validity test, and
    \<open>compare_names\<close> with \<open>SequenceMatcher.ratio\<close> defined from its documented
    longest-matching-block recursion (terminating by the size of the ranges).
  \<^item> \<open>Py_Regex\<close>: the part of Python's \<open>re\<close> the name scans use (classes, sequence,
    alternation, greedy bounded and unbounded repetition, groups, \<open>^\<close>, \<open>$\<close>,
    \<open>IGNORECASE\<close>, \<open>MULTILINE\<close>, \<open>finditer\<close>, \<open>search\<close>).  \<open>rx_run\<close> backtracks in
    continuation-passing style as \<open>sre\<close> does; it is proved equal to the first
    element of \<open>rx_all\<close>, the list of all matches in priority order, which is proved
    equal to the positional semantics \<open>rx_sem\<close> (relation composition and powers);
    a search returns a leftmost match.  An unbounded repetition runs at most
    \<open>length s + 1\<close> iterations, which loses no match when its body consumes a
    character (\<open>rx_wf\<close>; all patterns of the program).
  \<^item> \<open>Name_Scan\<close>: \<open>NAME_PATTERNS\<close>, the field pattern and the name-change patterns
    as \<open>rx\<close> terms, and \<open>extract_names\<close>, \<open>_extract_from_sections\<close>,
    \<open>extract_name_changes\<close>.  Proved: every name returned is the normalisation of
    a valid piece of the text; \<open>Name_Scenarios\<close> shows a valid name lost to a
    following line and a name change lost to a trailing clause.
  \<^item> \<open>Mismatch_Detector\<close>: \<open>detect_mismatches\<close> and its checks over an abstract
    \<open>DateParser\<close>.  Proved: the summary counts its issues by category, an
    unmatched name is never of severity low, the grouping of filing names equals a
    declarative reference, names missing from the overview are reported, and the
    placeholder issue makes every company with a document a mismatch.
  \<^item> \<open>Batch_Processor\<close>: \<open>process_companies\<close> as a fold over the numbered list with the
    checkpoint contents written, \<open>_process_single_company\<close> composing the client
    calls (an environment of functions) with \<open>detect_mismatches\<close>, the network scan
    by \<open>scan_network\<close>, resumption and the summary.  Proved: every company is
    accounted for, repeated numbers are processed twice, a resumed complete run
    changes nothing but rescans with default parameters, the summary's type counts
    refine the multiset of issue types, at most ten documents per company, and
    the number of companies flagged is the number with a parsed document.
  \<^item> \<open>PDF_Processor\<close>: a downloaded PDF as the record of what PyPDF2, pdf2image,
    Tesseract and the vision services report for it; the extraction fallbacks with
    the list of back ends each call runs, \<open>clean_text\<close> (its regular expressions as
    functions on strings), \<open>analyze_document_type\<close>, the metadata and
    \<open>_parse_pdf_date\<close>.  Proved: OCR runs twice when it fails after a short native
    text, the cleaned text has no double space, PDF dates keep their digits.
  \<^item> \<open>Document_Parser\<close>: \<open>parse_document\<close> and its callers over the services of
    \<open>NameParser\<close> and \<open>DateParser\<close>, and the batch environment that uses it.
    Proved: the result is always well formed (no exception escapes), the AI toggle
    decides which back ends run, AI mode has no fallback to PyPDF2, and the batch
    counts every downloaded document as parsed.
  \<^item> \<open>Csv_Exporter\<close>: the rows of the three exports, \<open>DictWriter\<close> and the \<open>excel\<close>
    dialect, the CLI's CSV branch, and the reading side of the \<open>csv\<close> module.
    Proved: the writer/reader round trip, that the exports never raise, and the
    rows the mismatch file reads back as.
  \<^item> \<open>GitHub_Storage\<close>: every method of \<open>GitHubStorage\<close> as a function of a model of
    the GitHub contents API (\<open>gh_serve\<close>: files with SHA versions, directory
    listings, the 401/201/200/422/409 answers of a write, a connection error when
    offline); \<open>json.dumps\<close>, \<open>response.json()\<close> and \<open>str()\<close> are a codec record.
    The repositories written by pushes are an inductive set.  Proved: a successful
    push reads back through \<open>get_company_data\<close>, a same-second push reports success
    without replacing the archive (the archive answer is ignored), and by rule
    induction on the layout of stored paths, \<open>get_company_history\<close> is always empty.
  \<^item> \<open>App_Config\<close>: \<open>load_dotenv\<close> (a \<open>.env\<close> file never overrides the
    environment), \<open>Config\<close> as a record read from an environment association list,
    \<open>int()\<close> raising \<open>ValueError\<close> as an error value, \<open>validate_api_key\<close>,
    \<open>ensure_directories\<close>, and the limiter, AI toggle and storage each component
    builds from it.  Proved: loading fails exactly when an integer setting does not
    parse, and a configured limit of zero requests makes every \<open>acquire\<close> raise
    \<open>IndexError\<close> instead of waiting.
  \<^item> \<open>Reports\<close>: \<open>generate_report\<close> and \<open>generate_network_report\<close> as lists of
    lines joined by newlines; the network report has at most 145 lines.
  \<^item> \<open>Cli\<close>: the commands of \<open>cli.py\<close> (argument values as a datatype, printing
    as the outcome each command returns) over an environment of collaborators.
    Proved: a scan accounts for every company of its list, a trailing comma adds
    the empty company number to every scan, and no command runs without a valid
    API key.
  \<^item> \<open>Crawl_Scenarios\<close>, \<open>Client_Scenarios\<close>, \<open>Detector_Scenarios\<close>,
    \<open>Batch_Scenarios\<close>, \<open>Document_Scenarios\<close>, \<open>Export_Scenarios\<close>,
    \<open>Storage_Scenarios\<close>, \<open>Name_Scenarios\<close>, \<open>Cli_Scenarios\<close>,
    \<open>Download_Scenarios\<close>: concrete registries, servers, documents and environments,
    evaluated by \<open>simp\<close> and \<open>code_simp\<close>: the findings as concrete runs, and a
    witness for every theorem with a hypothesis.

  \<^bold>\<open>Bounds and fuel.\<close>  No definition uses fuel: the crawl loop and the DFS are
  total functions with termination proofs, the retry loop is bounded by
  \<open>MAX_RETRIES = 3\<close>, and the pagination loops are partial functions whose
  termination is a theorem.  Machine integers do not occur: Python ints are
  \<open>int\<close>, counts \<open>nat\<close>, times and similarities \<open>real\<close>.

  \<^bold>\<open>Not modelled.\<close>  The libraries behind \<open>PDFProcessor\<close> (PyPDF2, pdf2image,
  Tesseract, the XAI and OpenAI services: a document is the record of their
  answers), the parts of \<open>re\<close> the program does not use (back references,
  lookaround, lazy repetition; an empty iteration of an unbounded repetition),
  \<open>parsers/date_parser.py\<close> (imported but not in the repository; an interface
  here), Python's float formatting and the message text of the missing-names
  issue in the CSV rows (parameters), base64 encoding of the stored files (the
  server model stores the content), \<open>argparse\<close> (the parsed arguments are the
  input of the CLI model), terminal output (an outcome value), the JSON and HTML
  exporters (imported but not in the repository), JSON encoding (the identity),
  file paths and their normalisation, timestamps and progress callbacks.
  Characters are 8-bit: \<open>int()\<close> strips the 8-bit white space of \<open>str.isspace\<close>,
  while case mapping, letters and the white space of \<open>strip\<close> and \<open>split\<close> in the
  name parser are read on ASCII (Python also treats the characters 0x1c--0x1f,
  0x85 and 0xa0 as white space and accented letters as letters).
\<close>

end
